(* ===== verification/Prelude.thy ===== *)
theory Prelude
  imports Main "HOL-Library.Word" "HOL-Library.AList"
begin

text \<open>
  The prelude of the development: the machine integers and byte strings of the Rust code, the
  outcome of a storage operation (\<open>Ok\<close>, \<open>Err\<close> or a panic), the combinators the pallets are
  written with (\<open>?\<close>, \<open>ensure!\<close>, \<open>ok_or\<close>, \<open>try_mutate\<close>, \<open>#[transactional]\<close>), the calculus
  that proves invariants of operations (\<open>preserves\<close>), and the pieces of the Rust standard
  library the pallets use (checked and saturating arithmetic, \<open>String::from_utf8\<close>).
\<close>

section \<open>Machine integers and bytes\<close>

type_synonym u8 = "8 word"
type_synonym u16 = "16 word"
type_synonym u32 = "32 word"
type_synonym u64 = "64 word"
type_synonym u128 = "128 word"

text \<open>A Rust \<open>Vec<u8>\<close>; a Rust \<open>String\<close> is the list of its UTF-8 bytes.\<close>

type_synonym bytes = "u8 list"
type_synonym rust_string = "u8 list"

named_theorems op_simps \<open>evaluation of the storage combinators at a state\<close>
named_theorems op_inv \<open>inversion: what a combinator that returned must have done\<close>
named_theorems preserves_rules \<open>rules for invariants of operations\<close>
named_theorems arith_simps \<open>checked, saturating and converting arithmetic\<close>

definition checked_add :: "'w::len word \<Rightarrow> 'w word \<Rightarrow> 'w word option" where
  "checked_add a b = (if unat a + unat b < 2 ^ LENGTH('w) then Some (a + b) else None)"

definition checked_sub :: "'w::len word \<Rightarrow> 'w word \<Rightarrow> 'w word option" where
  "checked_sub a b = (if b \<le> a then Some (a - b) else None)"

definition saturating_add :: "'w::len word \<Rightarrow> 'w word \<Rightarrow> 'w word" where
  "saturating_add a b = (case checked_add a b of Some c \<Rightarrow> c | None \<Rightarrow> - 1)"

definition saturating_sub :: "'w::len word \<Rightarrow> 'w word \<Rightarrow> 'w word" where
  "saturating_sub a b = (if b \<le> a then a - b else 0)"

text \<open>\<open>checked_into\<close> and \<open>try_into\<close> between unsigned integers: \<open>None\<close> when the value does not fit.\<close>

definition checked_into :: "'v::len word \<Rightarrow> 'w::len word option" where
  "checked_into a = (if unat a < 2 ^ LENGTH('w) then Some (ucast a) else None)"

lemma checked_add_Some:
  "checked_add a b = Some c \<longleftrightarrow> unat a + unat b < 2 ^ LENGTH('w) \<and> c = a + (b :: 'w::len word)"
  by (auto simp: checked_add_def)

lemma checked_add_None:
  "checked_add a b = None \<longleftrightarrow> 2 ^ LENGTH('w) \<le> unat a + unat (b :: 'w::len word)"
  by (auto simp: checked_add_def)

lemma unat_minus_1: "unat (- 1 :: 'w::len word) = 2 ^ LENGTH('w) - 1"
  by (simp add: unsigned_minus_1_eq_mask mask_eq_exp_minus_1)

lemma checked_add_1: "checked_add n 1 = (if n = - 1 then None else Some (n + 1))"
  for n :: "'w::len word"
proof -
  have "n = - 1 \<longleftrightarrow> \<not> unat n + 1 < 2 ^ LENGTH('w)"
    using unsigned_less [of n, where 'a = nat] unfolding word_unat_eq_iff unat_minus_1 by linarith
  then show ?thesis by (simp add: checked_add_def)
qed

lemma unat_add_no_wrap:
  "unat a + unat b < 2 ^ LENGTH('w) \<Longrightarrow> unat (a + b) = unat a + unat (b :: 'w::len word)"
  by (simp add: unat_word_ariths)

lemma unat_word_of_nat: "n < 2 ^ LENGTH('w) \<Longrightarrow> unat (word_of_nat n :: 'w::len word) = n"
  by (simp add: unat_of_nat)

lemma unat_checked_add: "checked_add a b = Some c \<Longrightarrow> unat c = unat a + unat b"
  by (simp add: checked_add_Some unat_add_no_wrap)

lemma unat_succ_eq:
  "unat a + 1 < 2 ^ LENGTH('w) \<Longrightarrow> unat (a + 1) = Suc (unat (a :: 'w::len word))"
  by (simp add: unat_word_ariths)

lemma unat_succ: "a \<noteq> - 1 \<Longrightarrow> unat (a + 1) = Suc (unat (a :: 'w::len word))"
  using checked_add_1 [of a] unat_checked_add [of a 1] by simp

lemma unat_saturating_add:
  "unat (saturating_add a b) = min (unat a + unat b) (2 ^ LENGTH('w) - 1)"
  for a b :: "'w::len word"
  using unsigned_less [of a, where 'a = nat] unsigned_less [of b, where 'a = nat]
  by (auto simp: saturating_add_def checked_add_def unat_word_ariths unsigned_minus_1_eq_mask mask_eq_exp_minus_1 min_def)

lemma unat_checked_sub: "checked_sub a b = Some c \<Longrightarrow> unat c = unat a - unat b"
  by (auto simp: checked_sub_def unat_sub split: if_splits)

lemma unat_saturating_sub: "unat (saturating_sub a b) = unat a - unat b"
  by (auto simp: saturating_sub_def unat_sub word_le_nat_alt)

lemma unat_checked_into:
  "checked_into (a :: 'v::len word) = Some (c :: 'w::len word) \<Longrightarrow> unat c = unat a"
  by (auto simp: checked_into_def unsigned_ucast_eq take_bit_nat_eq_self split: if_splits)

lemma checked_into_self [simp]: "checked_into (a :: 'w::len word) = Some a"
  by (simp add: checked_into_def)

section \<open>Storage operations\<close>

text \<open>
  A pallet function reads and writes the storage and returns a value, returns an error, or
  panics. An error does not by itself undo the writes made before it (\<open>Err\<close> carries the state);
  a panic aborts the whole call and has no state.
\<close>

datatype ('s, 'e, 'a) outcome = Ok 'a 's | Err 'e 's | Panic

type_synonym ('s, 'e, 'a) op = "'s \<Rightarrow> ('s, 'e, 'a) outcome"

definition ret :: "'a \<Rightarrow> ('s, 'e, 'a) op" where
  "ret x s = Ok x s"

definition fail :: "'e \<Rightarrow> ('s, 'e, 'a) op" where
  "fail e s = Err e s"

definition panic :: "('s, 'e, 'a) op" where
  "panic s = Panic"

text \<open>Sequencing: the \<open>?\<close> operator stops at the first error.\<close>

definition bind :: "('s, 'e, 'a) op \<Rightarrow> ('a \<Rightarrow> ('s, 'e, 'b) op) \<Rightarrow> ('s, 'e, 'b) op" where
  "bind m f s = (case m s of Ok x t \<Rightarrow> f x t | Err e t \<Rightarrow> Err e t | Panic \<Rightarrow> Panic)"

definition gets :: "('s \<Rightarrow> 'a) \<Rightarrow> ('s, 'e, 'a) op" where
  "gets f s = Ok (f s) s"

definition modify :: "('s \<Rightarrow> 's) \<Rightarrow> ('s, 'e, unit) op" where
  "modify g s = Ok () (g s)"

text \<open>\<open>ensure!(b, e)\<close>, \<open>opt.ok_or(e)?\<close> and \<open>opt.unwrap()\<close>.\<close>

definition ensure :: "bool \<Rightarrow> 'e \<Rightarrow> ('s, 'e, unit) op" where
  "ensure b e = (if b then ret () else fail e)"

definition ok_or :: "'a option \<Rightarrow> 'e \<Rightarrow> ('s, 'e, 'a) op" where
  "ok_or v e = (case v of Some x \<Rightarrow> ret x | None \<Rightarrow> fail e)"

definition unwrap :: "'a option \<Rightarrow> ('s, 'e, 'a) op" where
  "unwrap v = (case v of Some x \<Rightarrow> ret x | None \<Rightarrow> panic)"

text \<open>\<open>m.map_err(g)\<close> and \<open>if let Err(e) = m \{ h(e) \}\<close>.\<close>

definition map_err :: "('e \<Rightarrow> 'f) \<Rightarrow> ('s, 'e, 'a) op \<Rightarrow> ('s, 'f, 'a) op" where
  "map_err g m s = (case m s of Ok x t \<Rightarrow> Ok x t | Err e t \<Rightarrow> Err (g e) t | Panic \<Rightarrow> Panic)"

definition catch :: "('s, 'e, 'a) op \<Rightarrow> ('a \<Rightarrow> ('s, 'f, 'b) op) \<Rightarrow> ('e \<Rightarrow> ('s, 'f, 'b) op)
    \<Rightarrow> ('s, 'f, 'b) op" where
  "catch m f h s = (case m s of Ok x t \<Rightarrow> f x t | Err e t \<Rightarrow> h e t | Panic \<Rightarrow> Panic)"

text \<open>\<open>#[transactional]\<close>: the storage layer of a function that returns an error is dropped.\<close>

definition transactional :: "('s, 'e, 'a) op \<Rightarrow> ('s, 'e, 'a) op" where
  "transactional m s = (case m s of Ok x t \<Rightarrow> Ok x t | Err e t \<Rightarrow> Err e s | Panic \<Rightarrow> Panic)"

text \<open>
  \<open>StorageValue::try_mutate\<close>: the closure gets the stored value, and the new value is written
  only when the closure returns \<open>Ok\<close>.
\<close>

definition try_mutate :: "('s \<Rightarrow> 'v) \<Rightarrow> ('v \<Rightarrow> 's \<Rightarrow> 's) \<Rightarrow> ('v \<Rightarrow> ('s, 'e, 'a \<times> 'v) op)
    \<Rightarrow> ('s, 'e, 'a) op" where
  "try_mutate rd wr f =
     bind (gets rd) (\<lambda>v. bind (f v) (\<lambda>(r, v'). bind (modify (wr v')) (\<lambda>_. ret r)))"

text \<open>A \<open>for\<close> loop over a list; an error in the body ends it.\<close>

fun for_each :: "('a \<Rightarrow> ('s, 'e, unit) op) \<Rightarrow> 'a list \<Rightarrow> ('s, 'e, unit) op" where
  "for_each f [] = ret ()"
| "for_each f (x # xs) = bind (f x) (\<lambda>_. for_each f xs)"

lemmas op_defs = ret_def fail_def panic_def bind_def gets_def modify_def map_err_def catch_def
  transactional_def

declare op_defs [op_simps]
declare ensure_def [op_simps] ok_or_def [op_simps] unwrap_def [op_simps] try_mutate_def [op_simps]


section \<open>Inversion\<close>

lemma bind_Ok_iff [op_inv]: "bind m f s = Ok y t \<longleftrightarrow> (\<exists>x u. m s = Ok x u \<and> f x u = Ok y t)"
  by (auto simp: bind_def split: outcome.splits)

lemma bind_Err_iff [op_inv]:
  "bind m f s = Err e t \<longleftrightarrow> m s = Err e t \<or> (\<exists>x u. m s = Ok x u \<and> f x u = Err e t)"
  by (auto simp: bind_def split: outcome.splits)

lemma bind_Panic_iff [op_inv]:
  "bind m f s = Panic \<longleftrightarrow> m s = Panic \<or> (\<exists>x u. m s = Ok x u \<and> f x u = Panic)"
  by (auto simp: bind_def split: outcome.splits)

lemma ret_iff [op_inv]: "ret x s = Ok y t \<longleftrightarrow> y = x \<and> t = s"
  by (auto simp: ret_def)

lemma ret_not [op_inv, simp]: "ret x s \<noteq> Err e t" "ret x s \<noteq> Panic"
  by (simp_all add: ret_def)

lemma fail_iff [op_inv]: "fail e s = Err e' t \<longleftrightarrow> e' = e \<and> t = s"
  by (auto simp: fail_def)

lemma fail_not [op_inv, simp]: "fail e s \<noteq> Ok x t" "fail e s \<noteq> Panic"
  by (simp_all add: fail_def)

lemma gets_iff [op_inv]: "gets f s = Ok y t \<longleftrightarrow> y = f s \<and> t = s"
  by (auto simp: gets_def)

lemma gets_not [op_inv, simp]: "gets f s \<noteq> Err e t" "gets f s \<noteq> Panic"
  by (simp_all add: gets_def)

lemma modify_iff [op_inv]: "modify g s = Ok y t \<longleftrightarrow> t = g s"
  by (auto simp: modify_def)

lemma modify_not [op_inv, simp]: "modify g s \<noteq> Err e t" "modify g s \<noteq> Panic"
  by (simp_all add: modify_def)

lemma ensure_Ok_iff [op_inv]: "ensure b e s = Ok y t \<longleftrightarrow> b \<and> t = s"
  by (auto simp: ensure_def ret_def fail_def)

lemma ensure_Err_iff [op_inv]: "ensure b e s = Err e' t \<longleftrightarrow> \<not> b \<and> e' = e \<and> t = s"
  by (auto simp: ensure_def ret_def fail_def)

lemma ensure_not_Panic [op_inv, simp]: "ensure b e s \<noteq> Panic"
  by (simp add: ensure_def)

lemma ok_or_Ok_iff [op_inv]: "ok_or v e s = Ok y t \<longleftrightarrow> v = Some y \<and> t = s"
  by (auto simp: ok_or_def ret_def fail_def split: option.splits)

lemma ok_or_Err_iff [op_inv]: "ok_or v e s = Err e' t \<longleftrightarrow> v = None \<and> e' = e \<and> t = s"
  by (auto simp: ok_or_def ret_def fail_def split: option.splits)

lemma ok_or_not_Panic [op_inv, simp]: "ok_or v e s \<noteq> Panic"
  by (simp add: ok_or_def split: option.splits)

lemma unwrap_Ok_iff [op_inv]: "unwrap v s = Ok y t \<longleftrightarrow> v = Some y \<and> t = s"
  by (auto simp: unwrap_def ret_def panic_def split: option.splits)

lemma unwrap_not_Err [op_inv, simp]: "unwrap v s \<noteq> Err e t"
  by (simp add: unwrap_def panic_def split: option.splits)

lemma unwrap_Panic_iff [op_inv]: "unwrap v s = Panic \<longleftrightarrow> v = None"
  by (auto simp: unwrap_def ret_def panic_def split: option.splits)

lemma map_err_Ok_iff [op_inv]: "map_err g m s = Ok y t \<longleftrightarrow> m s = Ok y t"
  by (auto simp: map_err_def split: outcome.splits)

lemma map_err_Err_iff [op_inv]: "map_err g m s = Err e t \<longleftrightarrow> (\<exists>e'. m s = Err e' t \<and> e = g e')"
  by (auto simp: map_err_def split: outcome.splits)

lemma map_err_Panic_iff [op_inv]: "map_err g m s = Panic \<longleftrightarrow> m s = Panic"
  by (auto simp: map_err_def split: outcome.splits)

lemma catch_Ok_iff [op_inv]:
  "catch m f h s = Ok y t \<longleftrightarrow>
     (\<exists>x u. m s = Ok x u \<and> f x u = Ok y t) \<or> (\<exists>e u. m s = Err e u \<and> h e u = Ok y t)"
  by (auto simp: catch_def split: outcome.splits)

lemma catch_Err_iff [op_inv]:
  "catch m f h s = Err e' t \<longleftrightarrow>
     (\<exists>x u. m s = Ok x u \<and> f x u = Err e' t) \<or> (\<exists>e u. m s = Err e u \<and> h e u = Err e' t)"
  by (auto simp: catch_def split: outcome.splits)

lemma catch_Panic_iff [op_inv]:
  "catch m f h s = Panic \<longleftrightarrow>
     m s = Panic \<or> (\<exists>x u. m s = Ok x u \<and> f x u = Panic) \<or> (\<exists>e u. m s = Err e u \<and> h e u = Panic)"
  by (auto simp: catch_def split: outcome.splits)

lemma transactional_Ok_iff [op_inv]: "transactional m s = Ok y t \<longleftrightarrow> m s = Ok y t"
  by (auto simp: transactional_def split: outcome.splits)

lemma transactional_Err_iff [op_inv]:
  "transactional m s = Err e t \<longleftrightarrow> t = s \<and> (\<exists>u. m s = Err e u)"
  by (auto simp: transactional_def split: outcome.splits)

lemma transactional_Panic_iff [op_inv]: "transactional m s = Panic \<longleftrightarrow> m s = Panic"
  by (auto simp: transactional_def split: outcome.splits)

section \<open>Laws of sequencing\<close>

lemma bind_ret_left [simp]: "bind (ret x) f = f x"
  by (simp add: bind_def ret_def fun_eq_iff)

lemma bind_ret_right [simp]: "bind m ret = m"
  by (auto simp: bind_def ret_def fun_eq_iff split: outcome.splits)

lemma bind_assoc: "bind (bind m f) g = bind m (\<lambda>x. bind (f x) g)"
  by (auto simp: bind_def fun_eq_iff split: outcome.splits)

lemma for_each_append: "for_each f (xs @ ys) = bind (for_each f xs) (\<lambda>_. for_each f ys)"
  by (induction xs) (simp_all add: bind_assoc)

section \<open>Invariants of operations\<close>

text \<open>
  \<open>preserves P m\<close>: if \<open>P\<close> holds before \<open>m\<close>, it holds in the state \<open>m\<close> leaves, whether \<open>m\<close>
  returned a value or an error. \<open>P = (\<lambda>s. f s = v)\<close> says that \<open>m\<close> does not write \<open>f\<close>.
\<close>

definition preserves :: "('s \<Rightarrow> bool) \<Rightarrow> ('s, 'e, 'a) op \<Rightarrow> bool" where
  "preserves P m \<longleftrightarrow>
     (\<forall>s x t. P s \<longrightarrow> m s = Ok x t \<longrightarrow> P t) \<and> (\<forall>s e t. P s \<longrightarrow> m s = Err e t \<longrightarrow> P t)"

definition never_panics :: "('s \<Rightarrow> bool) \<Rightarrow> ('s, 'e, 'a) op \<Rightarrow> bool" where
  "never_panics P m \<longleftrightarrow> (\<forall>s. P s \<longrightarrow> m s \<noteq> Panic)"

definition err_noop :: "('s, 'e, 'a) op \<Rightarrow> bool" where
  "err_noop m \<longleftrightarrow> (\<forall>s e t. m s = Err e t \<longrightarrow> t = s)"

lemma preservesI:
  assumes "\<And>s x t. P s \<Longrightarrow> m s = Ok x t \<Longrightarrow> P t" and "\<And>s e t. P s \<Longrightarrow> m s = Err e t \<Longrightarrow> P t"
  shows "preserves P m"
  using assms unfolding preserves_def by blast

lemma preserves_Ok: "preserves P m \<Longrightarrow> m s = Ok x t \<Longrightarrow> P s \<Longrightarrow> P t"
  unfolding preserves_def by blast

lemma preserves_Err: "preserves P m \<Longrightarrow> m s = Err e t \<Longrightarrow> P s \<Longrightarrow> P t"
  unfolding preserves_def by blast

lemma preserves_case_list [preserves_rules]:
  "preserves P m \<Longrightarrow> (\<And>y ys. preserves P (f y ys)) \<Longrightarrow>
   preserves P (case xs of [] \<Rightarrow> m | y # ys \<Rightarrow> f y ys)"
  by (cases xs) simp_all

lemma preserves_ret [preserves_rules]: "preserves P (ret x)"
  by (simp add: preserves_def ret_def)

lemma preserves_fail [preserves_rules]: "preserves P (fail e)"
  by (simp add: preserves_def fail_def)

lemma preserves_panic [preserves_rules]: "preserves P panic"
  by (simp add: preserves_def panic_def)

lemma preserves_gets [preserves_rules]: "preserves P (gets f)"
  by (simp add: preserves_def gets_def)

lemma preserves_ensure [preserves_rules]: "preserves P (ensure b e)"
  by (simp add: preserves_def ensure_def ret_def fail_def)

lemma preserves_ok_or [preserves_rules]: "preserves P (ok_or v e)"
  by (auto simp: preserves_def ok_or_def ret_def fail_def split: option.splits)

lemma preserves_unwrap [preserves_rules]: "preserves P (unwrap v)"
  by (auto simp: preserves_def unwrap_def ret_def panic_def split: option.splits)

lemma preserves_modify [preserves_rules]: "(\<And>s. P s \<Longrightarrow> P (g s)) \<Longrightarrow> preserves P (modify g)"
  by (simp add: preserves_def modify_def)

lemma preserves_bind [preserves_rules]:
  "preserves P m \<Longrightarrow> (\<And>x. preserves P (f x)) \<Longrightarrow> preserves P (bind m f)"
  unfolding preserves_def bind_Ok_iff bind_Err_iff by meson

lemma preserves_map_err [preserves_rules]: "preserves P m \<Longrightarrow> preserves P (map_err g m)"
  by (auto intro!: preservesI simp: op_inv dest: preserves_Ok preserves_Err)

lemma preserves_catch [preserves_rules]:
  "preserves P m \<Longrightarrow> (\<And>x. preserves P (f x)) \<Longrightarrow> (\<And>e. preserves P (h e)) \<Longrightarrow>
   preserves P (catch m f h)"
  unfolding preserves_def catch_Ok_iff catch_Err_iff by meson

lemma preserves_transactional [preserves_rules]:
  "preserves P m \<Longrightarrow> preserves P (transactional m)"
  by (auto intro!: preservesI simp: op_inv dest: preserves_Ok preserves_Err)

lemma preserves_try_mutate [preserves_rules]:
  assumes "\<And>v. preserves P (f v)" and "\<And>v s. P s \<Longrightarrow> P (wr v s)"
  shows "preserves P (try_mutate rd wr f)"
  unfolding try_mutate_def
  by (auto intro!: preserves_rules assms split: prod.splits)

lemma preserves_for_each [preserves_rules]:
  "(\<And>x. x \<in> set xs \<Longrightarrow> preserves P (f x)) \<Longrightarrow> preserves P (for_each f xs)"
  by (induction xs) (auto intro: preserves_rules)

lemma preserves_if [preserves_rules]:
  "(b \<Longrightarrow> preserves P m) \<Longrightarrow> (\<not> b \<Longrightarrow> preserves P n) \<Longrightarrow> preserves P (if b then m else n)"
  by simp

lemma preserves_option [preserves_rules]:
  "preserves P m \<Longrightarrow> (\<And>x. preserves P (f x)) \<Longrightarrow>
   preserves P (case v of None \<Rightarrow> m | Some x \<Rightarrow> f x)"
  by (cases v) auto

lemma preserves_prod [preserves_rules]:
  "(\<And>x y. preserves P (f x y)) \<Longrightarrow> preserves P (case v of (x, y) \<Rightarrow> f x y)"
  by (cases v) auto

lemma preserves_conj:
  "preserves P m \<Longrightarrow> preserves Q m \<Longrightarrow> preserves (\<lambda>s. P s \<and> Q s) m"
  by (auto intro!: preservesI dest: preserves_Ok preserves_Err)

lemma preserves_frame:
  "(\<And>v. preserves (\<lambda>s. f s = v) m) \<Longrightarrow> preserves (\<lambda>s. P (f s)) m"
  unfolding preserves_def by metis

lemma err_noop_transactional [simp, intro]: "err_noop (transactional m)"
  by (auto simp: err_noop_def op_inv)

section \<open>\<open>String::from_utf8\<close>\<close>

text \<open>
  The well-formed byte sequences of the Unicode standard, which \<open>String::from_utf8\<close> accepts:
  no overlong encodings, no surrogates, nothing above U+10FFFF.
\<close>

definition continuation_byte :: "u8 \<Rightarrow> bool" where
  "continuation_byte b \<longleftrightarrow> 0x80 \<le> b \<and> b \<le> 0xBF"

fun utf8_valid :: "bytes \<Rightarrow> bool" where
  "utf8_valid [] = True"
| "utf8_valid (a # as) =
     (if a \<le> 0x7F then utf8_valid as
      else if 0xC2 \<le> a \<and> a \<le> 0xDF then
        (case as of b # bs \<Rightarrow> continuation_byte b \<and> utf8_valid bs | _ \<Rightarrow> False)
      else if 0xE0 \<le> a \<and> a \<le> 0xEF then
        (case as of b # c # cs \<Rightarrow>
           (if a = 0xE0 then 0xA0 \<le> b \<and> b \<le> 0xBF
            else if a = 0xED then 0x80 \<le> b \<and> b \<le> 0x9F
            else continuation_byte b) \<and> continuation_byte c \<and> utf8_valid cs
         | _ \<Rightarrow> False)
      else if 0xF0 \<le> a \<and> a \<le> 0xF4 then
        (case as of b # c # d # ds \<Rightarrow>
           (if a = 0xF0 then 0x90 \<le> b \<and> b \<le> 0xBF
            else if a = 0xF4 then 0x80 \<le> b \<and> b \<le> 0x8F
            else continuation_byte b) \<and> continuation_byte c \<and> continuation_byte d \<and> utf8_valid ds
         | _ \<Rightarrow> False)
      else False)"

definition from_utf8 :: "bytes \<Rightarrow> rust_string option" where
  "from_utf8 b = (if utf8_valid b then Some b else None)"

text \<open>ASCII literals of the source, as bytes.\<close>

definition str_bytes :: "string \<Rightarrow> bytes" where
  "str_bytes s = map (\<lambda>c. word_of_nat (of_char c)) s"

lemma from_utf8_Some: "from_utf8 b = Some t \<longleftrightarrow> utf8_valid b \<and> t = b"
  by (auto simp: from_utf8_def)

lemma utf8_valid_ascii: "\<forall>x \<in> set b. x \<le> 0x7F \<Longrightarrow> utf8_valid b"
  by (induction b) auto

section \<open>Storage maps\<close>

text \<open>
  A storage map that the code iterates over is an association list with distinct keys. The order
  in which the storage yields the keys is decided by the hasher, so it is a parameter
  \<open>order\<close> of the model: a function that permutes the keys.
\<close>

definition storage_iter :: "('k list \<Rightarrow> 'k list) \<Rightarrow> ('k \<times> 'v) list \<Rightarrow> ('k \<times> 'v) list" where
  "storage_iter order m =
     concat (map (\<lambda>k. case map_of m k of Some v \<Rightarrow> [(k, v)] | None \<Rightarrow> []) (order (map fst m)))"

definition storage_order :: "('k list \<Rightarrow> 'k list) \<Rightarrow> bool" where
  "storage_order order \<longleftrightarrow> (\<forall>ks. distinct ks \<longrightarrow> distinct (order ks) \<and> set (order ks) = set ks)"

lemma set_storage_iter:
  assumes "storage_order order" and "distinct (map fst m)"
  shows "set (storage_iter order m) = set m"
proof -
  have keys: "set (order (map fst m)) = fst ` set m"
    using assms by (auto simp: storage_order_def)
  have mem: "(k, v) \<in> set (storage_iter order m) \<longleftrightarrow> k \<in> fst ` set m \<and> map_of m k = Some v" for k v
    using keys by (force simp: storage_iter_def split: option.splits)
  show ?thesis
    using assms(2) mem by (force simp: map_of_eq_Some_iff)
qed

end
