(* ===== verification/Text.thy ===== *)
theory Text
  imports Prelude
begin

text \<open>
  The text of numbers in the Rust standard library: \<open>to_string\<close> of an unsigned integer writes its
  decimal digits, \<open>str::parse\<close> reads them back with overflow checks. The two are inverse.
\<close>

section \<open>Digits\<close>

definition checked_mul :: "'w::len word \<Rightarrow> 'w word \<Rightarrow> 'w word option" where
  "checked_mul a b = (if unat a * unat b < 2 ^ LENGTH('w) then Some (a * b) else None)"

definition digit_byte :: "nat \<Rightarrow> u8" where
  "digit_byte d = word_of_nat (48 + d)"

definition digit_value :: "u8 \<Rightarrow> nat option" where
  "digit_value b = (if 48 \<le> b \<and> b \<le> 57 then Some (unat b - 48) else None)"

lemma unat_digit_byte: "d < 10 \<Longrightarrow> unat (digit_byte d) = 48 + d"
  unfolding digit_byte_def by (rule unat_word_of_nat) simp

lemma digit_value_byte: "d < 10 \<Longrightarrow> digit_value (digit_byte d) = Some d"
  by (simp add: digit_value_def word_le_nat_alt unat_digit_byte)

lemma digit_byte_not_plus: "d < 10 \<Longrightarrow> digit_byte d \<noteq> 43"
  by (auto simp: word_unat_eq_iff unat_digit_byte)

lemma unat_checked_mul: "checked_mul a b = Some c \<Longrightarrow> unat c = unat a * unat b"
  by (auto simp: checked_mul_def unat_word_ariths split: if_splits)

section \<open>\<open>to_string\<close>\<close>

fun decimal_digits :: "nat \<Rightarrow> bytes" where
  "decimal_digits n =
     (if n < 10 then [digit_byte n] else decimal_digits (n div 10) @ [digit_byte (n mod 10)])"

declare decimal_digits.simps [simp del]

definition to_decimal :: "'w::len word \<Rightarrow> rust_string" where
  "to_decimal w = decimal_digits (unat w)"

section \<open>\<open>str::parse\<close>\<close>

text \<open>
  An optional \<open>+\<close>, then at least one digit; \<open>None\<close> is \<open>ParseIntError\<close>. A leading \<open>-\<close> is no digit of
  an unsigned integer.
\<close>

fun parse_digits :: "'w::len word \<Rightarrow> bytes \<Rightarrow> 'w word option" where
  "parse_digits acc [] = Some acc"
| "parse_digits acc (b # bs) =
     (case digit_value b of None \<Rightarrow> None
      | Some d \<Rightarrow> (case checked_mul acc 10 of None \<Rightarrow> None
        | Some m \<Rightarrow> (case checked_add m (word_of_nat d) of None \<Rightarrow> None
          | Some r \<Rightarrow> parse_digits r bs)))"

definition parse_unsigned :: "rust_string \<Rightarrow> 'w::len word option" where
  "parse_unsigned s =
     (case s of [] \<Rightarrow> None
      | b # bs \<Rightarrow> if b = 43 then (if bs = [] then None else parse_digits 0 bs) else parse_digits 0 s)"

section \<open>Round trip\<close>

lemma parse_digits_append:
  "parse_digits acc (xs @ ys) = (case parse_digits acc xs of None \<Rightarrow> None | Some r \<Rightarrow> parse_digits r ys)"
  by (induction xs arbitrary: acc) (auto split: option.split)

lemma decimal_digits_not_empty: "decimal_digits n \<noteq> []"
  by (subst decimal_digits.simps) simp

lemma set_decimal_digits: "set (decimal_digits n) \<subseteq> digit_byte ` {..<10}"
proof (induction n rule: decimal_digits.induct)
  case (1 n)
  then show ?case
    by (subst decimal_digits.simps) (auto simp: image_iff intro!: bexI [of _ "n mod 10"])
qed

lemma parse_decimal_digits:
  assumes "10 < (2 :: nat) ^ LENGTH('w)" and "n < 2 ^ LENGTH('w)"
  shows "parse_digits (0 :: 'w::len word) (decimal_digits n) = Some (word_of_nat n)"
  using assms(2)
proof (induction n rule: decimal_digits.induct)
  case (1 n)
  have ten: "unat (10 :: 'w word) = 10"
    using assms(1) unat_word_of_nat [of 10, where 'w = 'w] by simp
  show ?case
  proof (cases "n < 10")
    case True
    then show ?thesis
      using "1.prems"
      by (subst decimal_digits.simps)
        (simp add: digit_value_byte checked_mul_def checked_add_def unat_word_of_nat)
  next
    case False
    let ?q = "word_of_nat (n div 10) :: 'w word" and ?r = "word_of_nat (n mod 10) :: 'w word"
    have sizes: "n div 10 < 2 ^ LENGTH('w)" "n mod 10 < 2 ^ LENGTH('w)"
      using "1.prems" le_less_trans [OF div_le_dividend "1.prems"] le_less_trans [OF mod_less_eq_dividend "1.prems"]
      by blast+
    have "word_of_nat (n div 10 * 10 + n mod 10) = ?q * 10 + ?r"
      by (simp only: of_nat_add of_nat_mult of_nat_numeral)
    then have word: "?q * 10 + ?r = word_of_nat n" by simp
    have "checked_mul ?q 10 = Some (?q * 10)"
      using "1.prems" sizes ten by (simp add: checked_mul_def unat_word_of_nat)
    moreover have "unat (?q * 10) = n div 10 * 10"
      using unat_checked_mul [OF calculation] sizes ten by (simp add: unat_word_of_nat)
    moreover have "checked_add (?q * 10) ?r = Some (word_of_nat n)"
      using "1.prems" sizes calculation(2) word by (simp add: checked_add_def unat_word_of_nat)
    moreover have "parse_digits (0 :: 'w word) (decimal_digits (n div 10)) = Some ?q"
      using "1.IH" False sizes by simp
    ultimately show ?thesis
      using False
      by (subst decimal_digits.simps) (simp add: parse_digits_append digit_value_byte)
  qed
qed

lemma parse_to_decimal:
  assumes "10 < (2 :: nat) ^ LENGTH('w)"
  shows "parse_unsigned (to_decimal (w :: 'w::len word)) = Some w"
proof (cases "decimal_digits (unat w)")
  case (Cons b bs)
  then have "b \<in> digit_byte ` {..<10}" using set_decimal_digits [of "unat w"] by auto
  then have "b \<noteq> 43" using digit_byte_not_plus by auto
  moreover have "parse_digits (0 :: 'w word) (decimal_digits (unat w)) = Some w"
    using parse_decimal_digits [OF assms] by simp
  ultimately show ?thesis using Cons by (simp add: parse_unsigned_def to_decimal_def)
qed (simp add: decimal_digits_not_empty)

lemma to_decimal_inj:
  "10 < (2 :: nat) ^ LENGTH('w) \<Longrightarrow> to_decimal (v :: 'w::len word) = to_decimal w \<longleftrightarrow> v = w"
  using parse_to_decimal by (metis option.inject)

end
