(* ===== verification/Support.thy ===== *)
theory Support
  imports Prelude
begin

text \<open>
  The crate \<open>pallet-octopus-support\<close>: the payloads of the messages that go up to the mainchain
  (\<open>support/src/types.rs\<close>) and the traits through which the pallets call each other
  (\<open>support/src/traits.rs\<close>). A trait is a locale: its functions are the \<open>fixes\<close>, what its
  callers rely on are the \<open>assumes\<close>, and what follows for every caller is proved once inside.
  Each locale is interpreted on the pallet that implements the trait, in that pallet's theory.
\<close>

section \<open>Payloads\<close>

datatype payload_type = Lock | BurnAsset | PlanNewEra | EraPayout | LockNft

record lock_payload =
  lock_sender :: rust_string
  lock_receiver_id :: rust_string
  lock_amount :: u128
  lock_fee :: u128

record burn_asset_payload =
  burn_token_id :: rust_string
  burn_sender :: rust_string
  burn_receiver_id :: rust_string
  burn_amount :: u128
  burn_fee :: u128

record plan_new_era_payload =
  new_era :: u32

record offender =
  offender_kind :: rust_string
  offender_who :: rust_string
  offender_offences :: u32

record era_payout_payload =
  end_era_set_id :: u32
  excluded_validators :: "rust_string list"
  payout_offenders :: "offender list"

record nep171_token_metadata =
  title :: "rust_string option"
  description :: "rust_string option"
  media :: "rust_string option"
  media_hash :: "bytes option"
  copies :: "u64 option"
  issued_at :: "rust_string option"
  expires_at :: "rust_string option"
  starts_at :: "rust_string option"
  updated_at :: "rust_string option"
  extra :: "rust_string option"
  reference :: "rust_string option"
  reference_hash :: "bytes option"

record lock_nft_payload =
  nft_sender :: rust_string
  nft_receiver_id :: rust_string
  nft_collection :: u128
  nft_item :: u128
  nft_metadata :: nep171_token_metadata
  nft_fee :: u128

text \<open>\<open>Nep171TokenMetadata::default()\<close>: every field is absent.\<close>

definition default_nep171_token_metadata :: nep171_token_metadata where
  "default_nep171_token_metadata =
     \<lparr>title = None, description = None, media = None, media_hash = None, copies = None,
      issued_at = None, expires_at = None, starts_at = None, updated_at = None, extra = None,
      reference = None, reference_hash = None\<rparr>"

text \<open>What is handed to \<open>BorshSerialize::try_to_vec\<close>.\<close>

datatype payload =
    LockPayload lock_payload
  | BurnAssetPayload burn_asset_payload
  | PlanNewEraPayload plan_new_era_payload
  | EraPayoutPayload era_payout_payload
  | LockNftPayload lock_nft_payload
  | MetadataOnly nep171_token_metadata

text \<open>\<open>impl ConvertIntoNep171 for ()\<close>.\<close>

definition unit_convert_into_nep171_metadata :: "u128 \<Rightarrow> u128 \<Rightarrow> nep171_token_metadata option" where
  "unit_convert_into_nep171_metadata collection item = None"

section \<open>\<open>UpwardMessagesInterface\<close>\<close>

text \<open>
  A submitted message gets the next nonce and is appended to the messages waiting for the next
  commitment; a refused message changes nothing.
\<close>

locale upward_messages_interface =
  fixes submit :: "'a option \<Rightarrow> payload_type \<Rightarrow> bytes \<Rightarrow> ('s, 'e, u64) op"
    and pending :: "'s \<Rightarrow> (u64 \<times> payload_type \<times> bytes) list"
    and last_nonce :: "'s \<Rightarrow> u64"
  assumes submit_pending: "submit w t p s = Ok n s' \<Longrightarrow> pending s' = pending s @ [(n, t, p)]"
    and submit_last: "submit w t p s = Ok n s' \<Longrightarrow> last_nonce s' = n"
    and submit_next: "submit w t p s = Ok n s' \<Longrightarrow> unat n = Suc (unat (last_nonce s))"
    and submit_refused: "submit w t p s = Err e s' \<Longrightarrow> s' = s"
    and submit_no_panic: "submit w t p s \<noteq> Panic"
begin

lemma submit_cases:
  obtains n s' where "submit w t p s = Ok n s'" | e where "submit w t p s = Err e s"
  using submit_refused submit_no_panic by (cases "submit w t p s") auto

text \<open>A caller that submits a batch of messages, stopping at the first refusal.\<close>

lemma submit_batch:
  assumes "for_each (\<lambda>(w, t, p). bind (submit w t p) (\<lambda>_. ret ())) ms s = Ok () s'"
  shows "\<exists>ns. pending s' = pending s @ map (\<lambda>(n, w, t, p). (n, t, p)) (zip ns ms) \<and>
    length ns = length ms \<and>
    map unat ns = [Suc (unat (last_nonce s)) ..< Suc (unat (last_nonce s)) + length ms] \<and>
    unat (last_nonce s') = unat (last_nonce s) + length ms"
  using assms
proof (induction ms arbitrary: s)
  case Nil
  then show ?case by (simp add: ret_def)
next
  case (Cons m ms)
  obtain w t p where m: "m = (w, t, p)" by (cases m) auto
  from Cons.prems m obtain n u where n: "submit w t p s = Ok n u"
    and rest: "for_each (\<lambda>(w, t, p). bind (submit w t p) (\<lambda>_. ret ())) ms u = Ok () s'"
    by (auto simp: op_inv)
  from Cons.IH [OF rest] obtain ns where ns:
    "pending s' = pending u @ map (\<lambda>(n, w, t, p). (n, t, p)) (zip ns ms)"
    "length ns = length ms"
    "map unat ns = [Suc (unat (last_nonce u)) ..< Suc (unat (last_nonce u)) + length ms]"
    "unat (last_nonce s') = unat (last_nonce u) + length ms" by blast
  from n have u: "last_nonce u = n" "unat n = Suc (unat (last_nonce s))"
      "pending u = pending s @ [(n, t, p)]"
    by (auto dest: submit_last submit_next submit_pending)
  show ?case
    using ns u m by (intro exI [of _ "n # ns"]) (auto simp: upt_conv_Cons)
qed

end

section \<open>\<open>LposInterface\<close>\<close>

text \<open>
  The stakes of distinct validators never add up to more than the total stake of the active era.
  The caller decides with a two-thirds majority of stake; two such majorities share validators.
\<close>

definition stake_sum :: "('a \<Rightarrow> u128) \<Rightarrow> 'a list \<Rightarrow> nat" where
  "stake_sum stake vs = sum_list (map (\<lambda>v. unat (stake v)) vs)"

locale lpos_interface =
  fixes active_stake_of :: "'s \<Rightarrow> 'a \<Rightarrow> u128"
    and active_total_stake :: "'s \<Rightarrow> u128 option"
    and stakes_ok :: "'s \<Rightarrow> bool"
  assumes stakes_bounded:
    "stakes_ok s \<Longrightarrow> active_total_stake s = Some tot \<Longrightarrow> distinct vs \<Longrightarrow>
     stake_sum (active_stake_of s) vs \<le> unat tot"
begin

lemma quorums_intersect:
  assumes ok: "stakes_ok s" and tot: "active_total_stake s = Some tot"
    and dist: "distinct xs" "distinct ys"
    and quorum: "3 * stake_sum (active_stake_of s) xs > 2 * unat tot"
      "3 * stake_sum (active_stake_of s) ys > 2 * unat tot"
  shows "3 * stake_sum (active_stake_of s) (filter (\<lambda>v. v \<in> set ys) xs) > unat tot"
proof -
  let ?f = "\<lambda>v. unat (active_stake_of s v)"
  have sum_set: "stake_sum (active_stake_of s) zs = sum ?f (set zs)" if "distinct zs" for zs
    using that by (simp add: stake_sum_def sum_list_distinct_conv_sum_set)
  have "sum ?f (set xs \<union> set ys) \<le> unat tot"
  proof -
    obtain zs where zs: "distinct zs" "set zs = set xs \<union> set ys"
      using finite_distinct_list [of "set xs \<union> set ys"] by auto
    show ?thesis using stakes_bounded [OF ok tot zs(1)] sum_set [OF zs(1)] zs(2) by simp
  qed
  moreover have "sum ?f (set xs \<union> set ys) + sum ?f (set xs \<inter> set ys) = sum ?f (set xs) + sum ?f (set ys)"
    by (simp add: sum.union_inter)
  moreover have "sum ?f (set xs \<inter> set ys)
      = stake_sum (active_stake_of s) (filter (\<lambda>v. v \<in> set ys) xs)"
    using dist sum_set [of "filter (\<lambda>v. v \<in> set ys) xs"] by (simp add: Int_def)
  ultimately show ?thesis
    using quorum sum_set [OF dist(1)] sum_set [OF dist(2)] by linarith
qed

lemma quorums_share_a_validator:
  assumes "stakes_ok s" "active_total_stake s = Some tot" "distinct xs" "distinct ys"
    and "3 * stake_sum (active_stake_of s) xs > 2 * unat tot"
      "3 * stake_sum (active_stake_of s) ys > 2 * unat tot"
  shows "\<exists>v. v \<in> set xs \<and> v \<in> set ys"
proof (rule ccontr)
  assume none: "\<nexists>v. v \<in> set xs \<and> v \<in> set ys"
  then have "filter (\<lambda>v. v \<in> set ys) xs = []" by (auto simp: filter_empty_conv)
  then show False
    using quorums_intersect [OF assms] by (simp add: stake_sum_def)
qed

end

section \<open>\<open>BridgeInterface\<close>\<close>

text \<open>
  The bridge calls, which the appchain pallet makes for an accepted observation, do not write the
  storage of their caller (\<open>caller_view\<close>), whether they succeed or fail.
\<close>

locale bridge_interface =
  fixes unlock :: "bytes \<Rightarrow> 'a \<Rightarrow> u128 \<Rightarrow> u32 \<Rightarrow> ('s, 'e, unit) op"
    and mint_nep141 :: "bytes \<Rightarrow> bytes \<Rightarrow> 'a \<Rightarrow> u128 \<Rightarrow> u32 \<Rightarrow> ('s, 'e, unit) op"
    and unlock_nonfungible :: "u128 \<Rightarrow> u128 \<Rightarrow> bytes \<Rightarrow> 'a \<Rightarrow> u32 \<Rightarrow> ('s, 'e, unit) op"
    and caller_view :: "'s \<Rightarrow> 'v"
  assumes unlock_frame: "preserves (\<lambda>s. caller_view s = v) (unlock sender r a n)"
    and mint_frame: "preserves (\<lambda>s. caller_view s = v) (mint_nep141 t sender r a n)"
    and unlock_nft_frame: "preserves (\<lambda>s. caller_view s = v) (unlock_nonfungible c i sender r n)"
begin

lemma frame_invariant:
  assumes "\<And>v. preserves (\<lambda>s. caller_view s = v) m"
  shows "preserves (\<lambda>s. P (caller_view s)) m"
  using assms by (rule preserves_frame)

lemmas caller_invariants = unlock_frame [THEN frame_invariant] mint_frame [THEN frame_invariant]
  unlock_nft_frame [THEN frame_invariant]

end

section \<open>\<open>TokenIdAndAssetIdProvider\<close>\<close>

text \<open>
  In a well-formed store the two lookups are inverse to each other, so what is burned as an asset
  and what is minted for its token id is the same asset.
\<close>

locale token_id_and_asset_id_provider =
  fixes try_get_asset_id :: "'s \<Rightarrow> bytes \<Rightarrow> 'e + 'i"
    and try_get_token_id :: "'s \<Rightarrow> 'i \<Rightarrow> 'e + bytes"
    and well_formed :: "'s \<Rightarrow> bool"
  assumes inverse: "well_formed s \<Longrightarrow> try_get_asset_id s t = Inr i \<longleftrightarrow> try_get_token_id s i = Inr t"
begin

lemma asset_of_token_of_asset: "well_formed s \<Longrightarrow> try_get_token_id s i = Inr t \<Longrightarrow> try_get_asset_id s t = Inr i"
  by (simp add: inverse)

lemma token_of_asset_of_token: "well_formed s \<Longrightarrow> try_get_asset_id s t = Inr i \<Longrightarrow> try_get_token_id s i = Inr t"
  by (simp add: inverse)

lemma asset_id_inj:
  "well_formed s \<Longrightarrow> try_get_asset_id s t = Inr i \<Longrightarrow> try_get_asset_id s t' = Inr i \<Longrightarrow> t = t'"
  using inverse [of s t i] inverse [of s t' i] by simp

end

end
