(* ===== verification/Appchain_Data.thy ===== *)
theory Appchain_Data
  imports Support
begin

text \<open>
  The data of the pallet \<open>appchain\<close>: the observations of \<open>appchain/src/types.rs\<close>, and the
  storage, events and errors of \<open>appchain/src/lib.rs\<close>.
\<close>

section \<open>Observations\<close>

record 'a validator =
  validator_id_in_appchain :: 'a
  validator_total_stake :: u128

record 'a validator_set =
  set_id :: u32
  validators :: "'a validator list"

record 'a burn_event =
  be_index :: u32
  be_sender_id :: bytes
  be_receiver :: 'a
  be_amount :: u128

record 'a lock_asset_event =
  la_index :: u32
  la_token_id :: bytes
  la_sender_id :: bytes
  la_receiver :: 'a
  la_amount :: u128

record 'a burn_nft_event =
  bn_index :: u32
  bn_sender_id :: bytes
  bn_receiver :: 'a
  bn_collection :: u128
  bn_item :: u128

datatype 'a appchain_notification =
    LockAssetNotification "'a lock_asset_event"
  | BurnNotification "'a burn_event"
  | BurnNftNotification "'a burn_nft_event"

record 'a appchain_notification_history =
  appchain_notification :: "'a appchain_notification"
  history_index :: u32

datatype notification_result = Success | UnlockFailed | AssetMintFailed | AssetGetFailed | NftUnlockFailed

datatype 'a observation =
    UpdateValidatorSet "'a validator_set"
  | LockAsset "'a lock_asset_event"
  | Burn "'a burn_event"
  | BurnNft "'a burn_nft_event"

datatype observation_type = UpdateValidatorSetType | BurnType | LockAssetType | BurnNftType

fun get_observation_type :: "'a observation \<Rightarrow> observation_type" where
  "get_observation_type (UpdateValidatorSet _) = UpdateValidatorSetType"
| "get_observation_type (Burn _) = BurnType"
| "get_observation_type (LockAsset _) = LockAssetType"
| "get_observation_type (BurnNft _) = BurnNftType"

fun observation_index :: "'a observation \<Rightarrow> u32" where
  "observation_index (UpdateValidatorSet vs) = set_id vs"
| "observation_index (LockAsset e) = la_index e"
| "observation_index (Burn e) = be_index e"
| "observation_index (BurnNft e) = bn_index e"

text \<open>The observation types are finitely many, so statements over all of them evaluate.\<close>

instantiation observation_type :: enum
begin

definition "enum_observation_type = [UpdateValidatorSetType, BurnType, LockAssetType, BurnNftType]"

definition "enum_all_observation_type P \<longleftrightarrow>
  P UpdateValidatorSetType \<and> P BurnType \<and> P LockAssetType \<and> P BurnNftType"

definition "enum_ex_observation_type P \<longleftrightarrow>
  P UpdateValidatorSetType \<or> P BurnType \<or> P LockAssetType \<or> P BurnNftType"

lemma UNIV_observation_type:
  "UNIV = {UpdateValidatorSetType, BurnType, LockAssetType, BurnNftType}"
  using observation_type.exhaust by blast

instance
  by standard (auto simp: enum_observation_type_def enum_all_observation_type_def
      enum_ex_observation_type_def UNIV_observation_type)

end

text \<open>What an offchain worker signs and submits. \<open>'p\<close> is the public key type.\<close>

record ('p, 'a) observations_payload =
  payload_public :: 'p
  payload_key_data :: bytes
  payload_block_number :: u32
  payload_observations :: "'a observation list"

section \<open>Events, errors, storage\<close>

datatype 'a appchain_event =
    NewPlannedValidators u32 "('a \<times> u128) list"
  | UnlockFailedEvent bytes 'a u128 u32
  | MintNep141Failed bytes bytes 'a u128 u32
  | UnlockNonfungibleFailed u128 u128 bytes 'a u32

datatype appchain_error =
    WrongSetId | InvalidNotificationId | NotValidator | NextNotificationIdOverflow
  | InvalidActiveTotalStake | AppchainNotActivated | AppchainInvalidReceiverId
  | NextSetIdOverflow | ObservationsExceededLimit

record 'a appchain_state =
  anchor_contract :: bytes
  is_activated :: bool
  next_set_id :: u32
  planned_validators :: "('a \<times> u128) list"
  next_notification_id :: u32
  observations :: "observation_type \<Rightarrow> u32 \<Rightarrow> 'a observation list"
  observing :: "'a observation \<Rightarrow> 'a list"
  notification_history :: "u32 \<Rightarrow> notification_result option"
  git_version :: bytes

text \<open>\<open>type MaxObservations = ConstU32<100>\<close>.\<close>

definition max_observations :: u32 where
  "max_observations = 100"

end
