(* ===== verification/Mainchain.thy ===== *)
theory Mainchain
  imports Text Appchain_Data
begin

text \<open>
  The requests of the offchain worker to the mainchain (\<open>appchain/src/mainchain.rs\<close>) and the
  decoding of the answers (\<open>appchain/src/types.rs\<close>). The HTTP client, the JSON library with the
  derived \<open>Deserialize\<close> code, base64, hex and the decoding of an account id are outside code:
  fields of \<open>mainchain_host\<close>. Everything between them is modelled: the request that is built, the
  checks on the way, the two decoders the source attaches to fields, and the observations.
\<close>

section \<open>Requests and answers\<close>

record response_result =
  rr_result :: bytes
  rr_logs :: "rust_string list"
  rr_block_height :: u64
  rr_block_hash :: rust_string

record response =
  response_jsonrpc :: rust_string
  response_result :: response_result
  response_id :: rust_string

record rpc_params =
  request_type :: rust_string
  finality :: rust_string
  account_id :: rust_string
  method_name :: rust_string
  args_base64 :: rust_string

record http_body =
  body_jsonrpc :: rust_string
  body_id :: rust_string
  body_method :: rust_string
  body_params :: rpc_params

definition default_response_result :: response_result where
  "default_response_result = \<lparr>rr_result = [], rr_logs = [], rr_block_height = 0, rr_block_hash = []\<rparr>"

definition default_response :: response where
  "default_response =
     \<lparr>response_jsonrpc = [], response_result = default_response_result, response_id = []\<rparr>"

definition default_params :: rpc_params where
  "default_params =
     \<lparr>request_type = [], finality = [], account_id = [], method_name = [], args_base64 = []\<rparr>"

definition default_http_body :: http_body where
  "default_http_body = \<lparr>body_jsonrpc = [], body_id = [], body_method = [], body_params = default_params\<rparr>"

text \<open>The builders; \<open>impl Into\<close> conversions are applied by the caller.\<close>

definition with_response_jsonrpc :: "rust_string \<Rightarrow> response \<Rightarrow> response" where
  "with_response_jsonrpc v r = r\<lparr>response_jsonrpc := v\<rparr>"

definition with_response_result :: "response_result \<Rightarrow> response \<Rightarrow> response" where
  "with_response_result v r = r\<lparr>response_result := v\<rparr>"

definition with_response_id :: "rust_string \<Rightarrow> response \<Rightarrow> response" where
  "with_response_id v r = r\<lparr>response_id := v\<rparr>"

definition with_result :: "bytes \<Rightarrow> response_result \<Rightarrow> response_result" where
  "with_result v r = r\<lparr>rr_result := v\<rparr>"

definition with_logs :: "rust_string list \<Rightarrow> response_result \<Rightarrow> response_result" where
  "with_logs v r = r\<lparr>rr_logs := v\<rparr>"

definition with_block_height :: "u64 \<Rightarrow> response_result \<Rightarrow> response_result" where
  "with_block_height v r = r\<lparr>rr_block_height := v\<rparr>"

definition with_block_hash :: "rust_string \<Rightarrow> response_result \<Rightarrow> response_result" where
  "with_block_hash v r = r\<lparr>rr_block_hash := v\<rparr>"

definition with_jsonrpc :: "rust_string \<Rightarrow> http_body \<Rightarrow> http_body" where
  "with_jsonrpc v b = b\<lparr>body_jsonrpc := v\<rparr>"

definition with_id :: "rust_string \<Rightarrow> http_body \<Rightarrow> http_body" where
  "with_id v b = b\<lparr>body_id := v\<rparr>"

definition with_method :: "rust_string \<Rightarrow> http_body \<Rightarrow> http_body" where
  "with_method v b = b\<lparr>body_method := v\<rparr>"

definition with_params :: "rpc_params \<Rightarrow> http_body \<Rightarrow> http_body" where
  "with_params v b = b\<lparr>body_params := v\<rparr>"

definition with_request_type :: "rust_string \<Rightarrow> rpc_params \<Rightarrow> rpc_params" where
  "with_request_type v p = p\<lparr>request_type := v\<rparr>"

definition with_finality :: "rust_string \<Rightarrow> rpc_params \<Rightarrow> rpc_params" where
  "with_finality v p = p\<lparr>finality := v\<rparr>"

definition with_account_id :: "rust_string \<Rightarrow> rpc_params \<Rightarrow> rpc_params" where
  "with_account_id v p = p\<lparr>account_id := v\<rparr>"

definition with_method_name :: "rust_string \<Rightarrow> rpc_params \<Rightarrow> rpc_params" where
  "with_method_name v p = p\<lparr>method_name := v\<rparr>"

definition with_args_base64 :: "rust_string \<Rightarrow> rpc_params \<Rightarrow> rpc_params" where
  "with_args_base64 v p = p\<lparr>args_base64 := v\<rparr>"

lemmas builder_defs = with_jsonrpc_def with_id_def with_method_def with_params_def with_request_type_def
  with_finality_def with_account_id_def with_method_name_def with_args_base64_def default_params_def
  default_http_body_def

section \<open>The HTTP client\<close>

text \<open>The part of \<open>sp_runtime::offchain::http\<close> the code names.\<close>

datatype http_error = DeadlineReached | IoError | UnknownError

datatype http_method = Post

record http_request =
  request_method :: http_method
  request_url :: rust_string
  request_body :: "bytes list"
  request_header :: "rust_string \<times> rust_string"

record http_response =
  response_code :: u16
  response_body :: bytes

section \<open>Decoding\<close>

text \<open>
  What the derived \<open>Deserialize\<close> code hands to the decoders of the source: the items with the fields
  that have a decoder still in text. A document is read item by item, so the outside reader gives
  the items up to the end or the first error and tells which of the two it met.
\<close>

record raw_validator =
  raw_validator_id :: rust_string
  raw_total_stake :: rust_string

datatype raw_notification =
    RawLockAsset (raw_index: u32) (raw_token_id: bytes) (raw_sender_id: bytes) (raw_receiver: rust_string)
      (raw_amount: rust_string)
  | RawBurn (raw_index: u32) (raw_sender_id: bytes) (raw_receiver: rust_string) (raw_amount: rust_string)
  | RawBurnNft (raw_index: u32) (raw_sender_id: bytes) (raw_receiver: rust_string)
      (raw_class_id: rust_string) (raw_item_id: rust_string)

record raw_history =
  raw_notification :: raw_notification
  raw_history_index :: rust_string

type_synonym 'r document = "'r list \<times> bool"

text \<open>A decoder gives a value, rejects the text or panics.\<close>

datatype 'v parsed = Parsed 'v | Malformed | ParsePanic

definition parsed_bind :: "'v parsed \<Rightarrow> ('v \<Rightarrow> 'u parsed) \<Rightarrow> 'u parsed" where
  "parsed_bind p f = (case p of Parsed v \<Rightarrow> f v | Malformed \<Rightarrow> Malformed | ParsePanic \<Rightarrow> ParsePanic)"

lemma parsed_bind_simps [simp]:
  "parsed_bind (Parsed v) f = f v" "parsed_bind Malformed f = Malformed" "parsed_bind ParsePanic f = ParsePanic"
  by (simp_all add: parsed_bind_def)

lemma parsed_bind_Parsed_iff: "parsed_bind p f = Parsed v \<longleftrightarrow> (\<exists>u. p = Parsed u \<and> f u = Parsed v)"
  by (cases p) auto

lemma parsed_bind_Panic_iff:
  "parsed_bind p f = ParsePanic \<longleftrightarrow> p = ParsePanic \<or> (\<exists>u. p = Parsed u \<and> f u = ParsePanic)"
  by (cases p) auto

text \<open>What the worker uses of its host; \<open>'w\<close> is the state of the host. \<open>deadline_in\<close> is the timestamp plus milliseconds.\<close>

record ('a, 'w) mainchain_host =
  deadline_in :: "u64 \<Rightarrow> 'w \<Rightarrow> u64"
  http_send :: "http_request \<Rightarrow> u64 \<Rightarrow> ('w, unit, nat) op"
  http_try_wait :: "nat \<Rightarrow> u64 \<Rightarrow> ('w, unit, http_error + http_response) op"
  json_of_body :: "http_body \<Rightarrow> rust_string option"
  json_response :: "bytes \<Rightarrow> response option"
  json_validators :: "bytes \<Rightarrow> raw_validator document"
  json_notifications :: "bytes \<Rightarrow> raw_history document"
  base64_encode :: "rust_string \<Rightarrow> rust_string"
  hex_decode :: "rust_string \<Rightarrow> bytes option"
  account_decode :: "bytes \<Rightarrow> 'a option"

text \<open>\<open>&s[2..]\<close>; \<open>None\<close> is the panic of a slice that starts outside the string or inside a character.\<close>

definition slice_from_2 :: "rust_string \<Rightarrow> rust_string option" where
  "slice_from_2 s =
     (case s of
        a # b # rest \<Rightarrow> if rest \<noteq> [] \<and> continuation_byte (hd rest) then None else Some rest
      | _ \<Rightarrow> None)"

definition account_deserialize_from_hex_str :: "('a, 'w) mainchain_host \<Rightarrow> rust_string \<Rightarrow> 'a parsed" where
  "account_deserialize_from_hex_str h account_id_str =
     (case slice_from_2 account_id_str of None \<Rightarrow> ParsePanic
      | Some hex \<Rightarrow> (case hex_decode h hex of None \<Rightarrow> Malformed
        | Some account_id_hex \<Rightarrow> (case account_decode h account_id_hex of None \<Rightarrow> Malformed
          | Some who \<Rightarrow> Parsed who)))"

definition deserialize_from_str :: "rust_string \<Rightarrow> 'w::len word parsed" where
  "deserialize_from_str s = (case parse_unsigned s of Some n \<Rightarrow> Parsed n | None \<Rightarrow> Malformed)"

definition deserialize_validator :: "('a, 'w) mainchain_host \<Rightarrow> raw_validator \<Rightarrow> 'a validator parsed" where
  "deserialize_validator h r =
     parsed_bind (account_deserialize_from_hex_str h (raw_validator_id r)) (\<lambda>who.
     parsed_bind (deserialize_from_str (raw_total_stake r)) (\<lambda>stake.
     Parsed \<lparr>validator_id_in_appchain = who, validator_total_stake = stake\<rparr>))"

fun deserialize_notification :: "('a, 'w) mainchain_host \<Rightarrow> raw_notification \<Rightarrow> 'a appchain_notification parsed" where
  "deserialize_notification h (RawLockAsset i t sender receiver amount) =
     parsed_bind (account_deserialize_from_hex_str h receiver) (\<lambda>who.
     parsed_bind (deserialize_from_str amount) (\<lambda>n.
     Parsed (LockAssetNotification
       \<lparr>la_index = i, la_token_id = t, la_sender_id = sender, la_receiver = who, la_amount = n\<rparr>)))"
| "deserialize_notification h (RawBurn i sender receiver amount) =
     parsed_bind (account_deserialize_from_hex_str h receiver) (\<lambda>who.
     parsed_bind (deserialize_from_str amount) (\<lambda>n.
     Parsed (BurnNotification \<lparr>be_index = i, be_sender_id = sender, be_receiver = who, be_amount = n\<rparr>)))"
| "deserialize_notification h (RawBurnNft i sender receiver class item) =
     parsed_bind (account_deserialize_from_hex_str h receiver) (\<lambda>who.
     parsed_bind (deserialize_from_str class) (\<lambda>col.
     parsed_bind (deserialize_from_str item) (\<lambda>it.
     Parsed (BurnNftNotification
       \<lparr>bn_index = i, bn_sender_id = sender, bn_receiver = who, bn_collection = col, bn_item = it\<rparr>))))"

definition deserialize_history :: "('a, 'w) mainchain_host \<Rightarrow> raw_history \<Rightarrow> 'a appchain_notification_history parsed" where
  "deserialize_history h r =
     parsed_bind (deserialize_notification h (raw_notification r)) (\<lambda>n.
     parsed_bind (deserialize_from_str (raw_history_index r)) (\<lambda>i.
     Parsed \<lparr>appchain_notification = n, history_index = i\<rparr>))"

fun deserialize_items :: "('r \<Rightarrow> 'v parsed) \<Rightarrow> 'r document \<Rightarrow> 'v list parsed" where
  "deserialize_items f ([], complete) = (if complete then Parsed [] else Malformed)"
| "deserialize_items f (r # rs, complete) =
     parsed_bind (f r) (\<lambda>v. parsed_bind (deserialize_items f (rs, complete)) (\<lambda>vs. Parsed (v # vs)))"

text \<open>\<open>serde_json::from_slice(..).map_err(|_| e)?\<close>.\<close>

definition parsed_or :: "'v parsed \<Rightarrow> 'e \<Rightarrow> ('s, 'e, 'v) op" where
  "parsed_or p e = (case p of Parsed v \<Rightarrow> ret v | Malformed \<Rightarrow> fail e | ParsePanic \<Rightarrow> panic)"

lemma parsed_or_iff [op_inv]:
  "parsed_or p e s = Ok v t \<longleftrightarrow> p = Parsed v \<and> t = s"
  "parsed_or p e s = Err d t \<longleftrightarrow> p = Malformed \<and> d = e \<and> t = s"
  "parsed_or p e s = Panic \<longleftrightarrow> p = ParsePanic"
  by (auto simp: parsed_or_def ret_def fail_def panic_def split: parsed.splits)

section \<open>Queries\<close>

definition encode_get_validator_args :: "('a, 'w) mainchain_host \<Rightarrow> u32 \<Rightarrow> rust_string" where
  "encode_get_validator_args h era =
     (let a = str_bytes ''{\"era_number\":\"''; b = str_bytes ''\"}''
      in base64_encode h (a @ to_decimal era @ b))"

definition encode_get_notification_args :: "('a, 'w) mainchain_host \<Rightarrow> u32 \<Rightarrow> u32 \<Rightarrow> rust_string" where
  "encode_get_notification_args h start limit =
     (let a = str_bytes ''{\"start_index\":\"''; b = str_bytes ''\",\"quantity\":\"''; c = str_bytes ''\"}''
      in base64_encode h (a @ to_decimal start @ b @ to_decimal limit @ c))"

text \<open>The body of a call of a view function of the anchor contract.\<close>

definition query_body :: "rust_string \<Rightarrow> string \<Rightarrow> rust_string \<Rightarrow> http_body" where
  "query_body contract method args =
     with_params
       (with_args_base64 args (with_method_name (str_bytes method) (with_account_id contract
         (with_finality (str_bytes ''final'') (with_request_type (str_bytes ''call_function'') default_params)))))
       (with_method (str_bytes ''query'') (with_id (str_bytes ''dontcare'')
         (with_jsonrpc (str_bytes ''2.0'') default_http_body)))"

text \<open>
  The part the two queries have in common, from the deadline to the decoded answer; each function of
  the source spells it out.
\<close>

definition query_mainchain :: "('a, 'w) mainchain_host \<Rightarrow> rust_string \<Rightarrow> bytes \<Rightarrow> string \<Rightarrow> rust_string
    \<Rightarrow> ('w, http_error, response) op" where
  "query_mainchain h rpc_endpoint anchor method args =
     bind (gets (deadline_in h 2000)) (\<lambda>deadline.
     bind (ok_or (from_utf8 anchor) UnknownError) (\<lambda>contract.
     bind (ok_or (json_of_body h (query_body contract method args)) UnknownError) (\<lambda>body.
     (let request = \<lparr>request_method = Post, request_url = rpc_endpoint, request_body = [body],
                      request_header = (str_bytes ''Content-Type'', str_bytes ''application/json'')\<rparr> in
      bind (map_err (\<lambda>_. IoError) (http_send h request deadline)) (\<lambda>pending.
      bind (map_err (\<lambda>_. DeadlineReached) (http_try_wait h pending deadline)) (\<lambda>waited.
      bind (case waited of Inr r \<Rightarrow> ret r | Inl e \<Rightarrow> fail e) (\<lambda>answer.
      if response_code answer \<noteq> 200 then fail UnknownError
      else ok_or (json_response h (response_body answer)) UnknownError)))))))"

definition get_validator_list_of :: "('a, 'w) mainchain_host \<Rightarrow> rust_string \<Rightarrow> bytes \<Rightarrow> u32
    \<Rightarrow> ('w, http_error, 'a observation list) op" where
  "get_validator_list_of h rpc_endpoint anchor i =
     bind (query_mainchain h rpc_endpoint anchor ''get_validator_list_of'' (encode_get_validator_args h i))
       (\<lambda>json.
     bind (parsed_or (deserialize_items (deserialize_validator h)
             (json_validators h (rr_result (response_result json)))) UnknownError) (\<lambda>vs.
     ret (if length vs > 0 then [UpdateValidatorSet \<lparr>set_id = i, validators = vs\<rparr>] else [])))"

text \<open>One iteration of the loop over the histories: the index of the history replaces the one of the event.\<close>

fun observation_of_history :: "'a appchain_notification_history \<Rightarrow> 'a observation" where
  "observation_of_history n =
     (case appchain_notification n of
        BurnNotification e \<Rightarrow> Burn (e\<lparr>be_index := history_index n\<rparr>)
      | LockAssetNotification e \<Rightarrow> LockAsset (e\<lparr>la_index := history_index n\<rparr>)
      | BurnNftNotification e \<Rightarrow> BurnNft (e\<lparr>bn_index := history_index n\<rparr>))"

definition get_appchain_notification_histories :: "('a, 'w) mainchain_host \<Rightarrow> rust_string \<Rightarrow> bytes \<Rightarrow> u32 \<Rightarrow> u32
    \<Rightarrow> ('w, http_error, 'a observation list) op" where
  "get_appchain_notification_histories h rpc_endpoint anchor start limit =
     bind (query_mainchain h rpc_endpoint anchor ''get_appchain_notification_histories''
             (encode_get_notification_args h start limit)) (\<lambda>json.
     bind (parsed_or (deserialize_items (deserialize_history h)
             (json_notifications h (rr_result (response_result json)))) UnknownError) (\<lambda>notifications.
     ret (map observation_of_history notifications)))"

end
