(* ===== verification/Upward_Data.thy ===== *)
theory Upward_Data
  imports Support
begin

text \<open>
  The data of the pallet \<open>upward-messages\<close> (\<open>upward-messages/src/lib.rs\<close>): its message, storage,
  events, errors and the constants and types it is configured with.
\<close>

record message =
  msg_nonce :: u64
  msg_payload_type :: payload_type
  msg_payload :: bytes

datatype um_event = MessageAccepted u64 | Committed bytes "message list"

datatype um_error = PayloadTooLarge | QueueSizeLimitReached | NonceOverflow

text \<open>The storage: the block interval between commitments, the queue, the last nonce.\<close>

record um_state =
  interval :: u32
  message_queue :: "message list"
  nonce :: u64
  um_storage_version :: u16

text \<open>The value of \<open>STORAGE_VERSION\<close>.\<close>

definition um_current_storage_version :: u16 where
  "um_current_storage_version = 1"

text \<open>A \<open>Weight\<close> is read as its \<open>ref_time\<close>.\<close>

type_synonym weight = u64

text \<open>
  \<open>trait Config\<close>. The SCALE encoding of the queue and the hash are library code, and the weights
  are generated code: parameters.
\<close>

record um_config =
  max_message_payload_size :: u32
  max_messages_per_commit :: u32
  encode_messages :: "message list \<Rightarrow> bytes"
  hash_bytes :: "bytes \<Rightarrow> bytes"
  weight_on_initialize :: "u32 \<Rightarrow> u32 \<Rightarrow> weight"
  weight_on_initialize_non_interval :: weight
  weight_on_initialize_no_messages :: weight

end
