(* ===== verification/Lpos_Data.thy ===== *)
theory Lpos_Data
  imports Support
begin

text \<open>
  The data of the pallet \<open>lpos\<close> (\<open>lpos/src/lib.rs\<close>): eras, reward points, storage, events and
  errors.
\<close>

type_synonym era_index = u32
type_synonym session_index = u32
type_synonym reward_point = u32
type_synonym kind = bytes

record active_era_info =
  era_number :: era_index
  era_set_id :: u32
  era_start :: "u64 option"

record 'a era_reward_points =
  points_total :: reward_point
  points_individual :: "('a \<times> reward_point) list"

text \<open>\<open>EraRewardPoints::default()\<close>.\<close>

definition default_era_reward_points :: "'a era_reward_points" where
  "default_era_reward_points = \<lparr>points_total = 0, points_individual = []\<rparr>"

datatype 'a lpos_event =
    PlanNewEraEvent u32
  | PlanNewEraFailed
  | TriggerNewEra
  | EraPayoutEvent era_index "'a list"
  | EraPayoutFailed era_index
  | OldSlashingReportDiscarded session_index

datatype lpos_error =
    NotController | NotStash | AlreadyBonded | AlreadyPaired | EmptyTargets | DuplicateIndex
  | InvalidSlashIndex | InsufficientBond | NoMoreChunks | NoUnlockChunk | FundedTarget
  | InvalidEraToReward | InvalidNumberOfNominations | NotSortedAndUnique | AlreadyClaimed
  | IncorrectHistoryDepth | IncorrectSlashingSpans | BadState | TooManyTargets | BadTarget
  | CannotChillOther | TooManyNominators | TooManyValidators | NoClaimedRewards
  | LposAmountOverflow | LposBorshSerializeFailed

text \<open>
  The storage. A map with a default (\<open>ValueQuery\<close>) is a total function; the maps the code iterates
  over (the stakers of an era, the offenders) are association lists with distinct keys.
\<close>

record 'a lpos_state =
  history_depth :: u32
  current_era :: "era_index option"
  active_era :: "active_era_info option"
  eras_start_session_index :: "era_index \<rightharpoonup> session_index"
  eras_stakers :: "era_index \<Rightarrow> ('a \<times> u128) list"
  eras_validator_reward :: "era_index \<rightharpoonup> u128"
  eras_reward_points :: "era_index \<Rightarrow> 'a era_reward_points"
  eras_total_stake :: "era_index \<Rightarrow> u128"
  bonded_eras :: "(era_index \<times> session_index) list"
  current_planned_session :: session_index
  era_payout :: u128
  offenders :: "((kind \<times> 'a) \<times> u32) list"

text \<open>The getter \<open>eras_stakers(era, who)\<close>: 0 where nothing is stored.\<close>

definition eras_stakers_get :: "'a lpos_state \<Rightarrow> era_index \<Rightarrow> 'a \<Rightarrow> u128" where
  "eras_stakers_get l era who =
     (case map_of (eras_stakers l era) who of Some v \<Rightarrow> v | None \<Rightarrow> 0)"

end
