(* ===== verification/Bridge_Data.thy ===== *)
theory Bridge_Data
  imports Support
begin

text \<open>
  The data of the pallet \<open>bridge\<close> (\<open>bridge/src/lib.rs\<close>): transfer kinds, storage, events and
  errors. \<open>'b\<close> is the type of the native \<open>Balance\<close>.
\<close>

type_synonym asset_id = u32

datatype cross_chain_transfer_type = Fungible | Nonfungible

datatype ('a, 'b) bridge_event =
    Locked 'a bytes 'b 'b u64
  | Unlocked bytes 'a 'b u32
  | Nep141Minted asset_id bytes 'a u128 u32
  | Nep141Burned asset_id 'a bytes u128 'b u64
  | NonfungibleLocked u128 u128 'a bytes 'b u64
  | NonfungibleUnlocked u128 u128 bytes 'a u32
  | ForceUnlocked 'a 'b
  | ForceNep141Minted asset_id 'a u128
  | ForceNonfungibleUnlocked u128 u128 'a
  | OracleAccountHasBeenSet 'a
  | PriceUpdated 'a u64 u64
  | CoefUpdated u32

datatype bridge_error =
    AmountOverflow | CollectionOverflow | ItemOverflow | NoTokenId | NoAssetId | NotActivated
  | InvalidReceiverId | InvalidTokenId | TokenIdInUse | AssetIdInUse | TokenIdNotExist
  | ConvertorNotImplement | NoOracleAccount | NearPriceSetedIsZero | NativeTokenPriceSetedIsZero
  | UpdatePriceWithNoPermissionAccount | NotEnoughBalanceForDeductionFee | InvalidCoef
  | InvalidFeeMakeOverflow | BorshSerializeFailed

text \<open>
  The storage. \<open>CrosschainTransferFee\<close> is a map with \<open>OptionQuery\<close> whose values are themselves
  optional, as in the code.
\<close>

record ('a, 'b) bridge_state =
  asset_id_by_token_id :: "(bytes \<times> asset_id) list"
  oracle_account :: "'a option"
  crosschain_transfer_fee :: "cross_chain_transfer_type \<rightharpoonup> 'b option"
  token_price :: "u64 option"
  near_price :: "u64 option"
  coef :: u32
  bridge_storage_version :: u16

text \<open>The values of \<open>STORAGE_VERSION\<close> and \<open>DefaultForCoef\<close>.\<close>

definition bridge_current_storage_version :: u16 where
  "bridge_current_storage_version = 1"

definition default_for_coef :: u32 where
  "default_for_coef = 3"

datatype existence_requirement = AllowDeath | KeepAlive

end
