(* ===== verification/Runtime.thy ===== *)
theory Runtime
  imports Upward_Data Lpos_Data Bridge_Data Appchain_Data
begin

text \<open>
  The runtime the pallets run in: its storage is the storage of the four pallets, the parts of
  \<open>frame_system\<close> they write, and the state \<open>ext\<close> of the pallets outside this repository (balances,
  assets, uniques, session, timestamp). The record \<open>config\<close> collects the associated types and
  constants of the pallets' \<open>Config\<close> traits: the functions of outside code are its fields.
  \<open>'a\<close> is the account id, \<open>'b\<close> the type of the native balance, \<open>'x\<close> the outside state.
\<close>

section \<open>Errors, events, storage\<close>

datatype dispatch_error =
    BadOrigin
  | CannotLookup
  | Other string
  | OutsideError nat
  | UmError um_error
  | LposError lpos_error
  | BridgeError bridge_error
  | AppchainError appchain_error

datatype ('a, 'b) runtime_event =
    UmEvent um_event
  | LposEvent "'a lpos_event"
  | BridgeEvent "('a, 'b) bridge_event"
  | AppchainEvent "'a appchain_event"

datatype 'a origin = Root | Signed 'a | NoOrigin

text \<open>
  \<open>events\<close>, \<open>digest_logs\<close> and \<open>offchain_index\<close> record the calls of \<open>deposit_event\<close>, \<open>deposit_log\<close>
  and \<open>offchain_index::set\<close>, oldest first.
\<close>

record ('a, 'b, 'x) runtime =
  events :: "('a, 'b) runtime_event list"
  digest_logs :: "bytes list"
  offchain_index :: "(bytes \<times> bytes) list"
  block_number :: u32
  um :: um_state
  lpos :: "'a lpos_state"
  bridge :: "('a, 'b) bridge_state"
  app :: "'a appchain_state"
  ext :: 'x

type_synonym ('a, 'b, 'x, 'r) call = "(('a, 'b, 'x) runtime, dispatch_error, 'r) op"

section \<open>Configuration\<close>

text \<open>
  \<open>trait Config\<close> of the bridge. \<open>token_order\<close> is the order in which the storage map
  \<open>AssetIdByTokenId\<close> is iterated. \<open>balance_into_u128\<close> and \<open>balance_from_u128\<close> are \<open>checked_into\<close>
  from and to the \<open>Balance\<close> type of the outside \<open>Currency\<close>, \<open>balance_le\<close> its order.
  \<open>legacy_asset_ids\<close> is the storage map the
  migration drains, which another pallet wrote. The \<open>AssetIdByTokenId\<close> provider is the pallet itself, as in the
  runtime of \<open>bridge/src/mock.rs\<close>; \<open>AssetId\<close>, \<open>AssetBalance\<close>, \<open>CollectionId\<close> and \<open>ItemId\<close> have
  the types they have there.
\<close>

record ('a, 'b, 'x) bridge_config =
  bridge_account :: 'a
  balance_into_u128 :: "'b \<Rightarrow> u128 option"
  balance_from_u128 :: "u128 \<Rightarrow> 'b option"
  balance_le :: "'b \<Rightarrow> 'b \<Rightarrow> bool"
  currency_transfer :: "'a \<Rightarrow> 'a \<Rightarrow> 'b \<Rightarrow> existence_requirement \<Rightarrow> ('x, dispatch_error, unit) op"
  currency_minimum_balance :: 'b
  currency_make_free_balance_be :: "'a \<Rightarrow> 'b \<Rightarrow> 'x \<Rightarrow> 'x"
  fungibles_mint_into :: "asset_id \<Rightarrow> 'a \<Rightarrow> u128 \<Rightarrow> ('x, dispatch_error, unit) op"
  fungibles_burn_from :: "asset_id \<Rightarrow> 'a \<Rightarrow> u128 \<Rightarrow> ('x, dispatch_error, u128) op"
  nonfungibles_transfer :: "u128 \<Rightarrow> u128 \<Rightarrow> 'a \<Rightarrow> ('x, dispatch_error, unit) op"
  convert_into_nep171_metadata :: "u128 \<Rightarrow> u128 \<Rightarrow> 'x \<Rightarrow> nep171_token_metadata option"
  legacy_asset_ids :: "'x \<Rightarrow> (bytes \<times> asset_id) list"
  drain_legacy_asset_ids :: "'x \<Rightarrow> 'x"
  perbill_from_rational :: "u64 \<Rightarrow> u64 \<Rightarrow> u32"
  perbill_mul :: "u32 \<Rightarrow> u32 \<Rightarrow> u32"
  perbill_add :: "u32 \<Rightarrow> u32 \<Rightarrow> u32"
  native_token_decimals :: u128
  threshold :: u64
  token_order :: "bytes list \<Rightarrow> bytes list"

text \<open>
  \<open>trait Config\<close> of lpos, with the functions of \<open>pallet_session\<close>. \<open>staker_order\<close> and
  \<open>offender_order\<close> are the orders in which \<open>ErasStakers\<close> and \<open>Offenders\<close> are iterated.
\<close>

record ('a, 'b, 'x) lpos_config =
  sessions_per_era :: u32
  bonding_duration :: u32
  lpos_account :: 'a
  currency_deposit_creating :: "'a \<Rightarrow> 'b \<Rightarrow> 'x \<Rightarrow> 'x"
  unix_time_millis :: "'x \<Rightarrow> u64"
  session_validators :: "'x \<Rightarrow> 'a list"
  session_key_owner :: "bytes \<Rightarrow> bytes \<Rightarrow> 'x \<Rightarrow> 'a option"
  session_prune_up_to :: "u32 \<Rightarrow> 'x \<Rightarrow> 'x"
  session_disable_index :: "u32 \<Rightarrow> ('x, dispatch_error, bool) op"
  validator_id_of :: "'a \<Rightarrow> 'a option"
  from_utf8_lossy_trim :: "bytes \<Rightarrow> rust_string"
  staker_order :: "'a list \<Rightarrow> 'a list"
  offender_order :: "(kind \<times> 'a) list \<Rightarrow> (kind \<times> 'a) list"

text \<open>
  \<open>trait Config\<close> of the appchain pallet. A public key and a signature are read as their encodings;
  \<open>verify_payload\<close> is \<open>SignedPayload::verify\<close>, \<open>public_into_account\<close> is \<open>IdentifyAccount::into_account\<close>.
\<close>

record 'a appchain_config =
  grace_period :: u32
  unsigned_priority :: u64
  request_event_limit :: u32
  max_validators :: u32
  verify_payload :: "(bytes, 'a) observations_payload \<Rightarrow> bytes \<Rightarrow> bool"
  public_into_account :: "bytes \<Rightarrow> 'a"

text \<open>
  The configuration of the runtime. \<open>try_to_vec\<close> is Borsh serialization, \<open>hex_encode\<close> the crate
  \<open>hex\<close>, \<open>account_encode\<close> the SCALE encoding of an account id, \<open>db_reads_writes\<close> the database weight.
\<close>

record ('a, 'b, 'x) config =
  um_cfg :: um_config
  bridge_cfg :: "('a, 'b, 'x) bridge_config"
  lpos_cfg :: "('a, 'b, 'x) lpos_config"
  app_cfg :: "'a appchain_config"
  try_to_vec :: "payload \<Rightarrow> bytes option"
  hex_encode :: "bytes \<Rightarrow> rust_string"
  account_encode :: "'a \<Rightarrow> bytes"
  db_reads_writes :: "u64 \<Rightarrow> u64 \<Rightarrow> weight"

text \<open>\<open>utils::hex_format\<close>.\<close>

definition hex_format :: "('a, 'b, 'x) config \<Rightarrow> bytes \<Rightarrow> rust_string" where
  "hex_format c data = str_bytes ''0x'' @ hex_encode c data"

section \<open>Frame primitives\<close>

definition deposit_event :: "('a, 'b) runtime_event \<Rightarrow> ('a, 'b, 'x, unit) call" where
  "deposit_event e = modify (\<lambda>s. s\<lparr>events := events s @ [e]\<rparr>)"

definition deposit_log :: "bytes \<Rightarrow> ('a, 'b, 'x, unit) call" where
  "deposit_log d = modify (\<lambda>s. s\<lparr>digest_logs := digest_logs s @ [d]\<rparr>)"

definition offchain_index_set :: "bytes \<Rightarrow> bytes \<Rightarrow> ('a, 'b, 'x, unit) call" where
  "offchain_index_set k v = modify (\<lambda>s. s\<lparr>offchain_index := offchain_index s @ [(k, v)]\<rparr>)"

text \<open>An operation of an outside pallet runs on \<open>ext\<close>.\<close>

definition on_ext :: "('x, dispatch_error, 'r) op \<Rightarrow> ('a, 'b, 'x, 'r) call" where
  "on_ext m s = (case m (ext s) of Ok r x \<Rightarrow> Ok r (s\<lparr>ext := x\<rparr>) | Err e x \<Rightarrow> Err e (s\<lparr>ext := x\<rparr>)
     | Panic \<Rightarrow> Panic)"

definition ensure_root :: "'a origin \<Rightarrow> ('a, 'b, 'x, unit) call" where
  "ensure_root org = (case org of Root \<Rightarrow> ret () | _ \<Rightarrow> fail BadOrigin)"

definition ensure_none :: "'a origin \<Rightarrow> ('a, 'b, 'x, unit) call" where
  "ensure_none org = (case org of NoOrigin \<Rightarrow> ret () | _ \<Rightarrow> fail BadOrigin)"

definition ensure_signed :: "'a origin \<Rightarrow> ('a, 'b, 'x, 'a) call" where
  "ensure_signed org = (case org of Signed who \<Rightarrow> ret who | _ \<Rightarrow> fail BadOrigin)"

text \<open>
  An account argument of a call is a \<open>StaticLookup::Source\<close>; the model takes the result of
  \<open>T::Lookup::lookup\<close> on it.
\<close>

definition lookup :: "dispatch_error + 'a \<Rightarrow> ('a, 'b, 'x, 'a) call" where
  "lookup src = (case src of Inr who \<Rightarrow> ret who | Inl e \<Rightarrow> fail e)"

text \<open>A result that is not an operation, with \<open>map_err(|_| e)?\<close>.\<close>

definition result_or :: "'d + 'r \<Rightarrow> dispatch_error \<Rightarrow> ('a, 'b, 'x, 'r) call" where
  "result_or v e = (case v of Inr r \<Rightarrow> ret r | Inl _ \<Rightarrow> fail e)"

declare result_or_def [op_simps]

lemma result_or_iff [op_inv]:
  "result_or v e s = Ok r t \<longleftrightarrow> v = Inr r \<and> t = s"
  "result_or v e s = Err d t \<longleftrightarrow> (\<exists>x. v = Inl x) \<and> d = e \<and> t = s"
  "result_or v e s \<noteq> Panic"
  by (auto simp: result_or_def ret_def fail_def split: sum.splits)

lemma preserves_result_or [preserves_rules]: "preserves P (result_or v e)"
  by (auto intro!: preservesI simp: op_inv)

declare deposit_event_def [op_simps] deposit_log_def [op_simps] offchain_index_set_def [op_simps]
  on_ext_def [op_simps] ensure_root_def [op_simps] ensure_none_def [op_simps]
  ensure_signed_def [op_simps] lookup_def [op_simps]

lemma deposit_event_iff [op_inv]:
  "deposit_event e s = Ok y t \<longleftrightarrow> t = s\<lparr>events := events s @ [e]\<rparr>"
  "deposit_event e s \<noteq> Err d t" "deposit_event e s \<noteq> Panic"
  by (auto simp: deposit_event_def modify_def)

lemma deposit_log_iff [op_inv]:
  "deposit_log d s = Ok y t \<longleftrightarrow> t = s\<lparr>digest_logs := digest_logs s @ [d]\<rparr>"
  "deposit_log d s \<noteq> Err e t" "deposit_log d s \<noteq> Panic"
  by (auto simp: deposit_log_def modify_def)

lemma offchain_index_set_iff [op_inv]:
  "offchain_index_set k v s = Ok y t \<longleftrightarrow> t = s\<lparr>offchain_index := offchain_index s @ [(k, v)]\<rparr>"
  "offchain_index_set k v s \<noteq> Err e t" "offchain_index_set k v s \<noteq> Panic"
  by (auto simp: offchain_index_set_def modify_def)

lemma on_ext_iff [op_inv]:
  "on_ext m s = Ok r t \<longleftrightarrow> (\<exists>x. m (ext s) = Ok r x \<and> t = s\<lparr>ext := x\<rparr>)"
  "on_ext m s = Err e t \<longleftrightarrow> (\<exists>x. m (ext s) = Err e x \<and> t = s\<lparr>ext := x\<rparr>)"
  "on_ext m s = Panic \<longleftrightarrow> m (ext s) = Panic"
  by (auto simp: on_ext_def split: outcome.splits)

lemma ensure_root_iff [op_inv]:
  "ensure_root org s = Ok y t \<longleftrightarrow> org = Root \<and> t = s"
  "ensure_root org s = Err e t \<longleftrightarrow> org \<noteq> Root \<and> e = BadOrigin \<and> t = s"
  "ensure_root org s \<noteq> Panic"
  by (auto simp: ensure_root_def ret_def fail_def split: origin.splits)

lemma ensure_none_iff [op_inv]:
  "ensure_none org s = Ok y t \<longleftrightarrow> org = NoOrigin \<and> t = s"
  "ensure_none org s = Err e t \<longleftrightarrow> org \<noteq> NoOrigin \<and> e = BadOrigin \<and> t = s"
  "ensure_none org s \<noteq> Panic"
  by (auto simp: ensure_none_def ret_def fail_def split: origin.splits)

lemma ensure_signed_iff [op_inv]:
  "ensure_signed org s = Ok who t \<longleftrightarrow> org = Signed who \<and> t = s"
  "ensure_signed org s = Err e t \<longleftrightarrow> (\<forall>w. org \<noteq> Signed w) \<and> e = BadOrigin \<and> t = s"
  "ensure_signed org s \<noteq> Panic"
  by (auto simp: ensure_signed_def ret_def fail_def split: origin.splits)

lemma lookup_iff [op_inv]:
  "lookup src s = Ok who t \<longleftrightarrow> src = Inr who \<and> t = s"
  "lookup src s = Err e t \<longleftrightarrow> src = Inl e \<and> t = s"
  "lookup src s \<noteq> Panic"
  by (auto simp: lookup_def ret_def fail_def split: sum.splits)

section \<open>Frame rules\<close>

text \<open>What each primitive writes; every invariant of the rest of the storage is kept.\<close>

lemma preserves_deposit_event [preserves_rules]:
  "(\<And>s. P s \<Longrightarrow> P (s\<lparr>events := events s @ [e]\<rparr>)) \<Longrightarrow> preserves P (deposit_event e)"
  unfolding deposit_event_def by (rule preserves_modify)

lemma preserves_deposit_log [preserves_rules]:
  "(\<And>s. P s \<Longrightarrow> P (s\<lparr>digest_logs := digest_logs s @ [d]\<rparr>)) \<Longrightarrow> preserves P (deposit_log d)"
  unfolding deposit_log_def by (rule preserves_modify)

lemma preserves_offchain_index_set [preserves_rules]:
  "(\<And>s. P s \<Longrightarrow> P (s\<lparr>offchain_index := offchain_index s @ [(k, v)]\<rparr>)) \<Longrightarrow>
   preserves P (offchain_index_set k v)"
  unfolding offchain_index_set_def by (rule preserves_modify)

lemma preserves_on_ext [preserves_rules]:
  "(\<And>s x. P s \<Longrightarrow> P (s\<lparr>ext := x\<rparr>)) \<Longrightarrow> preserves P (on_ext m)"
  by (rule preservesI) (auto simp: on_ext_iff)

lemma preserves_origin_checks [preserves_rules]:
  "preserves P (ensure_root org)" "preserves P (ensure_none org)" "preserves P (ensure_signed org)"
  "preserves P (lookup src)"
  by (auto intro!: preservesI simp: op_inv)

end
