(* ===== verification/Demo.thy ===== *)
theory Demo
  imports Runtime
begin

text \<open>
  A concrete instance of the outside code, at which the witnesses of the properties evaluate:
  accounts are numbers, balances are \<open>u128\<close>, and the outside state is a small ledger of native
  balances, asset balances, item owners, the clock and the session validators. Nothing outside the
  witnesses uses it.
\<close>

record demo_ext =
  bal :: "nat \<Rightarrow> nat"
  asset_bal :: "asset_id \<Rightarrow> nat \<Rightarrow> nat"
  item_owner :: "u128 \<Rightarrow> u128 \<Rightarrow> nat option"
  now_ms :: u64
  sess_validators :: "nat list"

definition demo_transfer :: "nat \<Rightarrow> nat \<Rightarrow> u128 \<Rightarrow> existence_requirement \<Rightarrow> (demo_ext, dispatch_error, unit) op" where
  "demo_transfer from dest amount req x =
     (if bal x from < unat amount \<or> (req = KeepAlive \<and> bal x from = unat amount)
      then Err (OutsideError 2) x
      else let taken = (bal x)(from := bal x from - unat amount)
           in Ok () (x\<lparr>bal := taken(dest := taken dest + unat amount)\<rparr>))"

definition demo_mint_into :: "asset_id \<Rightarrow> nat \<Rightarrow> u128 \<Rightarrow> (demo_ext, dispatch_error, unit) op" where
  "demo_mint_into i who amount x =
     Ok () (x\<lparr>asset_bal := (asset_bal x)(i := (asset_bal x i)(who := asset_bal x i who + unat amount))\<rparr>)"

definition demo_burn_from :: "asset_id \<Rightarrow> nat \<Rightarrow> u128 \<Rightarrow> (demo_ext, dispatch_error, u128) op" where
  "demo_burn_from i who amount x =
     (if asset_bal x i who < unat amount then Err (OutsideError 3) x
      else Ok amount
        (x\<lparr>asset_bal := (asset_bal x)(i := (asset_bal x i)(who := asset_bal x i who - unat amount))\<rparr>))"

definition demo_nft_transfer :: "u128 \<Rightarrow> u128 \<Rightarrow> nat \<Rightarrow> (demo_ext, dispatch_error, unit) op" where
  "demo_nft_transfer col item dest x =
     (case item_owner x col item of None \<Rightarrow> Err (OutsideError 4) x
      | Some _ \<Rightarrow> Ok () (x\<lparr>item_owner :=
           (item_owner x)(col := (item_owner x col)(item := Some dest))\<rparr>))"

text \<open>Parts per billion: rounded down, at most one, with a saturating sum.\<close>

definition demo_from_rational :: "u64 \<Rightarrow> u64 \<Rightarrow> u32" where
  "demo_from_rational p q =
     (if q = 0 \<or> q \<le> p then 1000000000 else word_of_nat (unat p * 1000000000 div unat q))"

definition demo_perbill_mul :: "u32 \<Rightarrow> u32 \<Rightarrow> u32" where
  "demo_perbill_mul a b = word_of_nat (unat a * unat b div 1000000000)"

definition demo_perbill_add :: "u32 \<Rightarrow> u32 \<Rightarrow> u32" where
  "demo_perbill_add a b = word_of_nat (min (unat a + unat b) 1000000000)"

definition demo_um_config :: um_config where
  "demo_um_config =
     \<lparr>max_message_payload_size = 4, max_messages_per_commit = 2, encode_messages = concat \<circ> map msg_payload,
      hash_bytes = (\<lambda>b. take 2 b), weight_on_initialize = (\<lambda>m p. 10 + ucast m + ucast p),
      weight_on_initialize_non_interval = 1, weight_on_initialize_no_messages = 2\<rparr>"

definition demo_bridge_config :: "(nat, u128, demo_ext) bridge_config" where
  "demo_bridge_config =
     \<lparr>bridge_account = 0, balance_into_u128 = Some, balance_from_u128 = Some, balance_le = (\<le>),
      currency_transfer = demo_transfer, currency_minimum_balance = 1,
      currency_make_free_balance_be = (\<lambda>who b x. x\<lparr>bal := (bal x)(who := unat b)\<rparr>),
      fungibles_mint_into = demo_mint_into, fungibles_burn_from = demo_burn_from,
      nonfungibles_transfer = demo_nft_transfer,
      convert_into_nep171_metadata = (\<lambda>col item x. Some default_nep171_token_metadata),
      legacy_asset_ids = (\<lambda>x. [([110], 9)]), drain_legacy_asset_ids = (\<lambda>x. x),
      perbill_from_rational = demo_from_rational, perbill_mul = demo_perbill_mul,
      perbill_add = demo_perbill_add, native_token_decimals = 1000000000000000000, threshold = 300,
      token_order = (\<lambda>ks. ks)\<rparr>"

definition demo_lpos_config :: "(nat, u128, demo_ext) lpos_config" where
  "demo_lpos_config =
     \<lparr>sessions_per_era = 2, bonding_duration = 28, lpos_account = 0,
      currency_deposit_creating = (\<lambda>who b x. x\<lparr>bal := (bal x)(who := bal x who + unat b)\<rparr>),
      unix_time_millis = now_ms, session_validators = sess_validators,
      session_key_owner = (\<lambda>k d x. case d of [b] \<Rightarrow> Some (unat b) | _ \<Rightarrow> None),
      session_prune_up_to = (\<lambda>i x. x), session_disable_index = (\<lambda>i x. Ok True x),
      validator_id_of = Some, from_utf8_lossy_trim = (\<lambda>b. b),
      staker_order = (\<lambda>ks. ks), offender_order = (\<lambda>ks. ks)\<rparr>"

definition demo_app_config :: "nat appchain_config" where
  "demo_app_config =
     \<lparr>grace_period = 10, unsigned_priority = 2097152, request_event_limit = 10, max_validators = 5,
      verify_payload = (\<lambda>p sig. sig = payload_public p), public_into_account = (\<lambda>p. case p of [b] \<Rightarrow> unat b | _ \<Rightarrow> 0)\<rparr>"

definition demo_config :: "(nat, u128, demo_ext) config" where
  "demo_config =
     \<lparr>um_cfg = demo_um_config, bridge_cfg = demo_bridge_config, lpos_cfg = demo_lpos_config,
      app_cfg = demo_app_config, try_to_vec = (\<lambda>p. Some [1, 2, 3]), hex_encode = (\<lambda>b. b),
      account_encode = (\<lambda>a. [word_of_nat a]), db_reads_writes = (\<lambda>r w. r + 2 * w)\<rparr>"

text \<open>A start state: four accounts with money, nothing queued, nothing observed.\<close>

definition demo_ext0 :: demo_ext where
  "demo_ext0 = \<lparr>bal = (\<lambda>a. if a \<in> {0, 1, 2, 3} then 1000 else 0), asset_bal = (\<lambda>i a. 0),
     item_owner = (\<lambda>col item. if col = 7 then Some 1 else None), now_ms = 5000, sess_validators = [1, 2, 3]\<rparr>"

definition demo_um0 :: um_state where
  "demo_um0 = \<lparr>interval = 5, message_queue = [], nonce = 0, um_storage_version = 0\<rparr>"

definition demo_lpos0 :: "nat lpos_state" where
  "demo_lpos0 =
     \<lparr>history_depth = 84, current_era = None, active_era = None, eras_start_session_index = Map.empty,
      eras_stakers = (\<lambda>e. []), eras_validator_reward = Map.empty,
      eras_reward_points = (\<lambda>e. default_era_reward_points), eras_total_stake = (\<lambda>e. 0),
      bonded_eras = [], current_planned_session = 0, era_payout = 0, offenders = []\<rparr>"

definition demo_bridge0 :: "(nat, u128) bridge_state" where
  "demo_bridge0 =
     \<lparr>asset_id_by_token_id = [], oracle_account = None, crosschain_transfer_fee = Map.empty,
      token_price = None, near_price = None, coef = default_for_coef, bridge_storage_version = 0\<rparr>"

definition demo_app0 :: "nat appchain_state" where
  "demo_app0 =
     \<lparr>anchor_contract = [], is_activated = True, next_set_id = 1, planned_validators = [(1, 100), (2, 100)],
      next_notification_id = 0, observations = (\<lambda>t i. []), observing = (\<lambda>obs. []),
      notification_history = (\<lambda>i. None), git_version = []\<rparr>"

definition demo_state :: "(nat, u128, demo_ext) runtime" where
  "demo_state =
     \<lparr>events = [], digest_logs = [], offchain_index = [], block_number = 1, um = demo_um0,
      lpos = demo_lpos0, bridge = demo_bridge0, app = demo_app0, ext = demo_ext0\<rparr>"

named_theorems demo_simps \<open>the definitions of the concrete instance\<close>

declare demo_transfer_def [demo_simps] demo_mint_into_def [demo_simps] demo_burn_from_def [demo_simps]
  demo_nft_transfer_def [demo_simps] demo_from_rational_def [demo_simps]
  demo_perbill_mul_def [demo_simps] demo_perbill_add_def [demo_simps] demo_um_config_def [demo_simps]
  demo_bridge_config_def [demo_simps] demo_lpos_config_def [demo_simps] demo_app_config_def [demo_simps]
  demo_config_def [demo_simps] demo_ext0_def [demo_simps] demo_um0_def [demo_simps]
  demo_lpos0_def [demo_simps] demo_bridge0_def [demo_simps] demo_app0_def [demo_simps]
  demo_state_def [demo_simps]

end
