(* ===== verification/UpwardMessages.thy ===== *)
theory UpwardMessages
  imports Demo
begin

text \<open>
  The pallet \<open>upward-messages\<close> (\<open>upward-messages/src/lib.rs\<close>, \<open>migrations.rs\<close>): \<open>submit\<close> queues a
  message under the next nonce, and every \<open>interval\<close> blocks \<open>on_initialize\<close> commits the queue: the
  hash goes to the block digest, the messages to an event and to the offchain index. The
  interface \<open>UpwardMessagesInterface\<close> is interpreted at the end of the operations; the last
  section proves that no message is lost, repeated or reordered between \<open>submit\<close> and the commits.
\<close>

section \<open>Operations\<close>

text \<open>\<open>GenesisConfig::build\<close>, \<open>GenesisConfig::default().interval\<close> and the storage before genesis.\<close>

definition um_genesis_build :: "u32 \<Rightarrow> ('a, 'b, 'x, unit) call" where
  "um_genesis_build genesis_interval = modify (\<lambda>s. s\<lparr>um := (um s)\<lparr>interval := genesis_interval\<rparr>\<rparr>)"

definition um_default_genesis_interval :: u32 where
  "um_default_genesis_interval = 0"

definition um_empty :: um_state where
  "um_empty = \<lparr>interval = 0, message_queue = [], nonce = 0, um_storage_version = 0\<rparr>"

text \<open>
  \<open>average_payload_size\<close>: lengths are \<open>usize\<close> and sum up below its range, since the messages are in
  memory; the division panics (\<open>None\<close>) on an empty slice; the result is cast to \<open>u32\<close>.
\<close>

definition average_payload_size :: "message list \<Rightarrow> u32 option" where
  "average_payload_size messages =
     (let sum = fold (\<lambda>x acc. acc + length (msg_payload x)) messages 0
      in if messages = [] then None
         else Some (word_of_nat (sum div length messages + 1)))"

definition commit :: "('a, 'b, 'x) config \<Rightarrow> ('a, 'b, 'x, weight) call" where
  "commit c =
     bind (gets (\<lambda>s. message_queue (um s))) (\<lambda>queue.
     bind (modify (\<lambda>s. s\<lparr>um := (um s)\<lparr>message_queue := []\<rparr>\<rparr>)) (\<lambda>_.
     if queue = [] then ret (weight_on_initialize_no_messages (um_cfg c))
     else
       (let message_count = word_of_nat (length queue) in
        bind (unwrap (average_payload_size queue)) (\<lambda>average.
        (let encoded_messages = encode_messages (um_cfg c) queue;
             commitment_hash = hash_bytes (um_cfg c) encoded_messages in
         bind (deposit_log commitment_hash) (\<lambda>_.
         bind (deposit_event (UmEvent (Committed commitment_hash queue))) (\<lambda>_.
         bind (offchain_index_set commitment_hash (encode_messages (um_cfg c) queue)) (\<lambda>_.
         ret (weight_on_initialize (um_cfg c) message_count average)))))))))"

text \<open>\<open>now % Self::interval()\<close> panics when the interval is 0.\<close>

definition on_initialize :: "('a, 'b, 'x) config \<Rightarrow> u32 \<Rightarrow> ('a, 'b, 'x, weight) call" where
  "on_initialize c now =
     bind (gets (\<lambda>s. interval (um s))) (\<lambda>i.
     if i = 0 then panic
     else if now mod i = 0 then commit c
     else ret (weight_on_initialize_non_interval (um_cfg c)))"

definition bounded_payload :: "('a, 'b, 'x) config \<Rightarrow> bytes \<Rightarrow> bytes option" where
  "bounded_payload c payload =
     (if length payload \<le> unat (max_message_payload_size (um_cfg c)) then Some payload else None)"

text \<open>\<open>MessageQueue::try_append\<close> on a \<open>BoundedVec\<close>.\<close>

definition message_queue_try_append :: "('a, 'b, 'x) config \<Rightarrow> message \<Rightarrow> ('a, 'b, 'x, unit) call" where
  "message_queue_try_append c m =
     bind (gets (\<lambda>s. message_queue (um s))) (\<lambda>q.
     bind (ensure (length q < unat (max_messages_per_commit (um_cfg c)))
             (UmError QueueSizeLimitReached)) (\<lambda>_.
     modify (\<lambda>s. s\<lparr>um := (um s)\<lparr>message_queue := q @ [m]\<rparr>\<rparr>)))"

definition submit_checks :: "('a, 'b, 'x) config \<Rightarrow> bytes \<Rightarrow> ('a, 'b, 'x, unit) call" where
  "submit_checks c payload =
     bind (gets (\<lambda>s. length (message_queue (um s)))) (\<lambda>decode_len.
     bind (ensure (decode_len < unat (max_messages_per_commit (um_cfg c)))
             (UmError QueueSizeLimitReached)) (\<lambda>_.
     ensure (length payload \<le> unat (max_message_payload_size (um_cfg c))) (UmError PayloadTooLarge)))"

definition submit :: "('a, 'b, 'x) config \<Rightarrow> 'a option \<Rightarrow> payload_type \<Rightarrow> bytes \<Rightarrow> ('a, 'b, 'x, u64) call" where
  "submit c who payload_type payload =
     bind (case payload_type of
             Lock \<Rightarrow> submit_checks c payload
           | BurnAsset \<Rightarrow> submit_checks c payload
           | LockNft \<Rightarrow> submit_checks c payload
           | _ \<Rightarrow> ret ()) (\<lambda>_.
     try_mutate (\<lambda>s. nonce (um s)) (\<lambda>n s. s\<lparr>um := (um s)\<lparr>nonce := n\<rparr>\<rparr>) (\<lambda>n.
       bind (ok_or (checked_add n 1) (UmError NonceOverflow)) (\<lambda>n'.
       bind (ok_or (bounded_payload c payload) (UmError PayloadTooLarge)) (\<lambda>p.
       bind (message_queue_try_append c
               \<lparr>msg_nonce = n', msg_payload_type = payload_type, msg_payload = p\<rparr>) (\<lambda>_.
       bind (deposit_event (UmEvent (MessageAccepted n'))) (\<lambda>_.
       ret (n', n')))))))"

text \<open>\<open>migrations::migration_to_v1\<close>.\<close>

definition um_migration_to_v1 :: "('a, 'b, 'x) config \<Rightarrow> u32 \<Rightarrow> ('a, 'b, 'x, weight) call" where
  "um_migration_to_v1 c new_interval =
     bind (gets (\<lambda>s. um_storage_version (um s))) (\<lambda>onchain.
     if um_current_storage_version = 1 \<and> onchain = 0 then
       bind (modify (\<lambda>s. s\<lparr>um := (um s)\<lparr>interval := new_interval\<rparr>\<rparr>)) (\<lambda>_.
       bind (modify (\<lambda>s. s\<lparr>um := (um s)\<lparr>um_storage_version := um_current_storage_version\<rparr>\<rparr>)) (\<lambda>_.
       ret (db_reads_writes c 2 2)))
     else ret (db_reads_writes c 1 0))"

section \<open>What \<open>submit\<close> does\<close>

definition queue_full :: "('a, 'b, 'x) config \<Rightarrow> ('a, 'b, 'x) runtime \<Rightarrow> bool" where
  "queue_full c s \<longleftrightarrow> unat (max_messages_per_commit (um_cfg c)) \<le> length (message_queue (um s))"

definition too_large :: "('a, 'b, 'x) config \<Rightarrow> bytes \<Rightarrow> bool" where
  "too_large c p \<longleftrightarrow> unat (max_message_payload_size (um_cfg c)) < length p"

definition submitted_by_user :: "payload_type \<Rightarrow> bool" where
  "submitted_by_user t \<longleftrightarrow> t = Lock \<or> t = BurnAsset \<or> t = LockNft"

definition accept_message :: "payload_type \<Rightarrow> bytes \<Rightarrow> ('a, 'b, 'x) runtime \<Rightarrow> ('a, 'b, 'x) runtime" where
  "accept_message t p s =
     (let n = nonce (um s) + 1 in
      s\<lparr>um := (um s)\<lparr>message_queue :=
                  message_queue (um s) @ [\<lparr>msg_nonce = n, msg_payload_type = t, msg_payload = p\<rparr>],
                nonce := n\<rparr>,
        events := events s @ [UmEvent (MessageAccepted n)]\<rparr>)"

lemma submit_checks_eq:
  "submit_checks c p s =
     (if queue_full c s then Err (UmError QueueSizeLimitReached) s
      else if too_large c p then Err (UmError PayloadTooLarge) s else Ok () s)"
  by (simp add: submit_checks_def op_simps queue_full_def too_large_def)

lemma submit_eq:
  "submit c w t p s =
     (if submitted_by_user t \<and> queue_full c s then Err (UmError QueueSizeLimitReached) s
      else if submitted_by_user t \<and> too_large c p then Err (UmError PayloadTooLarge) s
      else if nonce (um s) = - 1 then Err (UmError NonceOverflow) s
      else if too_large c p then Err (UmError PayloadTooLarge) s
      else if queue_full c s then Err (UmError QueueSizeLimitReached) s
      else Ok (nonce (um s) + 1) (accept_message t p s))"
proof -
  have checks: "(case t of Lock \<Rightarrow> submit_checks c p | BurnAsset \<Rightarrow> submit_checks c p
      | LockNft \<Rightarrow> submit_checks c p | _ \<Rightarrow> ret ()) s
    = (if submitted_by_user t then submit_checks c p s else Ok () s)"
    by (cases t) (auto simp: submitted_by_user_def ret_def)
  show ?thesis
    unfolding submit_def bind_def checks submit_checks_eq
    by (auto simp: op_simps checked_add_1 bounded_payload_def message_queue_try_append_def accept_message_def
        too_large_def queue_full_def Let_def)
qed


lemma submit_Ok_iff:
  "submit c w t p s = Ok n s' \<longleftrightarrow>
     \<not> queue_full c s \<and> \<not> too_large c p \<and> nonce (um s) \<noteq> - 1 \<and>
     n = nonce (um s) + 1 \<and> s' = accept_message t p s"
  by (auto simp: submit_eq)

lemma submit_Err_unchanged: "submit c w t p s = Err e s' \<Longrightarrow> s' = s"
  by (auto simp: submit_eq split: if_splits)

lemma submit_not_Panic: "submit c w t p s \<noteq> Panic"
  by (auto simp: submit_eq)

lemma unat_next_nonce: "(n :: u64) \<noteq> - 1 \<Longrightarrow> unat (n + 1) = Suc (unat n)"
  using checked_add_1 [of n] unat_checked_add [of n 1 "n + 1"] by simp

text \<open>What the rest of the runtime sees of a submission.\<close>

lemma accept_message_frame [simp]:
  "lpos (accept_message t p s) = lpos s" "bridge (accept_message t p s) = bridge s"
  "app (accept_message t p s) = app s" "ext (accept_message t p s) = ext s"
  "digest_logs (accept_message t p s) = digest_logs s"
  "offchain_index (accept_message t p s) = offchain_index s"
  "block_number (accept_message t p s) = block_number s"
  by (simp_all add: accept_message_def Let_def)

lemma accept_message_um [simp]:
  "interval (um (accept_message t p s)) = interval (um s)"
  "nonce (um (accept_message t p s)) = nonce (um s) + 1"
  "message_queue (um (accept_message t p s)) = message_queue (um s) @
     [\<lparr>msg_nonce = nonce (um s) + 1, msg_payload_type = t, msg_payload = p\<rparr>]"
  "events (accept_message t p s) = events s @ [UmEvent (MessageAccepted (nonce (um s) + 1))]"
  by (simp_all add: accept_message_def Let_def)

lemma preserves_submit [preserves_rules]:
  assumes "\<And>s t p. P s \<Longrightarrow> P (accept_message t p s)"
  shows "preserves P (submit c w t p)"
  using assms by (intro preservesI) (auto simp: submit_Ok_iff dest: submit_Err_unchanged)

section \<open>The interface\<close>

definition pending_messages :: "('a, 'b, 'x) runtime \<Rightarrow> (u64 \<times> payload_type \<times> bytes) list" where
  "pending_messages s =
     map (\<lambda>m. (msg_nonce m, msg_payload_type m, msg_payload m)) (message_queue (um s))"

interpretation umi: upward_messages_interface "submit c" pending_messages "\<lambda>s. nonce (um s)" for c
  by unfold_locales
    (auto simp: submit_Ok_iff pending_messages_def unat_next_nonce submit_not_Panic
      dest: submit_Err_unchanged)

section \<open>What a commitment does\<close>

definition committed_state :: "('a, 'b, 'x) config \<Rightarrow> ('a, 'b, 'x) runtime \<Rightarrow> ('a, 'b, 'x) runtime" where
  "committed_state c s =
     (let q = message_queue (um s); d = encode_messages (um_cfg c) q; h = hash_bytes (um_cfg c) d in
      s\<lparr>um := (um s)\<lparr>message_queue := []\<rparr>,
        digest_logs := digest_logs s @ [h],
        events := events s @ [UmEvent (Committed h q)],
        offchain_index := offchain_index s @ [(h, d)]\<rparr>)"

lemma average_payload_size_Some: "ms \<noteq> [] \<Longrightarrow> \<exists>a. average_payload_size ms = Some a"
  by (simp add: average_payload_size_def Let_def)

lemma commit_eq:
  "commit c s =
     (if message_queue (um s) = []
      then Ok (weight_on_initialize_no_messages (um_cfg c)) s
      else Ok (weight_on_initialize (um_cfg c) (word_of_nat (length (message_queue (um s))))
                 (the (average_payload_size (message_queue (um s))))) (committed_state c s))"
proof (cases "message_queue (um s) = []")
  case True
  then have "s\<lparr>um := (um s)\<lparr>message_queue := []\<rparr>\<rparr> = s"
    by (cases s, cases "um s") simp
  with True show ?thesis by (simp add: commit_def op_simps)
next
  case False
  then obtain a where "average_payload_size (message_queue (um s)) = Some a"
    using average_payload_size_Some by blast
  with False show ?thesis
    by (simp add: commit_def op_simps committed_state_def Let_def)
qed

lemma on_initialize_eq:
  "on_initialize c now s =
     (if interval (um s) = 0 then Panic
      else if now mod interval (um s) = 0 then commit c s
      else Ok (weight_on_initialize_non_interval (um_cfg c)) s)"
  by (simp add: on_initialize_def op_simps)

lemma fold_add_lengths:
  "fold (\<lambda>x acc. acc + length (msg_payload x)) ms n = n + sum_list (map (length \<circ> msg_payload) ms)"
  by (induction ms arbitrary: n) auto

section \<open>The invariant of the queue\<close>

text \<open>
  The queue and its payloads are within the configured bounds, and the nonces in the queue are the
  last ones given out, in order.
\<close>

definition queue_nonces :: "message list \<Rightarrow> nat list" where
  "queue_nonces ms = map (\<lambda>m. unat (msg_nonce m)) ms"

definition um_ok :: "('a, 'b, 'x) config \<Rightarrow> ('a, 'b, 'x) runtime \<Rightarrow> bool" where
  "um_ok c s \<longleftrightarrow>
     length (message_queue (um s)) \<le> unat (max_messages_per_commit (um_cfg c)) \<and>
     (\<forall>m \<in> set (message_queue (um s)). length (msg_payload m) \<le> unat (max_message_payload_size (um_cfg c))) \<and>
     (\<exists>k. k + length (message_queue (um s)) = unat (nonce (um s)) \<and>
        queue_nonces (message_queue (um s)) = [Suc k ..< Suc (unat (nonce (um s)))])"

lemma um_ok_depends: "um s = um t \<Longrightarrow> um_ok c s = um_ok c t"
  by (simp add: um_ok_def)

lemma um_ok_accept:
  assumes "um_ok c s" "\<not> queue_full c s" "\<not> too_large c p" "nonce (um s) \<noteq> - 1"
  shows "um_ok c (accept_message t p s)"
  using assms
  by (auto simp: um_ok_def queue_full_def too_large_def queue_nonces_def unat_next_nonce)

lemma um_ok_empty_queue: "message_queue (um s) = [] \<Longrightarrow> um_ok c s"
  by (simp add: um_ok_def queue_nonces_def)

lemma um_ok_submit: "preserves (um_ok c) (submit c w t p)"
  by (rule preservesI) (auto simp: submit_Ok_iff um_ok_accept dest: submit_Err_unchanged)

lemma um_ok_commit: "preserves (um_ok c) (commit c)"
  by (rule preservesI)
    (auto simp: commit_eq committed_state_def Let_def um_ok_empty_queue split: if_splits)

lemma um_ok_on_initialize: "preserves (um_ok c) (on_initialize c now)"
  unfolding on_initialize_def by (intro preserves_rules um_ok_commit)

section \<open>Submissions and commitments over time\<close>

text \<open>
  The steps of the pallet: a submission (accepted or refused), the start of a block, and any step
  of another pallet, which leaves this pallet's storage and events alone.
\<close>

fun is_um_event :: "('a, 'b) runtime_event \<Rightarrow> bool" where
  "is_um_event (UmEvent _) = True"
| "is_um_event _ = False"

definition um_events :: "('a, 'b, 'x) runtime \<Rightarrow> ('a, 'b) runtime_event list" where
  "um_events s = filter is_um_event (events s)"

inductive um_step :: "('a, 'b, 'x) config \<Rightarrow> ('a, 'b, 'x) runtime \<Rightarrow> ('a, 'b, 'x) runtime \<Rightarrow> bool"
  for c where
  accepted: "submit c w t p s = Ok n s' \<Longrightarrow> um_step c s s'"
| refused: "submit c w t p s = Err e s' \<Longrightarrow> um_step c s s'"
| new_block: "on_initialize c now s = Ok wt s' \<Longrightarrow> um_step c s s'"
| elsewhere: "um s' = um s \<Longrightarrow> um_events s' = um_events s \<Longrightarrow> um_step c s s'"

inductive um_reachable :: "('a, 'b, 'x) config \<Rightarrow> ('a, 'b, 'x) runtime \<Rightarrow> bool" for c where
  start: "um s = um_empty\<lparr>interval := i\<rparr> \<Longrightarrow> um_events s = [] \<Longrightarrow> um_reachable c s"
| step: "um_reachable c s \<Longrightarrow> um_step c s s' \<Longrightarrow> um_reachable c s'"

inductive_cases um_stepE: "um_step c s s'"

text \<open>The messages in the \<open>Committed\<close> events and the nonces in the \<open>MessageAccepted\<close> events.\<close>

fun committed_in :: "('a, 'b) runtime_event list \<Rightarrow> message list" where
  "committed_in [] = []"
| "committed_in (UmEvent (Committed h ms) # es) = ms @ committed_in es"
| "committed_in (e # es) = committed_in es"

fun accepted_in :: "('a, 'b) runtime_event list \<Rightarrow> u64 list" where
  "accepted_in [] = []"
| "accepted_in (UmEvent (MessageAccepted n) # es) = n # accepted_in es"
| "accepted_in (e # es) = accepted_in es"

lemma committed_in_append [simp]: "committed_in (xs @ ys) = committed_in xs @ committed_in ys"
  by (induction xs rule: committed_in.induct) auto

lemma accepted_in_append [simp]: "accepted_in (xs @ ys) = accepted_in xs @ accepted_in ys"
  by (induction xs rule: accepted_in.induct) auto

definition delivery_inv :: "('a, 'b, 'x) runtime \<Rightarrow> bool" where
  "delivery_inv s \<longleftrightarrow>
     map msg_nonce (committed_in (um_events s) @ message_queue (um s)) = accepted_in (um_events s) \<and>
     map unat (accepted_in (um_events s)) = [1 ..< Suc (unat (nonce (um s)))]"

lemma delivery_inv_accept:
  assumes "delivery_inv s" "nonce (um s) \<noteq> - 1"
  shows "delivery_inv (accept_message t p s)"
  using assms by (auto simp: delivery_inv_def um_events_def unat_next_nonce)

lemma delivery_inv_commit: "delivery_inv s \<Longrightarrow> commit c s = Ok w s' \<Longrightarrow> delivery_inv s'"
  by (auto simp: commit_eq delivery_inv_def um_events_def committed_state_def Let_def split: if_splits)

lemma delivery_inv_step: "um_step c s s' \<Longrightarrow> delivery_inv s \<Longrightarrow> delivery_inv s'"
proof (induction rule: um_step.induct)
  case (accepted w t p s n s')
  then show ?case by (auto simp: submit_Ok_iff intro: delivery_inv_accept)
next
  case (refused w t p s e s')
  then show ?case by (auto dest: submit_Err_unchanged)
next
  case (new_block now s wt s')
  then show ?case
    by (auto simp: on_initialize_eq intro: delivery_inv_commit split: if_splits)
next
  case (elsewhere s' s)
  then show ?case by (simp add: delivery_inv_def)
qed

lemma um_ok_step: "um_step c s s' \<Longrightarrow> um_ok c s \<Longrightarrow> um_ok c s'"
  by (induction rule: um_step.induct)
    (auto dest: preserves_Ok [OF um_ok_submit] preserves_Err [OF um_ok_submit]
      preserves_Ok [OF um_ok_on_initialize] um_ok_depends)

lemma um_reachable_inv: "um_reachable c s \<Longrightarrow> um_ok c s \<and> delivery_inv s"
proof (induction rule: um_reachable.induct)
  case (start s i)
  then show ?case
    by (auto simp: um_empty_def delivery_inv_def intro!: um_ok_empty_queue)
next
  case (step s s')
  then show ?case by (blast intro: um_ok_step delivery_inv_step)
qed

section \<open>Runs\<close>

text \<open>
  A run of the pallet: submissions and block starts in any order. The run returns the final state
  and the messages that were accepted, with their nonces; it is \<open>None\<close> if a call panicked.
\<close>

datatype 'a um_call = Submit "'a option" payload_type bytes | NewBlock u32

fun um_run :: "('a, 'b, 'x) config \<Rightarrow> 'a um_call list \<Rightarrow> ('a, 'b, 'x) runtime
    \<Rightarrow> (('a, 'b, 'x) runtime \<times> message list) option" where
  "um_run c [] s = Some (s, [])"
| "um_run c (Submit w t p # cs) s =
     (case submit c w t p s of
        Ok n s' \<Rightarrow> map_option
          (\<lambda>(u, ms). (u, \<lparr>msg_nonce = n, msg_payload_type = t, msg_payload = p\<rparr> # ms)) (um_run c cs s')
      | Err e s' \<Rightarrow> um_run c cs s'
      | Panic \<Rightarrow> None)"
| "um_run c (NewBlock now # cs) s =
     (case on_initialize c now s of Ok w s' \<Rightarrow> um_run c cs s' | Err e s' \<Rightarrow> um_run c cs s' | Panic \<Rightarrow> None)"

lemma on_initialize_Ok:
  assumes "interval (um s) \<noteq> 0"
  shows "\<exists>w s'. on_initialize c now s = Ok w s' \<and> interval (um s') = interval (um s) \<and>
    nonce (um s') = nonce (um s) \<and>
    committed_in (events s') @ message_queue (um s') = committed_in (events s) @ message_queue (um s)"
  using assms by (auto simp: on_initialize_eq commit_eq committed_state_def Let_def)

lemma um_run_delivers:
  assumes "interval (um s) \<noteq> 0"
  shows "\<exists>s' ms. um_run c cs s = Some (s', ms) \<and>
    committed_in (events s') @ message_queue (um s') =
      committed_in (events s) @ message_queue (um s) @ ms \<and>
    queue_nonces ms = [Suc (unat (nonce (um s))) ..< Suc (unat (nonce (um s')))] \<and>
    unat (nonce (um s)) \<le> unat (nonce (um s')) \<and>
    (um_ok c s \<longrightarrow> um_ok c s')"
  using assms
proof (induction c cs s rule: um_run.induct)
  case (1 c s)
  then show ?case by (simp add: queue_nonces_def)
next
  case (2 c w t p cs s)
  show ?case
  proof (cases "submit c w t p s")
    case (Ok n u)
    then have u: "u = accept_message t p s" "n = nonce (um s) + 1" "nonce (um s) \<noteq> - 1"
      by (auto simp: submit_Ok_iff)
    with "2.prems" have "interval (um u) \<noteq> 0" by simp
    from "2.IH"(1) [OF Ok this] obtain s' ms where
      "um_run c cs u = Some (s', ms)"
      "committed_in (events s') @ message_queue (um s') =
        committed_in (events u) @ message_queue (um u) @ ms"
      "queue_nonces ms = [Suc (unat (nonce (um u))) ..< Suc (unat (nonce (um s')))]"
      "unat (nonce (um u)) \<le> unat (nonce (um s'))" "um_ok c u \<longrightarrow> um_ok c s'" by blast
    moreover have "um_ok c s \<longrightarrow> um_ok c u"
      using Ok preserves_Ok [OF um_ok_submit] by blast
    ultimately show ?thesis
      using u by (auto simp: Ok unat_next_nonce upt_conv_Cons queue_nonces_def simp del: upt_Suc)
  next
    case (Err e u)
    with "2.IH"(2) [OF Err] "2.prems" submit_Err_unchanged [OF Err] show ?thesis by simp
  next
    case Panic
    then show ?thesis by (simp add: submit_not_Panic)
  qed
next
  case (3 c now cs s)
  from on_initialize_Ok [OF "3.prems", of c now] obtain w u where
    u: "on_initialize c now s = Ok w u" "interval (um u) = interval (um s)" "nonce (um u) = nonce (um s)"
    "committed_in (events u) @ message_queue (um u) = committed_in (events s) @ message_queue (um s)"
    by blast
  moreover have "um_ok c s \<longrightarrow> um_ok c u"
    using u(1) preserves_Ok [OF um_ok_on_initialize] by blast
  moreover from u(2) "3.prems" have "interval (um u) \<noteq> 0" by simp
  from "3.IH"(1) [OF u(1) this] obtain s' ms where
    "um_run c cs u = Some (s', ms)"
    "committed_in (events s') @ message_queue (um s') =
      committed_in (events u) @ message_queue (um u) @ ms"
    "queue_nonces ms = [Suc (unat (nonce (um u))) ..< Suc (unat (nonce (um s')))]"
    "unat (nonce (um u)) \<le> unat (nonce (um s'))" "um_ok c u \<longrightarrow> um_ok c s'" by blast
  moreover have "committed_in (events s) @ message_queue (um s) @ ms =
      committed_in (events u) @ message_queue (um u) @ ms"
    using u(4) by (metis append_assoc)
  ultimately show ?case
    by (intro exI [of _ s'] exI [of _ ms]) (simp del: upt_Suc)
qed

section \<open>Properties\<close>

text \<open>
  C3. Any run of submissions and block starts with a non-zero interval refines a FIFO log: it never panics,
  the messages committed so far followed by the queue are the earlier ones followed by exactly the accepted
  messages in the order of submission, their nonces are consecutive, and the queue invariant holds at the
  end.
\<close>

theorem messages_delivered_once_in_order:
  assumes "interval (um s) \<noteq> 0" and "um_ok c s"
  shows "\<exists>s' ms. um_run c cs s = Some (s', ms) \<and>
    committed_in (events s') @ message_queue (um s') =
      committed_in (events s) @ message_queue (um s) @ ms \<and>
    queue_nonces ms = [Suc (unat (nonce (um s))) ..< Suc (unat (nonce (um s')))] \<and>
    um_ok c s'"
  using um_run_delivers [OF assms(1), of c cs] assms(2) by blast

theorem messages_delivered_once_in_order_witness:
  "\<exists>s' ms. um_run demo_config [Submit (Some 1) Lock [9], NewBlock 5, Submit None PlanNewEra [8]] demo_state
      = Some (s', ms) \<and>
    committed_in (events s') @ message_queue (um s') =
      committed_in (events demo_state) @ message_queue (um demo_state) @ ms \<and>
    queue_nonces ms = [Suc (unat (nonce (um demo_state))) ..< Suc (unat (nonce (um s')))] \<and>
    um_ok demo_config s'"
  by (rule messages_delivered_once_in_order) (simp_all add: demo_simps um_ok_def queue_nonces_def)

text \<open>
  C33. submit is equivalent to one guarded update: the first of its checks that fails decides the error
  (queue before size for user messages, nonce before size before queue otherwise) and leaves the state
  alone, and success appends one message under the next nonce, stores that nonce and emits MessageAccepted.
\<close>

theorem submit_outcome:
  "submit c w t p s =
     (if submitted_by_user t \<and> queue_full c s then Err (UmError QueueSizeLimitReached) s
      else if submitted_by_user t \<and> too_large c p then Err (UmError PayloadTooLarge) s
      else if nonce (um s) = - 1 then Err (UmError NonceOverflow) s
      else if too_large c p then Err (UmError PayloadTooLarge) s
      else if queue_full c s then Err (UmError QueueSizeLimitReached) s
      else Ok (nonce (um s) + 1)
        (s\<lparr>um := (um s)\<lparr>message_queue := message_queue (um s) @
               [\<lparr>msg_nonce = nonce (um s) + 1, msg_payload_type = t, msg_payload = p\<rparr>],
             nonce := nonce (um s) + 1\<rparr>,
           events := events s @ [UmEvent (MessageAccepted (nonce (um s) + 1))]\<rparr>))"
  by (simp add: submit_eq accept_message_def Let_def)

text \<open>
  C31. In every state reachable from genesis, the queue and its payloads respect the configured bounds, the
  committed messages followed by the queued ones carry exactly the nonces of the MessageAccepted events in
  order, and those are 1, 2, 3 up to the stored nonce.
\<close>

theorem queue_invariant_reachable:
  assumes "um_reachable c s"
  shows "um_ok c s \<and>
    map msg_nonce (committed_in (um_events s) @ message_queue (um s)) = accepted_in (um_events s) \<and>
    map unat (accepted_in (um_events s)) = [1 ..< Suc (unat (nonce (um s)))]"
  using um_reachable_inv [OF assms] by (simp add: delivery_inv_def)

theorem queue_invariant_reachable_witness:
  "\<exists>s1 s2 s3. submit demo_config (Some 1) Lock [9] demo_state = Ok 1 s1 \<and> on_initialize demo_config 5 s1 = Ok 13 s2 \<and>
    submit demo_config (Some 1) Lock [8] s2 = Ok 2 s3 \<and> um_ok demo_config s3 \<and>
    map msg_nonce (committed_in (um_events s3) @ message_queue (um s3)) = accepted_in (um_events s3) \<and>
    map unat (accepted_in (um_events s3)) = [1, 2]"
proof -
  obtain s1 where s1: "submit demo_config (Some 1) Lock [9] demo_state = Ok 1 s1" "nonce (um s1) = 1" "interval (um s1) = 5"
    "message_queue (um s1) = [\<lparr>msg_nonce = 1, msg_payload_type = Lock, msg_payload = [9]\<rparr>]"
    by (simp add: submit_eq queue_full_def too_large_def demo_simps accept_message_def)
  obtain s2 where s2: "on_initialize demo_config 5 s1 = Ok 13 s2" "nonce (um s2) = 1" "message_queue (um s2) = []"
    using s1(2-4) by (simp add: on_initialize_eq commit_eq committed_state_def Let_def average_payload_size_def
        demo_config_def demo_um_config_def)
  obtain s3 where s3: "submit demo_config (Some 1) Lock [8] s2 = Ok 2 s3" "nonce (um s3) = 2"
    using s2(2,3) by (simp add: submit_eq queue_full_def too_large_def demo_config_def demo_um_config_def)
  have "um_reachable demo_config demo_state"
    by (rule um_reachable.start [of _ 5]) (simp_all add: demo_simps um_empty_def um_events_def)
  then have "um_reachable demo_config s3"
    using s1(1) s2(1) s3(1) by (meson um_reachable.step um_step.accepted um_step.new_block)
  from queue_invariant_reachable [OF this] show ?thesis
    using s1(1) s2(1) s3 by (intro exI [of _ s1] exI [of _ s2] exI [of _ s3]) (simp add: upt_rec)
qed

text \<open>
  C38. on_initialize panics exactly when the interval is zero, so a chain built with the default genesis
  configuration panics at the start of every block.
\<close>

theorem on_initialize_panics_iff:
  "(on_initialize c now s = Panic \<longleftrightarrow> interval (um s) = 0) \<and>
   bind (um_genesis_build um_default_genesis_interval) (\<lambda>_. on_initialize c now) s = Panic"
  by (simp add: on_initialize_eq commit_eq um_genesis_build_def um_default_genesis_interval_def bind_def modify_def)

text \<open>
  A commitment of a non-empty queue empties it and publishes it under the hash of its encoding: the
  hash in the digest, hash and messages in a Committed event, and the encoding in the offchain index under
  the hash.
\<close>

theorem commit_publishes_queue:
  assumes "message_queue (um s) \<noteq> []"
  shows "\<exists>avg. commit c s =
      Ok (weight_on_initialize (um_cfg c) (word_of_nat (length (message_queue (um s)))) avg)
       (s\<lparr>um := (um s)\<lparr>message_queue := []\<rparr>,
          digest_logs := digest_logs s @
            [hash_bytes (um_cfg c) (encode_messages (um_cfg c) (message_queue (um s)))],
          events := events s @ [UmEvent (Committed
            (hash_bytes (um_cfg c) (encode_messages (um_cfg c) (message_queue (um s)))) (message_queue (um s)))],
          offchain_index := offchain_index s @
            [(hash_bytes (um_cfg c) (encode_messages (um_cfg c) (message_queue (um s))),
              encode_messages (um_cfg c) (message_queue (um s)))]\<rparr>) \<and>
    average_payload_size (message_queue (um s)) = Some avg"
  using assms average_payload_size_Some [OF assms]
  by (auto simp: commit_eq committed_state_def Let_def)

theorem commit_publishes_queue_witness:
  "\<exists>s. message_queue (um s) = [\<lparr>msg_nonce = 1, msg_payload_type = Lock, msg_payload = [7, 8, 9]\<rparr>] \<and>
    commit demo_config s = Ok 15
      (s\<lparr>um := (um s)\<lparr>message_queue := []\<rparr>, digest_logs := [[7, 8]],
         events := [UmEvent (Committed [7, 8] (message_queue (um s)))], offchain_index := [([7, 8], [7, 8, 9])]\<rparr>)"
proof -
  let ?s = "demo_state\<lparr>um := demo_um0\<lparr>message_queue :=
    [\<lparr>msg_nonce = 1, msg_payload_type = Lock, msg_payload = [7, 8, 9]\<rparr>]\<rparr>\<rparr>"
  show ?thesis
    using commit_publishes_queue [of ?s demo_config]
    by (intro exI [of _ ?s]) (simp add: demo_config_def demo_um_config_def average_payload_size_def, simp add: demo_state_def)
qed

end
