(* ===== verification/Bridge.thy ===== *)
theory Bridge
  imports UpwardMessages
begin

text \<open>
  The pallet \<open>bridge\<close> (\<open>bridge/src/lib.rs\<close>, \<open>token.rs\<close>, \<open>nep141.rs\<close>, \<open>nonfungible.rs\<close>, \<open>migration.rs\<close>):
  transfers between the appchain and the mainchain, their fees, and the map from token ids of the
  mainchain to asset ids.
\<close>

section \<open>Storage\<close>

definition modify_bridge :: "(('a, 'b) bridge_state \<Rightarrow> ('a, 'b) bridge_state) \<Rightarrow> ('a, 'b, 'x, unit) call" where
  "modify_bridge f = modify (\<lambda>s. s\<lparr>bridge := f (bridge s)\<rparr>)"

declare modify_bridge_def [op_simps]

lemma modify_bridge_iff [op_inv]:
  "modify_bridge f s = Ok y t \<longleftrightarrow> t = s\<lparr>bridge := f (bridge s)\<rparr>"
  "modify_bridge f s \<noteq> Err e t" "modify_bridge f s \<noteq> Panic"
  by (auto simp: modify_bridge_def modify_def)

lemma preserves_modify_bridge [preserves_rules]:
  "(\<And>s. P s \<Longrightarrow> P (s\<lparr>bridge := f (bridge s)\<rparr>)) \<Longrightarrow> preserves P (modify_bridge f)"
  by (rule preservesI) (auto simp: modify_bridge_iff)

definition insert_asset_id :: "bytes \<Rightarrow> asset_id \<Rightarrow> ('a, 'b) bridge_state \<Rightarrow> ('a, 'b) bridge_state" where
  "insert_asset_id token_id asset_id b =
     b\<lparr>asset_id_by_token_id := AList.update token_id asset_id (asset_id_by_token_id b)\<rparr>"

section \<open>\<open>TokenIdAndAssetIdProvider\<close>\<close>

definition try_get_asset_id :: "('a, 'b, 'x) runtime \<Rightarrow> bytes \<Rightarrow> bridge_error + asset_id" where
  "try_get_asset_id s token_id =
     (case map_of (asset_id_by_token_id (bridge s)) token_id of Some i \<Rightarrow> Inr i | None \<Rightarrow> Inl NoTokenId)"

definition try_get_token_id :: "('a, 'b, 'x) config \<Rightarrow> ('a, 'b, 'x) runtime \<Rightarrow> asset_id \<Rightarrow> bridge_error + bytes" where
  "try_get_token_id c s asset_id =
     (case find (\<lambda>p. snd p = asset_id)
             (storage_iter (token_order (bridge_cfg c)) (asset_id_by_token_id (bridge s))) of
        Some p \<Rightarrow> Inr (fst p) | None \<Rightarrow> Inl NoAssetId)"

section \<open>Genesis and migration\<close>

definition bridge_genesis_build :: "('a, 'b, 'x) config \<Rightarrow> u128 \<Rightarrow> (rust_string \<times> asset_id) list
    \<Rightarrow> ('a, 'b, 'x, unit) call" where
  "bridge_genesis_build c premined_amount asset_ids =
     bind (unwrap (balance_from_u128 (bridge_cfg c) premined_amount)) (\<lambda>amount.
     bind (if balance_le (bridge_cfg c) (currency_minimum_balance (bridge_cfg c)) amount then
             modify (\<lambda>s. s\<lparr>ext := currency_make_free_balance_be (bridge_cfg c)
                              (bridge_account (bridge_cfg c)) amount (ext s)\<rparr>)
           else ret ()) (\<lambda>_.
     for_each (\<lambda>(token_id, asset_id). modify_bridge (insert_asset_id token_id asset_id)) asset_ids))"

definition bridge_migration_to_v1 :: "('a, 'b, 'x) config \<Rightarrow> ('a, 'b, 'x, u64) call" where
  "bridge_migration_to_v1 c =
     bind (gets (\<lambda>s. legacy_asset_ids (bridge_cfg c) (ext s))) (\<lambda>old.
     bind (modify (\<lambda>s. s\<lparr>ext := drain_legacy_asset_ids (bridge_cfg c) (ext s)\<rparr>)) (\<lambda>_.
     bind (for_each (\<lambda>(token_id, asset_id). modify_bridge (insert_asset_id token_id asset_id)) old) (\<lambda>_.
     ret (word_of_nat (length old)))))"

definition bridge_on_runtime_upgrade :: "('a, 'b, 'x) config \<Rightarrow> ('a, 'b, 'x, weight) call" where
  "bridge_on_runtime_upgrade c =
     bind (gets (\<lambda>s. bridge_storage_version (bridge s))) (\<lambda>onchain.
     if bridge_current_storage_version = 1 \<and> onchain = 0 then
       bind (bridge_migration_to_v1 c) (\<lambda>translated.
       bind (modify_bridge (\<lambda>b. b\<lparr>bridge_storage_version := bridge_current_storage_version\<rparr>)) (\<lambda>_.
       ret (db_reads_writes c (translated + 1) (translated + 1))))
     else ret (db_reads_writes c 1 0))"

section \<open>Fees\<close>

text \<open>
  \<open>calculate_quantity_of_native_tokens\<close>; \<open>None\<close> is the panic of the division by a price of zero.
  A \<open>Perbill\<close> is its number of parts per billion.
\<close>

definition calculate_quantity_of_native_tokens :: "('a, 'b, 'x) bridge_config \<Rightarrow> ('a, 'b) bridge_state
    \<Rightarrow> u64 \<Rightarrow> u64 \<Rightarrow> (u64 \<times> u32) option" where
  "calculate_quantity_of_native_tokens c b near native =
     (if native = 0 then None else
      let integer = (if near \<ge> native then near div native else 0);
          remain = near mod native;
          fraction = perbill_from_rational c remain native;
          value1 = integer * ucast (coef b);
          integer1 = (if value1 \<ge> 100 then value1 div 100 else 0)
      in if integer1 \<ge> threshold c then Some (threshold c, 0)
         else
           let remain1 = value1 mod 100;
               fraction1 = perbill_from_rational c remain1 100;
               fraction2 = perbill_mul c fraction (perbill_from_rational c (ucast (coef b)) 100)
           in Some (integer1, perbill_add c fraction1 fraction2))"

definition calculate_and_update_fee :: "('a, 'b, 'x) config \<Rightarrow> u64 \<Rightarrow> u64 \<Rightarrow> ('a, 'b, 'x, unit) call" where
  "calculate_and_update_fee c near native =
     bind (gets (\<lambda>s. calculate_quantity_of_native_tokens (bridge_cfg c) (bridge s) near native)) (\<lambda>quantity.
     bind (unwrap quantity) (\<lambda>(integer, fraction).
     (let fee_integer = native_token_decimals (bridge_cfg c) * ucast integer;
          fee_fraction = native_token_decimals (bridge_cfg c) * ucast fraction div 1000000000 in
      bind (ok_or (balance_from_u128 (bridge_cfg c) (fee_integer + fee_fraction))
              (BridgeError InvalidFeeMakeOverflow)) (\<lambda>ft_fee.
      (let nft_fee = ft_fee in
       bind (modify_bridge (\<lambda>b. b\<lparr>crosschain_transfer_fee :=
               (crosschain_transfer_fee b)(Fungible \<mapsto> Some ft_fee)\<rparr>)) (\<lambda>_.
       modify_bridge (\<lambda>b. b\<lparr>crosschain_transfer_fee :=
               (crosschain_transfer_fee b)(Nonfungible \<mapsto> Some nft_fee)\<rparr>)))))))"

text \<open>
  The fee of a transfer: the stored one, zero when there is none. \<open>do_lock_nonfungible_transfer_fee\<close>
  differs in the key; its argument for the length of the metadata is only logged.
\<close>

definition stored_fee :: "('a, 'b, 'x) config \<Rightarrow> cross_chain_transfer_type \<Rightarrow> ('a, 'b) bridge_state \<Rightarrow> 'b option" where
  "stored_fee c k b =
     (case crosschain_transfer_fee b k of Some v \<Rightarrow> v | None \<Rightarrow> balance_from_u128 (bridge_cfg c) 0)"

definition do_lock_fungible_transfer_fee :: "('a, 'b, 'x) config \<Rightarrow> 'a \<Rightarrow> ('a, 'b, 'x, 'b) call" where
  "do_lock_fungible_transfer_fee c sender =
     bind (gets (\<lambda>s. stored_fee c Fungible (bridge s))) (\<lambda>stored.
     bind (unwrap stored) (\<lambda>fee.
     bind (map_err (\<lambda>_. BridgeError NotEnoughBalanceForDeductionFee)
             (on_ext (currency_transfer (bridge_cfg c) sender (bridge_account (bridge_cfg c)) fee AllowDeath))) (\<lambda>_.
     ret fee)))"

definition do_lock_nonfungible_transfer_fee :: "('a, 'b, 'x) config \<Rightarrow> 'a \<Rightarrow> u32 \<Rightarrow> ('a, 'b, 'x, 'b) call" where
  "do_lock_nonfungible_transfer_fee c sender metadata_length =
     bind (gets (\<lambda>s. stored_fee c Nonfungible (bridge s))) (\<lambda>stored.
     bind (unwrap stored) (\<lambda>fee.
     bind (map_err (\<lambda>_. BridgeError NotEnoughBalanceForDeductionFee)
             (on_ext (currency_transfer (bridge_cfg c) sender (bridge_account (bridge_cfg c)) fee AllowDeath))) (\<lambda>_.
     ret fee)))"

section \<open>Native tokens (\<open>token.rs\<close>)\<close>

definition do_lock :: "('a, 'b, 'x) config \<Rightarrow> 'a \<Rightarrow> bytes \<Rightarrow> 'b \<Rightarrow> ('a, 'b, 'x, unit) call" where
  "do_lock c sender receiver_bytes amount =
     bind (ok_or (from_utf8 receiver_bytes) (BridgeError InvalidReceiverId)) (\<lambda>receiver_id.
     bind (ok_or (balance_into_u128 (bridge_cfg c) amount) (BridgeError AmountOverflow)) (\<lambda>amount_wrapped.
     bind (do_lock_fungible_transfer_fee c sender) (\<lambda>fee.
     bind (ok_or (balance_into_u128 (bridge_cfg c) fee) (BridgeError AmountOverflow)) (\<lambda>fee_wrapped.
     bind (on_ext (currency_transfer (bridge_cfg c) sender (bridge_account (bridge_cfg c)) amount AllowDeath)) (\<lambda>_.
     (let hex_sender = hex_format c (account_encode c sender);
          message = LockPayload \<lparr>lock_sender = hex_sender, lock_receiver_id = receiver_id,
                      lock_amount = amount_wrapped, lock_fee = fee_wrapped\<rparr> in
      bind (ok_or (try_to_vec c message) (BridgeError BorshSerializeFailed)) (\<lambda>payload.
      bind (submit c (Some sender) Lock payload) (\<lambda>sequence.
      deposit_event (BridgeEvent (Locked sender receiver_id amount fee sequence))))))))))"

definition do_unlock :: "('a, 'b, 'x) config \<Rightarrow> bytes \<Rightarrow> 'a \<Rightarrow> u128 \<Rightarrow> u32 \<Rightarrow> ('a, 'b, 'x, unit) call" where
  "do_unlock c sender_id receiver amount sequence =
     bind (ok_or (balance_from_u128 (bridge_cfg c) amount) (BridgeError AmountOverflow)) (\<lambda>amount_unwrapped.
     bind (on_ext (currency_transfer (bridge_cfg c) (bridge_account (bridge_cfg c)) receiver amount_unwrapped
             KeepAlive)) (\<lambda>_.
     deposit_event (BridgeEvent (Unlocked sender_id receiver amount_unwrapped sequence))))"

section \<open>NEP-141 assets (\<open>nep141.rs\<close>)\<close>

definition do_burn_nep141 :: "('a, 'b, 'x) config \<Rightarrow> asset_id \<Rightarrow> 'a \<Rightarrow> bytes \<Rightarrow> u128 \<Rightarrow> ('a, 'b, 'x, unit) call" where
  "do_burn_nep141 c asset_id sender receiver_bytes amount =
     bind (ok_or (from_utf8 receiver_bytes) (BridgeError InvalidReceiverId)) (\<lambda>receiver_id.
     bind (gets (\<lambda>s. try_get_token_id c s asset_id)) (\<lambda>found.
     bind (result_or found (BridgeError NoAssetId)) (\<lambda>token_bytes.
     bind (ok_or (from_utf8 token_bytes) (BridgeError InvalidTokenId)) (\<lambda>token_id.
     bind (do_lock_fungible_transfer_fee c sender) (\<lambda>fee.
     bind (ok_or (balance_into_u128 (bridge_cfg c) fee) (BridgeError AmountOverflow)) (\<lambda>fee_wrapped.
     bind (on_ext (fungibles_burn_from (bridge_cfg c) asset_id sender amount)) (\<lambda>_.
     (let hex_sender = hex_format c (account_encode c sender);
          message = BurnAssetPayload \<lparr>burn_token_id = token_id, burn_sender = hex_sender,
                      burn_receiver_id = receiver_id, burn_amount = amount, burn_fee = fee_wrapped\<rparr> in
      bind (ok_or (try_to_vec c message) (BridgeError BorshSerializeFailed)) (\<lambda>payload.
      bind (submit c (Some sender) BurnAsset payload) (\<lambda>sequence.
      deposit_event (BridgeEvent (Nep141Burned asset_id sender receiver_id amount fee sequence))))))))))))"

definition do_mint_nep141 :: "('a, 'b, 'x) config \<Rightarrow> bytes \<Rightarrow> bytes \<Rightarrow> 'a \<Rightarrow> u128 \<Rightarrow> u32 \<Rightarrow> ('a, 'b, 'x, unit) call" where
  "do_mint_nep141 c token_id sender_id receiver amount sequence =
     bind (gets (\<lambda>s. try_get_asset_id s token_id)) (\<lambda>found.
     bind (result_or found (BridgeError NoTokenId)) (\<lambda>asset_id.
     bind (ok_or (checked_into amount) (BridgeError AmountOverflow)) (\<lambda>amount_unwrapped.
     bind (on_ext (fungibles_mint_into (bridge_cfg c) asset_id receiver amount_unwrapped)) (\<lambda>_.
     deposit_event (BridgeEvent (Nep141Minted asset_id sender_id receiver amount_unwrapped sequence))))))"

section \<open>Items (\<open>nonfungible.rs\<close>)\<close>

definition do_lock_nonfungible :: "('a, 'b, 'x) config \<Rightarrow> u128 \<Rightarrow> u128 \<Rightarrow> 'a \<Rightarrow> bytes \<Rightarrow> ('a, 'b, 'x, unit) call" where
  "do_lock_nonfungible c collection item sender receiver_bytes =
     bind (ok_or (from_utf8 receiver_bytes) (BridgeError InvalidReceiverId)) (\<lambda>receiver_id.
     bind (gets (\<lambda>s. convert_into_nep171_metadata (bridge_cfg c) collection item (ext s))) (\<lambda>converted.
     bind (ok_or converted (BridgeError ConvertorNotImplement)) (\<lambda>metadata.
     bind (ok_or (try_to_vec c (MetadataOnly metadata)) (BridgeError BorshSerializeFailed)) (\<lambda>data_in_vec.
     bind (do_lock_nonfungible_transfer_fee c sender (word_of_nat (length data_in_vec))) (\<lambda>fee.
     bind (ok_or (balance_into_u128 (bridge_cfg c) fee) (BridgeError AmountOverflow)) (\<lambda>fee_wrapped.
     bind (on_ext (nonfungibles_transfer (bridge_cfg c) collection item (bridge_account (bridge_cfg c)))) (\<lambda>_.
     (let hex_sender = hex_format c (account_encode c sender);
          message = LockNftPayload \<lparr>nft_sender = hex_sender, nft_receiver_id = receiver_id,
                      nft_collection = collection, nft_item = item, nft_metadata = metadata,
                      nft_fee = fee_wrapped\<rparr> in
      bind (ok_or (try_to_vec c message) (BridgeError BorshSerializeFailed)) (\<lambda>payload.
      bind (submit c (Some sender) LockNft payload) (\<lambda>sequence.
      deposit_event (BridgeEvent (NonfungibleLocked collection item sender receiver_id fee sequence))))))))))))"

definition do_unlock_nonfungible :: "('a, 'b, 'x) config \<Rightarrow> u128 \<Rightarrow> u128 \<Rightarrow> bytes \<Rightarrow> 'a \<Rightarrow> u32
    \<Rightarrow> ('a, 'b, 'x, unit) call" where
  "do_unlock_nonfungible c collection_id item_id sender_id receiver sequence =
     bind (ok_or (checked_into collection_id) (BridgeError CollectionOverflow)) (\<lambda>collection.
     bind (ok_or (checked_into item_id) (BridgeError ItemOverflow)) (\<lambda>item.
     bind (on_ext (nonfungibles_transfer (bridge_cfg c) collection item receiver)) (\<lambda>_.
     deposit_event (BridgeEvent (NonfungibleUnlocked collection item sender_id receiver sequence)))))"

section \<open>\<open>BridgeInterface\<close>\<close>

definition unlock :: "('a, 'b, 'x) config \<Rightarrow> bytes \<Rightarrow> 'a \<Rightarrow> u128 \<Rightarrow> u32 \<Rightarrow> ('a, 'b, 'x, unit) call" where
  "unlock c sender_id receiver amount sequence = do_unlock c sender_id receiver amount sequence"

definition mint_nep141 :: "('a, 'b, 'x) config \<Rightarrow> bytes \<Rightarrow> bytes \<Rightarrow> 'a \<Rightarrow> u128 \<Rightarrow> u32 \<Rightarrow> ('a, 'b, 'x, unit) call" where
  "mint_nep141 c token_id sender_id receiver amount sequence =
     do_mint_nep141 c token_id sender_id receiver amount sequence"

definition unlock_nonfungible :: "('a, 'b, 'x) config \<Rightarrow> u128 \<Rightarrow> u128 \<Rightarrow> bytes \<Rightarrow> 'a \<Rightarrow> u32 \<Rightarrow> ('a, 'b, 'x, unit) call" where
  "unlock_nonfungible c collection item sender_id receiver sequence =
     do_unlock_nonfungible c collection item sender_id receiver sequence"

section \<open>Calls\<close>

definition ensure_activated :: "('a, 'b, 'x, unit) call" where
  "ensure_activated = bind (gets (\<lambda>s. is_activated (app s))) (\<lambda>b. ensure b (BridgeError NotActivated))"

definition lock :: "('a, 'b, 'x) config \<Rightarrow> 'a origin \<Rightarrow> bytes \<Rightarrow> 'b \<Rightarrow> ('a, 'b, 'x, unit) call" where
  "lock c org receiver_id amount = transactional (
     bind (ensure_signed org) (\<lambda>sender.
     bind ensure_activated (\<lambda>_.
     do_lock c sender receiver_id amount)))"

definition burn_nep141 :: "('a, 'b, 'x) config \<Rightarrow> 'a origin \<Rightarrow> asset_id \<Rightarrow> bytes \<Rightarrow> u128 \<Rightarrow> ('a, 'b, 'x, unit) call" where
  "burn_nep141 c org asset_id receiver_id amount = transactional (
     bind (ensure_signed org) (\<lambda>sender.
     bind ensure_activated (\<lambda>_.
     do_burn_nep141 c asset_id sender receiver_id amount)))"

definition lock_nonfungible :: "('a, 'b, 'x) config \<Rightarrow> 'a origin \<Rightarrow> u128 \<Rightarrow> u128 \<Rightarrow> bytes \<Rightarrow> ('a, 'b, 'x, unit) call" where
  "lock_nonfungible c org collection_id item_id receiver_id = transactional (
     bind (ensure_signed org) (\<lambda>sender.
     bind ensure_activated (\<lambda>_.
     do_lock_nonfungible c collection_id item_id sender receiver_id)))"

definition set_token_id :: "('a, 'b, 'x) config \<Rightarrow> 'a origin \<Rightarrow> bytes \<Rightarrow> asset_id \<Rightarrow> ('a, 'b, 'x, unit) call" where
  "set_token_id c org token_id asset_id =
     bind (ensure_root org) (\<lambda>_.
     bind ensure_activated (\<lambda>_.
     bind (gets (\<lambda>s. asset_id_by_token_id (bridge s))) (\<lambda>m.
     bind (ensure (map_of m token_id = None) (BridgeError TokenIdInUse)) (\<lambda>_.
     (let asset = find (\<lambda>p. snd p = asset_id) (storage_iter (token_order (bridge_cfg c)) m) in
      if asset \<noteq> None then fail (BridgeError AssetIdInUse)
      else modify_bridge (insert_asset_id token_id asset_id))))))"

definition delete_token_id :: "'a origin \<Rightarrow> bytes \<Rightarrow> ('a, 'b, 'x, unit) call" where
  "delete_token_id org token_id =
     bind (ensure_root org) (\<lambda>_.
     bind (gets (\<lambda>s. asset_id_by_token_id (bridge s))) (\<lambda>m.
     bind (ensure (map_of m token_id \<noteq> None) (BridgeError TokenIdNotExist)) (\<lambda>_.
     modify_bridge (\<lambda>b. b\<lparr>asset_id_by_token_id := AList.delete token_id (asset_id_by_token_id b)\<rparr>))))"

definition force_unlock :: "('a, 'b, 'x) config \<Rightarrow> 'a origin \<Rightarrow> dispatch_error + 'a \<Rightarrow> 'b \<Rightarrow> ('a, 'b, 'x, unit) call" where
  "force_unlock c org dest amount =
     bind (ensure_root org) (\<lambda>_.
     bind (lookup dest) (\<lambda>who.
     bind (on_ext (currency_transfer (bridge_cfg c) (bridge_account (bridge_cfg c)) who amount KeepAlive)) (\<lambda>_.
     deposit_event (BridgeEvent (ForceUnlocked who amount)))))"

definition force_mint_nep141 :: "('a, 'b, 'x) config \<Rightarrow> 'a origin \<Rightarrow> asset_id \<Rightarrow> dispatch_error + 'a \<Rightarrow> u128
    \<Rightarrow> ('a, 'b, 'x, unit) call" where
  "force_mint_nep141 c org asset_id dest amount =
     bind (ensure_root org) (\<lambda>_.
     bind (lookup dest) (\<lambda>who.
     bind (on_ext (fungibles_mint_into (bridge_cfg c) asset_id who amount)) (\<lambda>_.
     deposit_event (BridgeEvent (ForceNep141Minted asset_id who amount)))))"

definition force_unlock_nonfungible :: "('a, 'b, 'x) config \<Rightarrow> 'a origin \<Rightarrow> dispatch_error + 'a \<Rightarrow> u128 \<Rightarrow> u128
    \<Rightarrow> ('a, 'b, 'x, unit) call" where
  "force_unlock_nonfungible c org dest collection item =
     bind (ensure_root org) (\<lambda>_.
     bind (lookup dest) (\<lambda>who.
     bind (on_ext (nonfungibles_transfer (bridge_cfg c) collection item who)) (\<lambda>_.
     deposit_event (BridgeEvent (ForceNonfungibleUnlocked collection item who)))))"

definition set_oracle_account :: "'a origin \<Rightarrow> dispatch_error + 'a \<Rightarrow> ('a, 'b, 'x, unit) call" where
  "set_oracle_account org dest =
     bind (ensure_root org) (\<lambda>_.
     bind (lookup dest) (\<lambda>who.
     bind (modify_bridge (\<lambda>b. b\<lparr>oracle_account := Some who\<rparr>)) (\<lambda>_.
     deposit_event (BridgeEvent (OracleAccountHasBeenSet who)))))"

definition set_token_price :: "('a, 'b, 'x) config \<Rightarrow> 'a origin \<Rightarrow> u64 \<Rightarrow> u64 \<Rightarrow> ('a, 'b, 'x, unit) call" where
  "set_token_price c org near native =
     bind (ensure_signed org) (\<lambda>who.
     bind (ensure (near \<noteq> 0) (BridgeError NearPriceSetedIsZero)) (\<lambda>_.
     bind (ensure (native \<noteq> 0) (BridgeError NativeTokenPriceSetedIsZero)) (\<lambda>_.
     bind (gets (\<lambda>s. oracle_account (bridge s))) (\<lambda>stored.
     bind (ok_or stored (BridgeError NoOracleAccount)) (\<lambda>oracle.
     bind (ensure (who = oracle) (BridgeError UpdatePriceWithNoPermissionAccount)) (\<lambda>_.
     bind (modify_bridge (\<lambda>b. b\<lparr>token_price := Some native\<rparr>)) (\<lambda>_.
     bind (modify_bridge (\<lambda>b. b\<lparr>near_price := Some near\<rparr>)) (\<lambda>_.
     bind (calculate_and_update_fee c near native) (\<lambda>_.
     deposit_event (BridgeEvent (PriceUpdated who near native)))))))))))"

definition set_coef_for_calculate_fee :: "'a origin \<Rightarrow> u32 \<Rightarrow> ('a, 'b, 'x, unit) call" where
  "set_coef_for_calculate_fee org new_coef =
     bind (ensure_root org) (\<lambda>_.
     bind (ensure (new_coef > 0 \<and> new_coef \<le> 100) (BridgeError InvalidCoef)) (\<lambda>_.
     bind (modify_bridge (\<lambda>b. b\<lparr>coef := new_coef\<rparr>)) (\<lambda>_.
     deposit_event (BridgeEvent (CoefUpdated new_coef)))))"

end
