(* ===== verification/Bridge_Tokens.thy ===== *)
theory Bridge_Tokens
  imports Bridge Demo
begin

text \<open>
  The calls of the bridge as one type, their invariants, and the map from token ids to asset ids:
  it stays injective in both directions, so what leaves as an asset comes back as the same asset.
\<close>

section \<open>The calls\<close>

text \<open>The dispatchable functions of \<open>#[pallet::call]\<close>, with their arguments.\<close>

datatype ('a, 'b) bridge_call =
    CallLock bytes 'b
  | CallBurnNep141 asset_id bytes u128
  | CallLockNonfungible u128 u128 bytes
  | CallSetTokenId bytes asset_id
  | CallDeleteTokenId bytes
  | CallForceUnlock "dispatch_error + 'a" 'b
  | CallForceMintNep141 asset_id "dispatch_error + 'a" u128
  | CallForceUnlockNonfungible "dispatch_error + 'a" u128 u128
  | CallSetOracleAccount "dispatch_error + 'a"
  | CallSetTokenPrice u64 u64
  | CallSetCoef u32

fun bridge_dispatch :: "('a, 'b, 'x) config \<Rightarrow> 'a origin \<Rightarrow> ('a, 'b) bridge_call \<Rightarrow> ('a, 'b, 'x, unit) call" where
  "bridge_dispatch c org (CallLock r a) = lock c org r a"
| "bridge_dispatch c org (CallBurnNep141 i r a) = burn_nep141 c org i r a"
| "bridge_dispatch c org (CallLockNonfungible col i r) = lock_nonfungible c org col i r"
| "bridge_dispatch c org (CallSetTokenId t i) = set_token_id c org t i"
| "bridge_dispatch c org (CallDeleteTokenId t) = delete_token_id org t"
| "bridge_dispatch c org (CallForceUnlock w a) = force_unlock c org w a"
| "bridge_dispatch c org (CallForceMintNep141 i w a) = force_mint_nep141 c org i w a"
| "bridge_dispatch c org (CallForceUnlockNonfungible w col i) = force_unlock_nonfungible c org w col i"
| "bridge_dispatch c org (CallSetOracleAccount w) = set_oracle_account org w"
| "bridge_dispatch c org (CallSetTokenPrice near native) = set_token_price c org near native"
| "bridge_dispatch c org (CallSetCoef k) = set_coef_for_calculate_fee org k"

section \<open>What the calls keep\<close>

lemmas bridge_call_defs = lock_def burn_nep141_def lock_nonfungible_def set_token_id_def delete_token_id_def
  force_unlock_def force_mint_nep141_def force_unlock_nonfungible_def set_oracle_account_def
  set_token_price_def set_coef_for_calculate_fee_def do_lock_def do_burn_nep141_def do_lock_nonfungible_def
  do_lock_fungible_transfer_fee_def do_lock_nonfungible_transfer_fee_def ensure_activated_def
  calculate_and_update_fee_def

lemma submit_bridge: "preserves (\<lambda>s. P (bridge s)) (submit c w t p)"
  by (rule preservesI) (auto simp: submit_Ok_iff accept_message_def Let_def dest: submit_Err_unchanged)

text \<open>A predicate of the bridge storage that the four writes keep is kept by every call.\<close>

lemma bridge_dispatch_keeps:
  assumes ins: "\<And>b t i. P b \<Longrightarrow> map_of (asset_id_by_token_id b) t = None \<Longrightarrow>
      find (\<lambda>p. snd p = i) (storage_iter (token_order (bridge_cfg c)) (asset_id_by_token_id b)) = None \<Longrightarrow>
      P (insert_asset_id t i b)"
    and del: "\<And>b t. P b \<Longrightarrow> P (b\<lparr>asset_id_by_token_id := AList.delete t (asset_id_by_token_id b)\<rparr>)"
    and orac: "\<And>b w. P b \<Longrightarrow> P (b\<lparr>oracle_account := w\<rparr>)"
    and price: "\<And>b n. P b \<Longrightarrow> P (b\<lparr>token_price := n\<rparr>)" "\<And>b n. P b \<Longrightarrow> P (b\<lparr>near_price := n\<rparr>)"
    and fee: "\<And>b k v. P b \<Longrightarrow> P (b\<lparr>crosschain_transfer_fee := (crosschain_transfer_fee b)(k \<mapsto> Some v)\<rparr>)"
    and coef: "\<And>b k. P b \<Longrightarrow> 0 < k \<Longrightarrow> k \<le> 100 \<Longrightarrow> P (b\<lparr>coef := k\<rparr>)"
  shows "preserves (\<lambda>s. P (bridge s)) (bridge_dispatch c org m)"
proof (cases m)
  case (CallSetTokenId t i)
  then show ?thesis
    by (intro preservesI) (auto simp: set_token_id_def ensure_activated_def op_inv Let_def simp del: not_None_eq intro: ins split: if_splits)
next
  case (CallSetCoef k)
  then show ?thesis
    by (intro preservesI) (auto simp: set_coef_for_calculate_fee_def op_inv intro: coef)
next
  case (CallSetTokenPrice near native)
  show ?thesis
    unfolding CallSetTokenPrice bridge_dispatch.simps set_token_price_def calculate_and_update_fee_def Let_def
    by (intro preserves_rules; auto intro: price fee)
qed (simp_all only: bridge_dispatch.simps bridge_call_defs Let_def,
     (intro preserves_rules submit_bridge; auto intro: orac del)+)

section \<open>The token map\<close>

definition token_map_ok :: "('a, 'b) bridge_state \<Rightarrow> bool" where
  "token_map_ok b \<longleftrightarrow> distinct (map fst (asset_id_by_token_id b)) \<and> distinct (map snd (asset_id_by_token_id b))"

lemma find_asset_None:
  assumes "storage_order ord" "distinct (map fst m)"
  shows "find (\<lambda>p. snd p = i) (storage_iter ord m) = None \<longleftrightarrow> i \<notin> snd ` set m"
  using set_storage_iter [OF assms] by (force simp: find_None_iff)

lemma distinct_snd_update:
  "map_of m t = None \<Longrightarrow> i \<notin> snd ` set m \<Longrightarrow> distinct (map snd m) \<Longrightarrow> distinct (map snd (AList.update t i m))"
proof (induction m)
  case (Cons p m)
  have "snd ` set (AList.update t i m) \<subseteq> insert i (snd ` set m)" for m
    by (induction m) auto
  then show ?case using Cons by (cases p) (auto split: if_splits)
qed simp

lemma distinct_snd_delete: "distinct (map snd m) \<Longrightarrow> distinct (map snd (AList.delete t m))"
  by (induction m) (auto simp: AList.delete_eq)

lemma token_map_ok_writes:
  "token_map_ok (b\<lparr>oracle_account := w\<rparr>) = token_map_ok b"
  "token_map_ok (b\<lparr>token_price := n\<rparr>) = token_map_ok b"
  "token_map_ok (b\<lparr>near_price := n\<rparr>) = token_map_ok b"
  "token_map_ok (b\<lparr>crosschain_transfer_fee := f\<rparr>) = token_map_ok b"
  "token_map_ok (b\<lparr>coef := k\<rparr>) = token_map_ok b"
  by (simp_all add: token_map_ok_def)

lemma token_map_ok_insert:
  assumes "storage_order (token_order (bridge_cfg c))" "token_map_ok b"
    "map_of (asset_id_by_token_id b) t = None"
    "find (\<lambda>p. snd p = i) (storage_iter (token_order (bridge_cfg c)) (asset_id_by_token_id b)) = None"
  shows "token_map_ok (insert_asset_id t i b)"
  using assms find_asset_None [OF assms(1), of "asset_id_by_token_id b" i]
  by (simp add: token_map_ok_def insert_asset_id_def distinct_update distinct_snd_update)

lemma token_map_ok_delete:
  "token_map_ok b \<Longrightarrow> token_map_ok (b\<lparr>asset_id_by_token_id := AList.delete t (asset_id_by_token_id b)\<rparr>)"
  by (simp add: token_map_ok_def distinct_delete distinct_snd_delete)

lemma token_map_ok_dispatch:
  "storage_order (token_order (bridge_cfg c)) \<Longrightarrow>
   preserves (\<lambda>s. token_map_ok (bridge s)) (bridge_dispatch c org m)"
  by (rule bridge_dispatch_keeps)
    (simp_all add: token_map_ok_writes token_map_ok_insert token_map_ok_delete)

lemma token_id_found:
  assumes "storage_order (token_order (bridge_cfg c))" and "distinct (map fst (asset_id_by_token_id (bridge s)))"
    and "try_get_token_id c s i = Inr t"
  shows "map_of (asset_id_by_token_id (bridge s)) t = Some i"
proof -
  let ?m = "asset_id_by_token_id (bridge s)"
  obtain p where p: "find (\<lambda>p. snd p = i) (storage_iter (token_order (bridge_cfg c)) ?m) = Some p" "t = fst p"
    using assms(3) by (auto simp: try_get_token_id_def split: option.splits)
  then have "p \<in> set (storage_iter (token_order (bridge_cfg c)) ?m)" "snd p = i"
    by (auto simp: find_Some_iff)
  then have "p \<in> set ?m" "p = (t, i)"
    unfolding set_storage_iter [OF assms(1,2)] using p(2) by (simp_all add: prod_eq_iff)
  then show ?thesis by (simp add: map_of_eq_Some_iff [OF assms(2)])
qed

lemma lookups_inverse:
  assumes ord: "storage_order (token_order (bridge_cfg c))" and ok: "token_map_ok (bridge s)"
  shows "try_get_asset_id s t = Inr i \<longleftrightarrow> try_get_token_id c s i = Inr t"
proof -
  let ?m = "asset_id_by_token_id (bridge s)"
  have keys: "distinct (map fst ?m)" and vals: "distinct (map snd ?m)"
    using ok by (simp_all add: token_map_ok_def)
  have "try_get_asset_id s t = Inr i \<longleftrightarrow> map_of ?m t = Some i"
    by (simp add: try_get_asset_id_def split: option.split)
  then have "try_get_asset_id s t = Inr i \<longleftrightarrow> (t, i) \<in> set ?m"
    using map_of_eq_Some_iff [OF keys] by simp
  moreover have "try_get_token_id c s i = Inr t \<longleftrightarrow> (t, i) \<in> set ?m"
  proof (cases "find (\<lambda>p. snd p = i) (storage_iter (token_order (bridge_cfg c)) ?m)")
    case None
    then show ?thesis
      using find_asset_None [OF ord keys, of i] by (force simp: try_get_token_id_def)
  next
    case (Some p)
    then have "p \<in> set (storage_iter (token_order (bridge_cfg c)) ?m)" "snd p = i"
      by (auto simp: find_Some_iff)
    then have p: "p \<in> set ?m" "snd p = i" using set_storage_iter [OF ord keys] by simp_all
    then have "(t, i) \<in> set ?m \<longleftrightarrow> t = fst p"
      using vals by (metis eq_key_imp_eq_value inj_onD distinct_map prod.collapse snd_conv fst_conv)
    then show ?thesis using Some by (auto simp: try_get_token_id_def)
  qed
  ultimately show ?thesis by simp
qed

interpretation tap: token_id_and_asset_id_provider try_get_asset_id "try_get_token_id c"
    "\<lambda>s. storage_order (token_order (bridge_cfg c)) \<and> token_map_ok (bridge s)"
  by unfold_locales (use lookups_inverse in blast)

section \<open>The interface of the appchain pallet\<close>

interpretation bri: bridge_interface "unlock c" "mint_nep141 c" "unlock_nonfungible c"
    "\<lambda>s. (app s, lpos s, um s, bridge s)"
  unfolding unlock_def mint_nep141_def unlock_nonfungible_def do_unlock_def do_mint_nep141_def
    do_unlock_nonfungible_def
  by unfold_locales (intro preserves_rules; simp)+

section \<open>Runs of the bridge\<close>

text \<open>The state of a well-formed bridge: the map is injective, the coefficient is a percentage, fees are present.\<close>

definition bridge_ok :: "('a, 'b) bridge_state \<Rightarrow> bool" where
  "bridge_ok b \<longleftrightarrow> token_map_ok b \<and> 0 < coef b \<and> coef b \<le> 100 \<and>
     (\<forall>k. crosschain_transfer_fee b k \<noteq> Some None)"

text \<open>A block executes its calls in order; a failed call is recorded and the next one runs.\<close>

fun bridge_run :: "('a, 'b, 'x) config \<Rightarrow> ('a origin \<times> ('a, 'b) bridge_call) list \<Rightarrow> ('a, 'b, 'x) runtime
    \<Rightarrow> ('a, 'b, 'x) runtime option" where
  "bridge_run c [] s = Some s"
| "bridge_run c ((org, m) # ms) s =
     (case bridge_dispatch c org m s of
        Ok _ t \<Rightarrow> bridge_run c ms t | Err _ t \<Rightarrow> bridge_run c ms t | Panic \<Rightarrow> None)"

text \<open>The outside pallets return: they do not panic, and zero is a balance.\<close>

definition outside_returns :: "('a, 'b, 'x) bridge_config \<Rightarrow> bool" where
  "outside_returns c \<longleftrightarrow> (\<forall>a b v r x. currency_transfer c a b v r x \<noteq> Panic) \<and>
     (\<forall>i w v x. fungibles_mint_into c i w v x \<noteq> Panic) \<and> (\<forall>i w v x. fungibles_burn_from c i w v x \<noteq> Panic) \<and>
     (\<forall>k i w x. nonfungibles_transfer c k i w x \<noteq> Panic) \<and> balance_from_u128 c 0 \<noteq> None"

lemma bridge_ok_dispatch:
  assumes "storage_order (token_order (bridge_cfg c))"
  shows "preserves (\<lambda>s. bridge_ok (bridge s)) (bridge_dispatch c org m)"
  by (rule bridge_dispatch_keeps)
    (auto simp: bridge_ok_def token_map_ok_writes token_map_ok_delete insert_asset_id_def
      intro: token_map_ok_insert [OF assms, unfolded insert_asset_id_def])

lemma stored_fee_present:
  assumes "outside_returns (bridge_cfg c)" "bridge_ok b"
  shows "\<exists>f. stored_fee c k b = Some f"
  using assms by (cases "crosschain_transfer_fee b k")
    (auto simp: stored_fee_def outside_returns_def bridge_ok_def dest: spec [of _ k])

lemma fee_returns:
  assumes "outside_returns (bridge_cfg c)" "bridge_ok (bridge s)"
  shows "do_lock_fungible_transfer_fee c w s \<noteq> Panic" "do_lock_nonfungible_transfer_fee c w n s \<noteq> Panic"
  using stored_fee_present [OF assms, of Fungible] stored_fee_present [OF assms, of Nonfungible] assms(1)
  by (auto simp: do_lock_fungible_transfer_fee_def do_lock_nonfungible_transfer_fee_def op_inv outside_returns_def)

lemma set_token_price_returns: "set_token_price c org near native s \<noteq> Panic"
  by (auto simp: set_token_price_def calculate_and_update_fee_def calculate_quantity_of_native_tokens_def Let_def
      op_inv split: prod.splits if_splits)

lemma bridge_dispatch_returns:
  assumes out: "outside_returns (bridge_cfg c)" and ok: "bridge_ok (bridge s)"
  shows "bridge_dispatch c org m s \<noteq> Panic"
proof (cases m)
  case (CallSetTokenPrice near native)
  then show ?thesis by (simp add: set_token_price_returns)
next
  case (CallLock r a)
  then show ?thesis
    using out fee_returns [OF assms]
    by (auto simp: lock_def do_lock_def ensure_activated_def op_inv Let_def submit_not_Panic outside_returns_def)
next
  case (CallBurnNep141 i r a)
  then show ?thesis
    using out fee_returns [OF assms]
    by (auto simp: burn_nep141_def do_burn_nep141_def ensure_activated_def op_inv Let_def submit_not_Panic
        outside_returns_def)
next
  case (CallLockNonfungible k i r)
  then show ?thesis
    using out fee_returns [OF assms]
    by (auto simp: lock_nonfungible_def do_lock_nonfungible_def ensure_activated_def op_inv Let_def submit_not_Panic
        outside_returns_def)
qed (use out in \<open>auto simp: bridge_call_defs op_inv Let_def outside_returns_def\<close>)

lemma bridge_run_ok:
  assumes "storage_order (token_order (bridge_cfg c))" "outside_returns (bridge_cfg c)" "bridge_ok (bridge s)"
  shows "\<exists>s'. bridge_run c ms s = Some s' \<and> bridge_ok (bridge s')"
  using assms(3)
proof (induction ms arbitrary: s)
  case (Cons p ms)
  obtain org m where p: "p = (org, m)" by fastforce
  show ?case
  proof (cases "bridge_dispatch c org m s")
    case (Ok u t)
    then show ?thesis
      using Cons.IH [of t] preserves_Ok [OF bridge_ok_dispatch [OF assms(1)] Ok Cons.prems] by (simp add: p)
  next
    case (Err e t)
    then show ?thesis
      using Cons.IH [of t] preserves_Err [OF bridge_ok_dispatch [OF assms(1)] Err Cons.prems] by (simp add: p)
  next
    case Panic
    then show ?thesis using bridge_dispatch_returns [OF assms(2) Cons.prems] by simp
  qed
qed simp

section \<open>Properties\<close>

text \<open>
  C14. Any sequence of bridge calls with any origins and arguments runs without a panic from a well-formed
  state, keeps the state well-formed, and afterwards the lookups from token id to asset id and from asset id
  to token id are inverse to each other.
\<close>

theorem bridge_never_panics_and_keeps_its_map:
  assumes "storage_order (token_order (bridge_cfg c))" and "outside_returns (bridge_cfg c)"
    and "bridge_ok (bridge s)"
  shows "\<exists>s'. bridge_run c calls s = Some s' \<and> bridge_ok (bridge s') \<and>
    (\<forall>t i. try_get_asset_id s' t = Inr i \<longleftrightarrow> try_get_token_id c s' i = Inr t)"
  using bridge_run_ok [OF assms] tap.inverse assms(1) unfolding bridge_ok_def by blast

theorem bridge_never_panics_and_keeps_its_map_witness:
  "\<exists>s'. bridge_run demo_config [(Root, CallSetTokenId [110] 5), (Signed 1, CallSetTokenPrice 3 2), (Root, CallSetTokenId [120] 5)]
       demo_state = Some s' \<and> bridge_ok (bridge s') \<and>
    (\<forall>t i. try_get_asset_id s' t = Inr i \<longleftrightarrow> try_get_token_id demo_config s' i = Inr t)"
  by (rule bridge_never_panics_and_keeps_its_map)
    (auto simp: demo_simps storage_order_def outside_returns_def bridge_ok_def token_map_ok_def
      default_for_coef_def Let_def split: option.split)

text \<open>
  set_token_id fails with BadOrigin, NotActivated, TokenIdInUse or AssetIdInUse, in this order and
  without changing the state, and otherwise adds exactly the new pair to the map.
\<close>

theorem set_token_id_outcome:
  assumes "storage_order (token_order (bridge_cfg c))" and "token_map_ok (bridge s)"
  shows "set_token_id c org t i s =
    (if org \<noteq> Root then Err BadOrigin s
     else if \<not> is_activated (app s) then Err (BridgeError NotActivated) s
     else if t \<in> fst ` set (asset_id_by_token_id (bridge s)) then Err (BridgeError TokenIdInUse) s
     else if i \<in> snd ` set (asset_id_by_token_id (bridge s)) then Err (BridgeError AssetIdInUse) s
     else Ok () (s\<lparr>bridge := (bridge s)\<lparr>asset_id_by_token_id := asset_id_by_token_id (bridge s) @ [(t, i)]\<rparr>\<rparr>))"
proof -
  have "t \<notin> fst ` set m \<Longrightarrow> AList.update t i m = m @ [(t, i)]" for m :: "(bytes \<times> asset_id) list"
    by (induction m) auto
  then show ?thesis
    using find_asset_None [OF assms(1), of "asset_id_by_token_id (bridge s)" i] assms(2)
    by (cases org) (simp_all add: set_token_id_def ensure_activated_def op_simps Let_def token_map_ok_def
        insert_asset_id_def map_of_eq_None_iff del: not_None_eq)
qed

theorem set_token_id_outcome_witness:
  "set_token_id demo_config Root [110] 5 demo_state =
     Ok () (demo_state\<lparr>bridge := demo_bridge0\<lparr>asset_id_by_token_id := [([110], 5)]\<rparr>\<rparr>)"
  by (subst set_token_id_outcome) (simp_all add: demo_simps storage_order_def token_map_ok_def)

text \<open>
  C23. An asset burned towards the mainchain is announced under a token id that, when it comes back in a
  mint, mints that same asset id, whatever has changed in the bridge's storage except the lookup from token
  ids to asset ids, in whatever order that storage map is iterated and even if several token ids share an
  asset id.
\<close>

theorem burned_asset_returns_as_itself:
  assumes "storage_order (token_order (bridge_cfg c))" and "distinct (map fst (asset_id_by_token_id (bridge s)))"
    and "do_burn_nep141 c i w r a s = Ok () s1"
    and "map_of (asset_id_by_token_id (bridge s2)) = map_of (asset_id_by_token_id (bridge s1))"
  shows "\<exists>t payload fee. try_get_token_id c s i = Inr t \<and>
    try_to_vec c (BurnAssetPayload \<lparr>burn_token_id = t, burn_sender = hex_format c (account_encode c w),
      burn_receiver_id = r, burn_amount = a, burn_fee = fee\<rparr>) = Some payload \<and>
    message_queue (um s1) = message_queue (um s) @
      [\<lparr>msg_nonce = nonce (um s1), msg_payload_type = BurnAsset, msg_payload = payload\<rparr>] \<and>
    do_mint_nep141 c t sender v b n s2 =
      bind (on_ext (fungibles_mint_into (bridge_cfg c) i v b))
        (\<lambda>_. deposit_event (BridgeEvent (Nep141Minted i sender v b n))) s2"
proof -
  obtain t payload fee where b: "try_get_token_id c s i = Inr t"
    "try_to_vec c (BurnAssetPayload \<lparr>burn_token_id = t, burn_sender = hex_format c (account_encode c w),
      burn_receiver_id = r, burn_amount = a, burn_fee = fee\<rparr>) = Some payload"
    "message_queue (um s1) = message_queue (um s) @
      [\<lparr>msg_nonce = nonce (um s1), msg_payload_type = BurnAsset, msg_payload = payload\<rparr>]"
    "bridge s1 = bridge s"
    using assms(3)
    by (auto simp: do_burn_nep141_def do_lock_fungible_transfer_fee_def op_inv Let_def from_utf8_Some
        submit_Ok_iff accept_message_def)
  have "try_get_asset_id s2 t = Inr i"
    using token_id_found [OF assms(1,2) b(1)] b(4) assms(4) by (simp add: try_get_asset_id_def)
  then show ?thesis
    using b by (auto simp: do_mint_nep141_def op_simps fun_eq_iff)
qed

text \<open>A concrete bridge with one registered asset, of which account 1 holds 50.\<close>

definition demo_asset_state :: "(nat, u128, demo_ext) runtime" where
  "demo_asset_state = demo_state\<lparr>bridge := demo_bridge0\<lparr>asset_id_by_token_id := [([110], 5)]\<rparr>,
     ext := demo_ext0\<lparr>asset_bal := (\<lambda>i a. if i = 5 \<and> a = 1 then 50 else 0)\<rparr>\<rparr>"

theorem burned_asset_returns_as_itself_witness:
  "\<exists>s1 t. do_burn_nep141 demo_config 5 1 [98] 20 demo_asset_state = Ok () s1 \<and>
     try_get_token_id demo_config demo_asset_state 5 = Inr t \<and>
     do_mint_nep141 demo_config t [99] 2 20 0 s1 =
       bind (on_ext (fungibles_mint_into (bridge_cfg demo_config) 5 2 20))
        (\<lambda>_. deposit_event (BridgeEvent (Nep141Minted 5 [99] 2 20 0))) s1"
proof -
  have "\<exists>s1. do_burn_nep141 demo_config 5 1 [98] 20 demo_asset_state = Ok () s1"
    by (simp add: do_burn_nep141_def do_lock_fungible_transfer_fee_def stored_fee_def try_get_token_id_def
        storage_iter_def from_utf8_def demo_asset_state_def demo_simps op_simps Let_def submit_eq too_large_def
        queue_full_def accept_message_def)
  then obtain s1 where s1: "do_burn_nep141 demo_config 5 1 [98] 20 demo_asset_state = Ok () s1" ..
  have ok: "storage_order (token_order (bridge_cfg demo_config))" "distinct (map fst (asset_id_by_token_id (bridge demo_asset_state)))"
    by (simp_all add: demo_simps storage_order_def demo_asset_state_def)
  show ?thesis
    using burned_asset_returns_as_itself [OF ok s1 refl, of "[99]" 2 20 0] s1 by blast
qed

end
