(* ===== verification/Bridge_Fees.thy ===== *)
theory Bridge_Fees
  imports Bridge_Tokens
begin

text \<open>
  The relayer fee: how close \<open>calculate_quantity_of_native_tokens\<close> comes to
  \<open>coef / 100 * near_price / native_token_price\<close>, where it stops, and what the oracle's price update
  stores.
\<close>

section \<open>Parts per billion\<close>

text \<open>
  The documented behaviour of \<open>sp_arithmetic::Perbill\<close>: \<open>from_rational\<close> and the product round down,
  the ratio is at most one, and a sum is cut at one.
\<close>

definition perbill_ok :: "('a, 'b, 'x) bridge_config \<Rightarrow> bool" where
  "perbill_ok c \<longleftrightarrow>
     (\<forall>p q. q \<noteq> 0 \<longrightarrow> unat (perbill_from_rational c p q) = min (unat p * 10 ^ 9 div unat q) (10 ^ 9)) \<and>
     (\<forall>a b. unat a \<le> 10 ^ 9 \<longrightarrow> unat b \<le> 10 ^ 9 \<longrightarrow> unat (perbill_mul c a b) = unat a * unat b div 10 ^ 9) \<and>
     (\<forall>a b. unat a \<le> 10 ^ 9 \<longrightarrow> unat b \<le> 10 ^ 9 \<longrightarrow> unat (perbill_add c a b) = min (unat a + unat b) (10 ^ 9))"

lemma perbill_okD:
  assumes "perbill_ok c"
  shows "q \<noteq> 0 \<Longrightarrow> unat (perbill_from_rational c p q) = min (unat p * 10 ^ 9 div unat q) (10 ^ 9)"
    and "unat a \<le> 10 ^ 9 \<Longrightarrow> unat b \<le> 10 ^ 9 \<Longrightarrow> unat (perbill_mul c a b) = unat a * unat b div 10 ^ 9"
    and "unat a \<le> 10 ^ 9 \<Longrightarrow> unat b \<le> 10 ^ 9 \<Longrightarrow> unat (perbill_add c a b) = min (unat a + unat b) (10 ^ 9)"
  using assms unfolding perbill_ok_def by blast+

section \<open>The quantity on numbers\<close>

text \<open>The parts per billion of the fractional part before they are cut at one.\<close>

definition fraction_parts :: "nat \<Rightarrow> nat \<Rightarrow> nat \<Rightarrow> nat" where
  "fraction_parts near native k =
     (near div native * k) mod 100 * 10 ^ 7 + (near mod native * 10 ^ 9 div native) * k div 100"

lemma parts_of_hundredths: "n div 100 * 10 ^ 9 + n mod 100 * 10 ^ 7 = n * 10 ^ 7" for n :: nat
proof -
  have "(q * 100 + r) * 10 ^ 7 = q * 10 ^ 9 + r * 10 ^ 7" for q r :: nat by (simp add: algebra_simps)
  from this [of "n div 100" "n mod 100"] show ?thesis by simp
qed

lemma split_price: "near = q * v + r \<Longrightarrow> near * k * 10 ^ 7 = q * k * 10 ^ 7 * v + r * k * 10 ^ 7" for near :: nat
  by (simp add: algebra_simps)

lemma unat_ucast_64: "unat (ucast (a :: u32) :: u64) = unat a"
  using unsigned_less [of a, where 'a = nat] by (simp add: unsigned_ucast_eq take_bit_nat_eq_self)

lemma parts_below:
  assumes "(v :: nat) > 0"
  shows "near div v * k div 100 * 10 ^ 9 + (near div v * k) mod 100 * 10 ^ 7 = near div v * k * 10 ^ 7"
    and "near mod v * 10 ^ 9 div v \<le> 10 ^ 9"
    and "(near mod v * 10 ^ 9 div v) * k div 100 * v \<le> near mod v * k * 10 ^ 7"
    and "k \<le> 100 \<Longrightarrow> near mod v * k * 10 ^ 7 < ((near mod v * 10 ^ 9 div v) * k div 100 + 2) * v"
proof -
  let ?n = "near div v * k" and ?r = "near mod v" and ?q = "near mod v * 10 ^ 9 div v"
  show "?n div 100 * 10 ^ 9 + ?n mod 100 * 10 ^ 7 = ?n * 10 ^ 7" by (rule parts_of_hundredths)
  have "?r * 10 ^ 9 \<le> v * 10 ^ 9" using assms by simp
  then show "?q \<le> 10 ^ 9" using assms by (metis div_le_mono nonzero_mult_div_cancel_left less_numeral_extra(3))
  have q: "?q * v \<le> ?r * 10 ^ 9" "?r * 10 ^ 9 < (?q + 1) * v"
    using assms by (simp_all add: dividend_less_div_times)
  have h: "?q * k div 100 * 100 \<le> ?q * k" "?q * k < (?q * k div 100 + 1) * 100"
    by (simp_all add: dividend_less_div_times)
  have "?q * k div 100 * 100 * v \<le> ?q * k * v" using h(1) by (rule mult_le_mono1)
  also have "\<dots> = ?q * v * k" by simp
  also have "\<dots> \<le> ?r * 10 ^ 9 * k" using q(1) by (rule mult_le_mono1)
  finally show "?q * k div 100 * v \<le> ?r * k * 10 ^ 7" by (simp add: ac_simps)
  assume k: "k \<le> 100"
  have "?r * 10 ^ 9 * k \<le> (?q + 1) * v * k" using q(2) by (intro mult_le_mono1) simp
  also have "\<dots> = (?q * k + k) * v" by (simp add: algebra_simps)
  also have "\<dots> < ((?q * k div 100 + 1) * 100 + 100) * v"
    using h(2) k assms by (intro mult_strict_right_mono) auto
  finally show "?r * k * 10 ^ 7 < (?q * k div 100 + 2) * v" by (simp add: algebra_simps)
qed

lemma quantity_bounds:
  fixes near v k :: nat
  assumes v: "v > 0" and k: "k \<le> 100"
  defines "tot \<equiv> near div v * k div 100 * 10 ^ 9 + fraction_parts near v k"
  shows "tot * v \<le> near * k * 10 ^ 7" "near * k * 10 ^ 7 < (tot + 2) * v"
proof -
  let ?f = "(near mod v * 10 ^ 9 div v) * k div 100"
  have tot: "tot = near div v * k * 10 ^ 7 + ?f"
    using parts_below(1) [OF v, of near k] by (simp add: tot_def fraction_parts_def)
  have near: "near * k * 10 ^ 7 = near div v * k * 10 ^ 7 * v + near mod v * k * 10 ^ 7"
    by (rule split_price) simp
  show "tot * v \<le> near * k * 10 ^ 7"
    unfolding tot near using parts_below(3) [OF v, of near k] by (simp add: algebra_simps)
  show "near * k * 10 ^ 7 < (tot + 2) * v"
    unfolding tot near using parts_below(4) [OF v k, of near] by (simp add: algebra_simps)
qed

section \<open>The quantity on words\<close>

lemma calculate_quantity_eq:
  assumes pb: "perbill_ok c" and native: "native \<noteq> 0" and k: "unat (coef b) \<le> 100"
    and small: "unat near div unat native * unat (coef b) < 2 ^ 64"
  shows "\<exists>i f. calculate_quantity_of_native_tokens c b near native = Some (i, f) \<and>
    (if unat (threshold c) \<le> unat near div unat native * unat (coef b) div 100
     then i = threshold c \<and> f = 0
     else unat i = unat near div unat native * unat (coef b) div 100 \<and>
       unat f = min (fraction_parts (unat near) (unat native) (unat (coef b))) (10 ^ 9))"
proof -
  define integer where "integer = (if near \<ge> native then near div native else 0)"
  define value1 where "value1 = integer * ucast (coef b)"
  define integer1 where "integer1 = (if value1 \<ge> 100 then value1 div 100 else 0)"
  define f1 where "f1 = perbill_from_rational c (value1 mod 100) 100"
  define fr where "fr = perbill_from_rational c (near mod native) native"
  define fk where "fk = perbill_from_rational c (ucast (coef b)) 100"
  have quantity: "calculate_quantity_of_native_tokens c b near native =
      (if integer1 \<ge> threshold c then Some (threshold c, 0)
       else Some (integer1, perbill_add c f1 (perbill_mul c fr fk)))"
    using native by (simp add: calculate_quantity_of_native_tokens_def Let_def integer_def value1_def integer1_def
        f1_def fr_def fk_def)
  have pos: "unat native > 0" using native by (simp add: unat_gt_0)
  have integer: "unat integer = unat near div unat native"
    by (auto simp: integer_def unat_div word_le_nat_alt)
  have coef: "unat (ucast (coef b) :: u64) = unat (coef b)"
    by (rule unat_ucast_64)
  have value1: "unat value1 = unat near div unat native * unat (coef b)"
    using small integer coef by (simp add: value1_def unat_word_ariths)
  have integer1: "unat integer1 = unat near div unat native * unat (coef b) div 100"
    using value1 by (auto simp: integer1_def unat_div word_le_nat_alt)
  have f1: "unat f1 = unat near div unat native * unat (coef b) mod 100 * 10 ^ 7"
    using perbill_okD(1) [OF pb, of 100 "value1 mod 100"] value1 by (simp add: f1_def unat_mod)
  have fr_le: "unat near mod unat native * 10 ^ 9 div unat native \<le> 10 ^ 9"
    by (rule parts_below(2) [OF pos])
  then have fr: "unat fr = unat near mod unat native * 10 ^ 9 div unat native"
    using perbill_okD(1) [OF pb native, of "near mod native"] by (simp add: fr_def unat_mod)
  have fk: "unat fk = unat (coef b) * 10 ^ 7"
    using perbill_okD(1) [OF pb, of 100 "ucast (coef b)"] coef k by (simp add: fk_def)
  have f1_le: "unat f1 \<le> 10 ^ 9" using f1 by simp
  have fk_le: "unat fk \<le> 10 ^ 9" using fk k by simp
  have f2: "unat (perbill_mul c fr fk) = unat near mod unat native * 10 ^ 9 div unat native * unat (coef b) div 100"
    using perbill_okD(2) [OF pb, of fr fk] fr fr_le fk fk_le by (simp add: ac_simps)
  have f2_le: "unat (perbill_mul c fr fk) \<le> 10 ^ 9"
  proof -
    have "unat fr * unat (coef b) \<le> 10 ^ 9 * 100" using fr fr_le k by (intro mult_le_mono) simp_all
    then show ?thesis using f2 fr by simp
  qed
  have sum: "unat (perbill_add c f1 (perbill_mul c fr fk)) =
      min (fraction_parts (unat near) (unat native) (unat (coef b))) (10 ^ 9)"
    using perbill_okD(3) [OF pb f1_le f2_le] f1 f2 by (simp add: fraction_parts_def)
  show ?thesis
    unfolding quantity using integer1 sum by (simp add: word_le_nat_alt)
qed

section \<open>The fee\<close>

text \<open>The fee in the smallest unit, for a token with \<open>d\<close> of them, of \<open>i\<close> tokens and \<open>f\<close> parts per billion.\<close>

definition fee_amount :: "nat \<Rightarrow> nat \<Rightarrow> nat \<Rightarrow> nat" where
  "fee_amount d i f = d * i + d * f div 10 ^ 9"

lemma fee_amount_le:
  assumes "i * 10 ^ 9 + f \<le> q * 10 ^ 9"
  shows "fee_amount d i f \<le> d * q"
proof -
  have "(d * i * 10 ^ 9 + d * f) div 10 ^ 9 = d * i + d * f div 10 ^ 9" by simp
  moreover have "d * i * 10 ^ 9 + d * f = d * (i * 10 ^ 9 + f)" by (simp add: algebra_simps)
  moreover have "d * (i * 10 ^ 9 + f) \<le> d * (q * 10 ^ 9)" using assms by (rule mult_le_mono2)
  ultimately have "fee_amount d i f \<le> d * (q * 10 ^ 9) div 10 ^ 9"
    unfolding fee_amount_def by (metis div_le_mono)
  then show ?thesis by simp
qed

lemma unat_ucast_128:
  "unat (ucast (a :: u64) :: u128) = unat a" "unat (ucast (e :: u32) :: u128) = unat e"
  using unsigned_less [of a, where 'a = nat] unsigned_less [of e, where 'a = nat]
  by (simp_all add: unsigned_ucast_eq take_bit_nat_eq_self)

lemma unat_fee:
  fixes d :: u128
  assumes "unat d * unat (i :: u64) + unat d * unat (f :: u32) < 2 ^ 128"
  shows "unat (d * ucast i + d * ucast f div 1000000000) = fee_amount (unat d) (unat i) (unat f)"
proof -
  have i: "unat (d * ucast i) = unat d * unat i" and f: "unat (d * ucast f) = unat d * unat f"
    using assms by (simp_all add: unat_word_ariths unat_ucast_128)
  have "unat (d * ucast f div 1000000000) = unat d * unat f div 1000000000" by (simp add: unat_div f)
  moreover have "unat d * unat f div 1000000000 \<le> unat d * unat f" by simp
  ultimately show ?thesis
    using assms i by (simp add: unat_word_ariths fee_amount_def)
qed

lemma quantity_sum_le:
  assumes "calculate_quantity_of_native_tokens c b near native = Some (i, f)"
    and "perbill_ok c" and "native \<noteq> 0" and "unat (coef b) \<le> 100"
    and "unat near div unat native * unat (coef b) < 2 ^ 64"
  shows "unat i \<le> unat (threshold c)" "unat f \<le> 10 ^ 9" "unat i * 10 ^ 9 + unat f \<le> unat (threshold c) * 10 ^ 9"
proof -
  have le: "unat i = unat (threshold c) \<and> unat f = 0 \<or> unat i < unat (threshold c) \<and> unat f \<le> 10 ^ 9"
    using calculate_quantity_eq [OF assms(2-5)] assms(1) by (auto split: if_splits)
  then show "unat i \<le> unat (threshold c)" "unat f \<le> 10 ^ 9" by auto
  have "(unat i + 1) * 10 ^ 9 \<le> unat (threshold c) * 10 ^ 9" if "unat i < unat (threshold c)"
    using that by (intro mult_le_mono1) simp
  then show "unat i * 10 ^ 9 + unat f \<le> unat (threshold c) * 10 ^ 9" using le by auto
qed

lemma calculate_quantity_coef:
  "coef b = coef b' \<Longrightarrow> calculate_quantity_of_native_tokens c b near native =
     calculate_quantity_of_native_tokens c b' near native"
  by (simp add: calculate_quantity_of_native_tokens_def Let_def)

lemma both_fees: "(f(Fungible \<mapsto> v))(Nonfungible \<mapsto> v) = (\<lambda>k. Some v)"
proof
  show "((f(Fungible \<mapsto> v))(Nonfungible \<mapsto> v)) k = Some v" for k by (cases k) simp_all
qed

section \<open>The concrete arithmetic\<close>

lemma demo_perbill_ok: "perbill_ok demo_bridge_config"
proof -
  have ratio: "unat (demo_from_rational p q) = min (unat p * 10 ^ 9 div unat q) (10 ^ 9)" if "q \<noteq> 0" for p q
  proof (cases "q \<le> p")
    case True
    then have "unat q * 10 ^ 9 \<le> unat p * 10 ^ 9" by (simp add: word_le_nat_alt)
    then have "10 ^ 9 \<le> unat p * 10 ^ 9 div unat q"
      using that by (metis div_le_mono nonzero_mult_div_cancel_left unat_eq_zero)
    then show ?thesis using True by (simp add: demo_from_rational_def)
  next
    case False
    then have less: "unat p * 10 ^ 9 < 10 ^ 9 * unat q" by (simp add: word_le_nat_alt not_le)
    then have "unat p * 10 ^ 9 div unat q < 10 ^ 9" by (rule less_mult_imp_div_less)
    then show ?thesis using False that by (simp add: demo_from_rational_def unat_word_of_nat)
  qed
  have "unat (demo_perbill_mul a b) = unat a * unat b div 10 ^ 9"
    if "unat a \<le> 10 ^ 9" "unat b \<le> 10 ^ 9" for a b
  proof -
    have "unat a * unat b \<le> 10 ^ 9 * 10 ^ 9" using that by (rule mult_le_mono)
    then show ?thesis by (simp add: demo_perbill_mul_def unat_word_of_nat)
  qed
  moreover have "unat (demo_perbill_add a b) = min (unat a + unat b) (10 ^ 9)" for a b
    by (simp add: demo_perbill_add_def unat_word_of_nat)
  ultimately show ?thesis
    using ratio by (simp add: perbill_ok_def demo_bridge_config_def)
qed

section \<open>Properties\<close>

text \<open>
  C22. With a coefficient of at most 100 and no u64 overflow of the product, the quantity of native tokens
  charged never exceeds the threshold; below it, it never exceeds coef/100 * near_price / native_price, and
  is less than two parts per billion below it unless the fractional parts carry.
\<close>

theorem fee_quantity_accuracy:
  assumes "perbill_ok c" and "native \<noteq> 0" and "unat (coef b) \<le> 100"
    and "unat near div unat native * unat (coef b) < 2 ^ 64"
  shows "\<exists>i f. calculate_quantity_of_native_tokens c b near native = Some (i, f) \<and>
    unat i * 10 ^ 9 + unat f \<le> unat (threshold c) * 10 ^ 9 \<and>
    (if unat (threshold c) \<le> unat near div unat native * unat (coef b) div 100
     then unat i * 10 ^ 9 + unat f = unat (threshold c) * 10 ^ 9
     else (unat i * 10 ^ 9 + unat f) * unat native \<le> unat near * unat (coef b) * 10 ^ 7 \<and>
       (fraction_parts (unat near) (unat native) (unat (coef b)) \<le> 10 ^ 9 \<longrightarrow>
        unat near * unat (coef b) * 10 ^ 7 < (unat i * 10 ^ 9 + unat f + 2) * unat native))"
proof -
  let ?p = "fraction_parts (unat near) (unat native) (unat (coef b))"
  have v: "unat native > 0" using assms(2) by (simp add: unat_gt_0)
  obtain i f where if_: "calculate_quantity_of_native_tokens c b near native = Some (i, f)"
    "if unat (threshold c) \<le> unat near div unat native * unat (coef b) div 100 then i = threshold c \<and> f = 0
     else unat i = unat near div unat native * unat (coef b) div 100 \<and> unat f = min ?p (10 ^ 9)"
    using calculate_quantity_eq [OF assms] by blast
  show ?thesis
  proof (cases "unat (threshold c) \<le> unat near div unat native * unat (coef b) div 100")
    case True
    then show ?thesis using if_ by simp
  next
    case False
    then have i: "unat i = unat near div unat native * unat (coef b) div 100" and f: "unat f = min ?p (10 ^ 9)"
      and less: "unat i + 1 \<le> unat (threshold c)" using if_(2) by auto
    have "(unat i + 1) * 10 ^ 9 \<le> unat (threshold c) * 10 ^ 9" using less by (rule mult_le_mono1)
    then have "unat i * 10 ^ 9 + unat f \<le> unat (threshold c) * 10 ^ 9" using f by simp
    moreover have "(unat i * 10 ^ 9 + unat f) * unat native \<le> unat near * unat (coef b) * 10 ^ 7"
    proof -
      have "(unat i * 10 ^ 9 + unat f) * unat native \<le> (unat i * 10 ^ 9 + ?p) * unat native"
        using f by (intro mult_le_mono1) simp
      also have "\<dots> \<le> unat near * unat (coef b) * 10 ^ 7"
        using quantity_bounds(1) [OF v assms(3), of "unat near"] i by simp
      finally show ?thesis .
    qed
    moreover have "?p \<le> 10 ^ 9 \<longrightarrow> unat near * unat (coef b) * 10 ^ 7 < (unat i * 10 ^ 9 + unat f + 2) * unat native"
      using quantity_bounds(2) [OF v assms(3), of "unat near"] i f by (simp add: min_absorb1)
    ultimately show ?thesis using False if_(1) by auto
  qed
qed

theorem fee_quantity_accuracy_witness:
  "\<exists>i f. calculate_quantity_of_native_tokens demo_bridge_config demo_bridge0 250 100 = Some (i, f) \<and>
    (unat i * 10 ^ 9 + unat f) * 100 \<le> 250 * 3 * 10 ^ 7 \<and> 250 * 3 * 10 ^ 7 < (unat i * 10 ^ 9 + unat f + 2) * 100"
  using fee_quantity_accuracy [OF demo_perbill_ok, of 100 demo_bridge0 250]
  by (auto simp: demo_bridge0_def demo_bridge_config_def default_for_coef_def fraction_parts_def)

text \<open>
  C37. When the two fractional parts of the quantity add up to more than one, the result has its fraction
  cut at one: the charged quantity is strictly below the exact parts, which themselves are at most coef/100
  * near_price / native_price.
\<close>

theorem fee_loses_the_carry:
  assumes "perbill_ok c" and "native \<noteq> 0" and "unat (coef b) \<le> 100"
    and "unat near div unat native * unat (coef b) < 2 ^ 64"
    and "unat near div unat native * unat (coef b) div 100 < unat (threshold c)"
    and "10 ^ 9 < fraction_parts (unat near) (unat native) (unat (coef b))"
  shows "\<exists>i f. calculate_quantity_of_native_tokens c b near native = Some (i, f) \<and> unat f = 10 ^ 9 \<and>
    (unat i * 10 ^ 9 + fraction_parts (unat near) (unat native) (unat (coef b))) * unat native
      \<le> unat near * unat (coef b) * 10 ^ 7"
proof -
  have v: "unat native > 0" using assms(2) by (simp add: unat_gt_0)
  show ?thesis
    using calculate_quantity_eq [OF assms(1-4)] assms(5,6) quantity_bounds(1) [OF v assms(3), of "unat near"]
    by auto
qed

theorem fee_loses_the_carry_witness:
  "\<exists>i f. calculate_quantity_of_native_tokens demo_bridge_config (demo_bridge0\<lparr>coef := 99\<rparr>) 199 100 = Some (i, f) \<and>
     unat f = 10 ^ 9 \<and> (unat i * 10 ^ 9 + 1970100000) * 100 \<le> 199 * 99 * 10 ^ 7"
  using fee_loses_the_carry [OF demo_perbill_ok, of 100 "demo_bridge0\<lparr>coef := 99\<rparr>" 199]
  by (auto simp: demo_bridge0_def demo_bridge_config_def fraction_parts_def)

text \<open>
  For non-zero prices without overflow, set_token_price refuses every account but the oracle's; for the
  oracle it stores both prices and one fee for both transfer types that is at most NativeTokenDecimals *
  Threshold, or fails with InvalidFeeMakeOverflow, after the prices were written, when the fee is no
  balance.
\<close>

theorem set_token_price_outcome:
  assumes "perbill_ok (bridge_cfg c)" and "unat (coef (bridge s)) \<le> 100" and "native \<noteq> 0" and "near \<noteq> 0"
    and "oracle_account (bridge s) = Some oracle"
    and "unat near div unat native * unat (coef (bridge s)) < 2 ^ 64"
    and "unat (native_token_decimals (bridge_cfg c)) * (unat (threshold (bridge_cfg c)) + 10 ^ 9) < 2 ^ 128"
  shows "\<exists>fee. unat fee \<le> unat (native_token_decimals (bridge_cfg c)) * unat (threshold (bridge_cfg c)) \<and>
    (\<forall>who. set_token_price c (Signed who) near native s =
      (let priced = (bridge s)\<lparr>token_price := Some native, near_price := Some near\<rparr> in
       if who \<noteq> oracle then Err (BridgeError UpdatePriceWithNoPermissionAccount) s
       else case balance_from_u128 (bridge_cfg c) fee of
          None \<Rightarrow> Err (BridgeError InvalidFeeMakeOverflow) (s\<lparr>bridge := priced\<rparr>)
        | Some v \<Rightarrow> Ok () (s\<lparr>bridge := priced\<lparr>crosschain_transfer_fee := (\<lambda>k. Some (Some v))\<rparr>,
             events := events s @ [BridgeEvent (PriceUpdated who near native)]\<rparr>)))"
proof -
  let ?c = "bridge_cfg c"
  let ?d = "native_token_decimals ?c"
  let ?priced = "(bridge s)\<lparr>token_price := Some native, near_price := Some near\<rparr>"
  obtain i f where q: "calculate_quantity_of_native_tokens ?c (bridge s) near native = Some (i, f)"
    using calculate_quantity_eq [OF assms(1,3,2,6)] by blast
  note le = quantity_sum_le [OF q assms(1,3,2,6)]
  have q': "calculate_quantity_of_native_tokens ?c ?priced near native = Some (i, f)"
    using q calculate_quantity_coef [of ?priced "bridge s" ?c near native] by simp
  let ?fee = "?d * ucast i + ?d * ucast f div 1000000000"
  have "unat ?d * unat i + unat ?d * unat f \<le> unat ?d * (unat (threshold ?c) + 10 ^ 9)"
    unfolding distrib_left using le(1,2) by (intro add_mono mult_le_mono2) auto
  then have "unat ?fee = fee_amount (unat ?d) (unat i) (unat f)"
    using assms(7) by (intro unat_fee) linarith
  then have fee: "unat ?fee \<le> unat ?d * unat (threshold ?c)"
    using fee_amount_le [OF le(3)] by simp
  have "set_token_price c (Signed who) near native s =
      (if who \<noteq> oracle then Err (BridgeError UpdatePriceWithNoPermissionAccount) s
       else case balance_from_u128 ?c ?fee of
          None \<Rightarrow> Err (BridgeError InvalidFeeMakeOverflow) (s\<lparr>bridge := ?priced\<rparr>)
        | Some v \<Rightarrow> Ok () (s\<lparr>bridge := ?priced\<lparr>crosschain_transfer_fee := (\<lambda>k. Some (Some v))\<rparr>,
             events := events s @ [BridgeEvent (PriceUpdated who near native)]\<rparr>))" for who
    using assms(3-5) q'
    by (simp add: set_token_price_def calculate_and_update_fee_def op_simps Let_def both_fees split: option.split)
  then show ?thesis using fee by (intro exI [of _ ?fee]) (simp add: Let_def)
qed

theorem set_token_price_outcome_witness:
  "\<exists>fee. unat fee \<le> 300 * 10 ^ 18 \<and>
     set_token_price demo_config (Signed 1) 250 100 (demo_state\<lparr>bridge := demo_bridge0\<lparr>oracle_account := Some 1\<rparr>\<rparr>) =
       Ok () (demo_state\<lparr>bridge := demo_bridge0\<lparr>oracle_account := Some 1, token_price := Some 100, near_price := Some 250,
            crosschain_transfer_fee := (\<lambda>k. Some (Some fee))\<rparr>,
          events := [BridgeEvent (PriceUpdated 1 250 100)]\<rparr>)"
proof -
  have "perbill_ok (bridge_cfg demo_config)" using demo_perbill_ok by (simp add: demo_config_def)
  then show ?thesis
    using set_token_price_outcome [of demo_config "demo_state\<lparr>bridge := demo_bridge0\<lparr>oracle_account := Some 1\<rparr>\<rparr>" 100 250 1]
    by (auto simp: demo_config_def demo_bridge_config_def demo_bridge0_def default_for_coef_def demo_state_def)
qed

end
