(* ===== verification/Bridge_Transfers.thy ===== *)
theory Bridge_Transfers
  imports Bridge_Fees
begin

text \<open>
  What a transfer moves. A lock either takes the amount and the fee from the sender, queues exactly
  one message that says so and emits the event, or changes nothing; and over any run of the bridge
  the balance of its account is what the events say was paid in, less what they say was paid out.
\<close>

section \<open>The outside ledger\<close>

text \<open>
  The documented behaviour of \<open>Currency\<close>, as \<open>pallet_balances\<close> has it: \<open>worth\<close> is the number a balance stands
  for, \<open>held\<close> the free balance of an account. A transfer to another account pays it the amount in full; the
  sender loses the amount, and with \<open>AllowDeath\<close> also the rest of its balance when that is below the existential
  deposit (the dust, which \<open>DustRemoval = ()\<close> burns). With \<open>KeepAlive\<close> there is no dust. A transfer to oneself and
  a transfer that fails move nothing, and the asset and item pallets do not touch native balances.
\<close>

definition ledger_ok :: "('a, 'b, 'x) bridge_config \<Rightarrow> ('b \<Rightarrow> nat) \<Rightarrow> ('x \<Rightarrow> 'a \<Rightarrow> nat) \<Rightarrow> bool" where
  "ledger_ok c worth held \<longleftrightarrow>
     (\<forall>a b v r x y u. currency_transfer c a b v r x = Ok u y \<longrightarrow>
        (if a = b then held y a = held x a
         else held y b = held x b + worth v \<and> held y a + worth v \<le> held x a \<and>
           (r = KeepAlive \<longrightarrow> held y a + worth v = held x a))) \<and>
     (\<forall>a b v r x y e. currency_transfer c a b v r x = Err e y \<longrightarrow> held y = held x) \<and>
     (\<forall>i w v x. preserves (\<lambda>y. held y = held x) (fungibles_mint_into c i w v)) \<and>
     (\<forall>i w v x. preserves (\<lambda>y. held y = held x) (fungibles_burn_from c i w v)) \<and>
     (\<forall>k i w x. preserves (\<lambda>y. held y = held x) (nonfungibles_transfer c k i w))"

lemma transfer_moves:
  assumes "ledger_ok c worth held" and "currency_transfer c a b v r x = Ok u y"
  shows "if a = b then held y a = held x a
   else held y b = held x b + worth v \<and> held y a + worth v \<le> held x a \<and>
     (r = KeepAlive \<longrightarrow> held y a + worth v = held x a)"
  by (rule conjunct1 [OF assms(1) [unfolded ledger_ok_def], THEN spec, THEN spec, THEN spec, THEN spec, THEN spec,
        THEN spec, THEN spec, THEN mp, OF assms(2)])

lemma transfer_in:
  "ledger_ok c worth held \<Longrightarrow> currency_transfer c w (bridge_account c) v r x = Ok u y \<Longrightarrow>
   held y (bridge_account c) = held x (bridge_account c) + (if w = bridge_account c then 0 else worth v)"
  by (drule (1) transfer_moves) (auto split: if_splits)

lemma transfer_out:
  "ledger_ok c worth held \<Longrightarrow> currency_transfer c (bridge_account c) w v KeepAlive x = Ok u y \<Longrightarrow>
   held x (bridge_account c) = held y (bridge_account c) + (if w = bridge_account c then 0 else worth v)"
  by (drule (1) transfer_moves) (auto split: if_splits)

lemma transfer_failed:
  "ledger_ok c worth held \<Longrightarrow> currency_transfer c a b v r x = Err e y \<Longrightarrow> held y = held x"
  unfolding ledger_ok_def by blast

lemma other_pallets:
  assumes "ledger_ok c worth held"
  shows "fungibles_mint_into c i w n x = Ok u y \<Longrightarrow> held y = held x"
    "fungibles_mint_into c i w n x = Err e y \<Longrightarrow> held y = held x"
    "fungibles_burn_from c i w n x = Ok m y \<Longrightarrow> held y = held x"
    "fungibles_burn_from c i w n x = Err e y \<Longrightarrow> held y = held x"
    "nonfungibles_transfer c k j w x = Ok u y \<Longrightarrow> held y = held x"
    "nonfungibles_transfer c k j w x = Err e y \<Longrightarrow> held y = held x"
  using assms unfolding ledger_ok_def preserves_def by metis+

lemmas ledger_simps = transfer_in transfer_out transfer_failed other_pallets

section \<open>The events as a ledger\<close>

text \<open>What an event says was paid into and out of the account \<open>b\<close>; a payment of \<open>b\<close> to itself moves nothing.\<close>

fun paid_in :: "('b \<Rightarrow> nat) \<Rightarrow> 'a \<Rightarrow> ('a, 'b) runtime_event \<Rightarrow> nat" where
  "paid_in worth b (BridgeEvent (Locked w r a f n)) = (if w = b then 0 else worth a + worth f)"
| "paid_in worth b (BridgeEvent (Nep141Burned i w r a f n)) = (if w = b then 0 else worth f)"
| "paid_in worth b (BridgeEvent (NonfungibleLocked k i w r f n)) = (if w = b then 0 else worth f)"
| "paid_in worth b _ = 0"

fun paid_out :: "('b \<Rightarrow> nat) \<Rightarrow> 'a \<Rightarrow> ('a, 'b) runtime_event \<Rightarrow> nat" where
  "paid_out worth b (BridgeEvent (Unlocked r w a n)) = (if w = b then 0 else worth a)"
| "paid_out worth b (BridgeEvent (ForceUnlocked w a)) = (if w = b then 0 else worth a)"
| "paid_out worth b _ = 0"

definition total_in :: "('b \<Rightarrow> nat) \<Rightarrow> 'a \<Rightarrow> ('a, 'b) runtime_event list \<Rightarrow> nat" where
  "total_in worth b es = sum_list (map (paid_in worth b) es)"

definition total_out :: "('b \<Rightarrow> nat) \<Rightarrow> 'a \<Rightarrow> ('a, 'b) runtime_event list \<Rightarrow> nat" where
  "total_out worth b es = sum_list (map (paid_out worth b) es)"

lemma total_simps [simp]:
  "total_in worth b (es @ fs) = total_in worth b es + total_in worth b fs"
  "total_out worth b (es @ fs) = total_out worth b es + total_out worth b fs"
  "total_in worth b [e] = paid_in worth b e" "total_out worth b [e] = paid_out worth b e"
  by (simp_all add: total_in_def total_out_def)

text \<open>
  The balance of the bridge's account agrees with the events, from a state in which \<open>fst h\<close> had been paid
  in and balance and payments out added up to \<open>snd h\<close>.
\<close>

definition accounted :: "('b \<Rightarrow> nat) \<Rightarrow> ('x \<Rightarrow> 'a \<Rightarrow> nat) \<Rightarrow> 'a \<Rightarrow> nat \<times> nat \<Rightarrow> ('a, 'b, 'x) runtime \<Rightarrow> bool" where
  "accounted worth held b h s \<longleftrightarrow> 
     held (ext s) b + total_out worth b (events s) + fst h = snd h + total_in worth b (events s)"

section \<open>Actions of the bridge\<close>

text \<open>A call of an account, or a call the appchain pallet makes for an observation of the mainchain.\<close>

datatype ('a, 'b) bridge_action =
    Dispatch "'a origin" "('a, 'b) bridge_call"
  | Unlock bytes 'a u128 u32
  | Mint bytes bytes 'a u128 u32
  | UnlockItem u128 u128 bytes 'a u32

fun bridge_act :: "('a, 'b, 'x) config \<Rightarrow> ('a, 'b) bridge_action \<Rightarrow> ('a, 'b, 'x, unit) call" where
  "bridge_act c (Dispatch org m) = bridge_dispatch c org m"
| "bridge_act c (Unlock w r a n) = unlock c w r a n"
| "bridge_act c (Mint t w r a n) = mint_nep141 c t w r a n"
| "bridge_act c (UnlockItem k i w r n) = unlock_nonfungible c k i w r n"

fun bridge_acts :: "('a, 'b, 'x) config \<Rightarrow> ('a, 'b) bridge_action list \<Rightarrow> ('a, 'b, 'x) runtime
    \<Rightarrow> ('a, 'b, 'x) runtime option" where
  "bridge_acts c [] s = Some s"
| "bridge_acts c (m # ms) s =
     (case bridge_act c m s of Ok _ t \<Rightarrow> bridge_acts c ms t | Err _ t \<Rightarrow> bridge_acts c ms t | Panic \<Rightarrow> None)"

section \<open>Inversion of the transfers\<close>

text \<open>The state after a message was accepted and the transfer's event deposited.\<close>

definition transferred :: "payload_type \<Rightarrow> bytes \<Rightarrow> (u64 \<Rightarrow> ('a, 'b) bridge_event) \<Rightarrow> 'x \<Rightarrow> ('a, 'b, 'x) runtime
    \<Rightarrow> ('a, 'b, 'x) runtime" where
  "transferred t p e x s = s\<lparr>ext := x,
     um := (um s)\<lparr>message_queue := message_queue (um s) @
             [\<lparr>msg_nonce = nonce (um s) + 1, msg_payload_type = t, msg_payload = p\<rparr>], nonce := nonce (um s) + 1\<rparr>,
     events := events s @ [UmEvent (MessageAccepted (nonce (um s) + 1)), BridgeEvent (e (nonce (um s) + 1))]\<rparr>"

lemma fee_Ok:
  "do_lock_fungible_transfer_fee c w s = Ok fee t \<longleftrightarrow> stored_fee c Fungible (bridge s) = Some fee \<and>
     (\<exists>x. currency_transfer (bridge_cfg c) w (bridge_account (bridge_cfg c)) fee AllowDeath (ext s) = Ok () x \<and>
       t = s\<lparr>ext := x\<rparr>)"
  "do_lock_nonfungible_transfer_fee c w n s = Ok fee t \<longleftrightarrow> stored_fee c Nonfungible (bridge s) = Some fee \<and>
     (\<exists>x. currency_transfer (bridge_cfg c) w (bridge_account (bridge_cfg c)) fee AllowDeath (ext s) = Ok () x \<and>
       t = s\<lparr>ext := x\<rparr>)"
  by (auto simp: do_lock_fungible_transfer_fee_def do_lock_nonfungible_transfer_fee_def op_inv)

lemma do_lock_Ok:
  assumes "do_lock c w r a s = Ok u t"
  obtains fee aw fw x1 x2 p where "utf8_valid r" "stored_fee c Fungible (bridge s) = Some fee"
    "balance_into_u128 (bridge_cfg c) a = Some aw" "balance_into_u128 (bridge_cfg c) fee = Some fw"
    "currency_transfer (bridge_cfg c) w (bridge_account (bridge_cfg c)) fee AllowDeath (ext s) = Ok () x1"
    "currency_transfer (bridge_cfg c) w (bridge_account (bridge_cfg c)) a AllowDeath x1 = Ok () x2"
    "try_to_vec c (LockPayload \<lparr>lock_sender = hex_format c (account_encode c w), lock_receiver_id = r,
       lock_amount = aw, lock_fee = fw\<rparr>) = Some p"
    "t = transferred Lock p (Locked w r a fee) x2 s"
  using assms
  by (auto simp: do_lock_def fee_Ok op_inv Let_def from_utf8_Some submit_Ok_iff accept_message_def transferred_def)

lemma do_lock_Panic:
  assumes "do_lock c w r a s = Panic"
  shows "utf8_valid r \<and> (\<forall>fee. stored_fee c Fungible (bridge s) = Some fee \<longrightarrow>
    currency_transfer (bridge_cfg c) w (bridge_account (bridge_cfg c)) fee AllowDeath (ext s) = Panic \<or>
    (\<exists>x1. currency_transfer (bridge_cfg c) w (bridge_account (bridge_cfg c)) fee AllowDeath (ext s) = Ok () x1 \<and>
       currency_transfer (bridge_cfg c) w (bridge_account (bridge_cfg c)) a AllowDeath x1 = Panic))"
  using assms
  by (auto simp: do_lock_def fee_Ok do_lock_fungible_transfer_fee_def op_inv Let_def from_utf8_Some submit_eq ret_def
      split: if_splits)

lemma do_burn_nep141_Ok:
  assumes "do_burn_nep141 c i w r a s = Ok u t"
  obtains fee fw x1 x2 m token p where "utf8_valid r" "stored_fee c Fungible (bridge s) = Some fee"
    "balance_into_u128 (bridge_cfg c) fee = Some fw" "try_get_token_id c s i = Inr token"
    "currency_transfer (bridge_cfg c) w (bridge_account (bridge_cfg c)) fee AllowDeath (ext s) = Ok () x1"
    "fungibles_burn_from (bridge_cfg c) i w a x1 = Ok m x2"
    "try_to_vec c (BurnAssetPayload \<lparr>burn_token_id = token, burn_sender = hex_format c (account_encode c w),
       burn_receiver_id = r, burn_amount = a, burn_fee = fw\<rparr>) = Some p"
    "t = transferred BurnAsset p (Nep141Burned i w r a fee) x2 s"
  using assms
  by (auto simp: do_burn_nep141_def fee_Ok op_inv Let_def from_utf8_Some submit_Ok_iff accept_message_def transferred_def)

lemma do_lock_nonfungible_Ok:
  assumes "do_lock_nonfungible c k i w r s = Ok u t"
  obtains fee fw x1 x2 metadata p where "utf8_valid r" "stored_fee c Nonfungible (bridge s) = Some fee"
    "balance_into_u128 (bridge_cfg c) fee = Some fw"
    "convert_into_nep171_metadata (bridge_cfg c) k i (ext s) = Some metadata"
    "currency_transfer (bridge_cfg c) w (bridge_account (bridge_cfg c)) fee AllowDeath (ext s) = Ok () x1"
    "nonfungibles_transfer (bridge_cfg c) k i (bridge_account (bridge_cfg c)) x1 = Ok () x2"
    "try_to_vec c (LockNftPayload \<lparr>nft_sender = hex_format c (account_encode c w), nft_receiver_id = r,
       nft_collection = k, nft_item = i, nft_metadata = metadata, nft_fee = fw\<rparr>) = Some p"
    "t = transferred LockNft p (NonfungibleLocked k i w r fee) x2 s"
  using assms
  by (auto simp: do_lock_nonfungible_def fee_Ok op_inv Let_def from_utf8_Some submit_Ok_iff accept_message_def
      transferred_def)

section \<open>The account is accounted for\<close>

lemma accounted_transferred:
  "accounted worth held b h (transferred t p e x s) \<longleftrightarrow>
     held x b + total_out worth b (events s) + paid_out worth b (BridgeEvent (e (nonce (um s) + 1))) + fst h =
       snd h + total_in worth b (events s) + paid_in worth b (BridgeEvent (e (nonce (um s) + 1)))"
  by (simp add: accounted_def transferred_def total_in_def total_out_def add.assoc)

lemma accounted_lock:
  assumes "ledger_ok (bridge_cfg c) worth held"
  shows "preserves (accounted worth held (bridge_account (bridge_cfg c)) h) (lock c org r a)"
proof (rule preservesI)
  fix s u t assume ok: "accounted worth held (bridge_account (bridge_cfg c)) h s" and run: "lock c org r a s = Ok u t"
  then obtain w where "do_lock c w r a s = Ok u t" by (auto simp: lock_def ensure_activated_def op_inv)
  then obtain fee x1 x2 p where
      1: "currency_transfer (bridge_cfg c) w (bridge_account (bridge_cfg c)) fee AllowDeath (ext s) = Ok () x1"
    and 2: "currency_transfer (bridge_cfg c) w (bridge_account (bridge_cfg c)) a AllowDeath x1 = Ok () x2"
    and t: "t = transferred Lock p (Locked w r a fee) x2 s" by (elim do_lock_Ok)
  show "accounted worth held (bridge_account (bridge_cfg c)) h t"
    using ok transfer_in [OF assms 1] transfer_in [OF assms 2]
    unfolding t accounted_transferred by (simp add: accounted_def)
qed (simp add: lock_def transactional_Err_iff)

lemma accounted_burn_nep141:
  assumes "ledger_ok (bridge_cfg c) worth held"
  shows "preserves (accounted worth held (bridge_account (bridge_cfg c)) h) (burn_nep141 c org i r a)"
proof (rule preservesI)
  fix s u t assume ok: "accounted worth held (bridge_account (bridge_cfg c)) h s" and run: "burn_nep141 c org i r a s = Ok u t"
  then obtain w where "do_burn_nep141 c i w r a s = Ok u t" by (auto simp: burn_nep141_def ensure_activated_def op_inv)
  then obtain fee x1 x2 m p where
      1: "currency_transfer (bridge_cfg c) w (bridge_account (bridge_cfg c)) fee AllowDeath (ext s) = Ok () x1"
    and 2: "fungibles_burn_from (bridge_cfg c) i w a x1 = Ok m x2"
    and t: "t = transferred BurnAsset p (Nep141Burned i w r a fee) x2 s" by (elim do_burn_nep141_Ok)
  show "accounted worth held (bridge_account (bridge_cfg c)) h t"
    using ok transfer_in [OF assms 1] other_pallets(3) [OF assms 2]
    unfolding t accounted_transferred by (simp add: accounted_def)
qed (simp add: burn_nep141_def transactional_Err_iff)

lemma accounted_lock_nonfungible:
  assumes "ledger_ok (bridge_cfg c) worth held"
  shows "preserves (accounted worth held (bridge_account (bridge_cfg c)) h) (lock_nonfungible c org k i r)"
proof (rule preservesI)
  fix s u t assume ok: "accounted worth held (bridge_account (bridge_cfg c)) h s"
    and run: "lock_nonfungible c org k i r s = Ok u t"
  then obtain w where "do_lock_nonfungible c k i w r s = Ok u t"
    by (auto simp: lock_nonfungible_def ensure_activated_def op_inv)
  then obtain fee x1 x2 p where
      1: "currency_transfer (bridge_cfg c) w (bridge_account (bridge_cfg c)) fee AllowDeath (ext s) = Ok () x1"
    and 2: "nonfungibles_transfer (bridge_cfg c) k i (bridge_account (bridge_cfg c)) x1 = Ok () x2"
    and t: "t = transferred LockNft p (NonfungibleLocked k i w r fee) x2 s" by (elim do_lock_nonfungible_Ok)
  show "accounted worth held (bridge_account (bridge_cfg c)) h t"
    using ok transfer_in [OF assms 1] other_pallets(5) [OF assms 2]
    unfolding t accounted_transferred by (simp add: accounted_def)
qed (simp add: lock_nonfungible_def transactional_Err_iff)

lemma accounted_writes:
  "accounted worth held b h (s\<lparr>bridge := f\<rparr>) = accounted worth held b h s"
  "paid_in worth b e = 0 \<Longrightarrow> paid_out worth b e = 0 \<Longrightarrow>
   accounted worth held b h (s\<lparr>events := events s @ [e]\<rparr>) = accounted worth held b h s"
  by (simp_all add: accounted_def)

text \<open>An outside operation followed by the event that reports it.\<close>

lemma accounted_outside:
  assumes "\<And>x u y. m x = Ok u y \<Longrightarrow> held y b + paid_out worth b (BridgeEvent e) = held x b + paid_in worth b (BridgeEvent e)"
    and "\<And>x d y. m x = Err d y \<Longrightarrow> held y = held x"
  shows "preserves (accounted worth held b h) (bind (on_ext m) (\<lambda>_. deposit_event (BridgeEvent e)))"
proof (rule preservesI)
  fix s u t assume "accounted worth held b h s" "bind (on_ext m) (\<lambda>_. deposit_event (BridgeEvent e)) s = Ok u t"
  then show "accounted worth held b h t" using assms(1) by (fastforce simp: op_inv accounted_def)
next
  fix s d t assume "accounted worth held b h s" "bind (on_ext m) (\<lambda>_. deposit_event (BridgeEvent e)) s = Err d t"
  then show "accounted worth held b h t" using assms(2) by (fastforce simp: op_inv accounted_def)
qed

lemma accounted_unlocks:
  assumes "ledger_ok (bridge_cfg c) worth held"
  shows "preserves (accounted worth held (bridge_account (bridge_cfg c)) h) (force_unlock c org dest v)"
    and "preserves (accounted worth held (bridge_account (bridge_cfg c)) h) (force_mint_nep141 c org i dest a)"
    and "preserves (accounted worth held (bridge_account (bridge_cfg c)) h) (force_unlock_nonfungible c org dest k j)"
    and "preserves (accounted worth held (bridge_account (bridge_cfg c)) h) (do_unlock c sid w n q)"
    and "preserves (accounted worth held (bridge_account (bridge_cfg c)) h) (do_mint_nep141 c tk sid w n q)"
    and "preserves (accounted worth held (bridge_account (bridge_cfg c)) h) (do_unlock_nonfungible c k j sid w q)"
proof -
  let ?B = "bridge_account (bridge_cfg c)"
  have out: "preserves (accounted worth held ?B h) (bind (on_ext (currency_transfer (bridge_cfg c) ?B w v KeepAlive))
      (\<lambda>_. deposit_event (BridgeEvent e)))"
    if "\<And>v. paid_in worth ?B (BridgeEvent e) = 0" "paid_out worth ?B (BridgeEvent e) = (if w = ?B then 0 else worth v)" for e w v
    using that transfer_out [OF assms] transfer_failed [OF assms] by (intro accounted_outside) fastforce+
  have mint: "preserves (accounted worth held ?B h) (bind (on_ext (fungibles_mint_into (bridge_cfg c) i w n))
      (\<lambda>_. deposit_event (BridgeEvent e)))"
    if "paid_in worth ?B (BridgeEvent e) = 0" "paid_out worth ?B (BridgeEvent e) = 0" for e i w n
    using that other_pallets [OF assms] by (intro accounted_outside) fastforce+
  have nft: "preserves (accounted worth held ?B h) (bind (on_ext (nonfungibles_transfer (bridge_cfg c) k j w))
      (\<lambda>_. deposit_event (BridgeEvent e)))"
    if "paid_in worth ?B (BridgeEvent e) = 0" "paid_out worth ?B (BridgeEvent e) = 0" for e k j w
    using that other_pallets [OF assms] by (intro accounted_outside) fastforce+
  note steps = preserves_bind preserves_origin_checks preserves_result_or preserves_ok_or preserves_gets
  show "preserves (accounted worth held ?B h) (force_unlock c org dest v)"
    unfolding force_unlock_def by (intro out steps) simp_all
  show "preserves (accounted worth held ?B h) (force_mint_nep141 c org i dest a)"
    unfolding force_mint_nep141_def by (intro mint steps) simp_all
  show "preserves (accounted worth held ?B h) (force_unlock_nonfungible c org dest k j)"
    unfolding force_unlock_nonfungible_def by (intro nft steps) simp_all
  show "preserves (accounted worth held ?B h) (do_unlock c sid w n q)"
    unfolding do_unlock_def by (intro out steps) simp_all
  show "preserves (accounted worth held ?B h) (do_mint_nep141 c tk sid w n q)"
    unfolding do_mint_nep141_def by (intro mint steps) simp_all
  show "preserves (accounted worth held ?B h) (do_unlock_nonfungible c k j sid w q)"
    unfolding do_unlock_nonfungible_def by (intro nft steps) simp_all
qed

lemma accounted_admin:
  "preserves (accounted worth held b h) (set_token_id c org tk i)"
  "preserves (accounted worth held b h) (delete_token_id org tk)"
  "preserves (accounted worth held b h) (set_oracle_account org dest)"
  "preserves (accounted worth held b h) (set_token_price c org near native)"
  "preserves (accounted worth held b h) (set_coef_for_calculate_fee org k)"
  unfolding set_token_id_def delete_token_id_def set_oracle_account_def set_token_price_def
    set_coef_for_calculate_fee_def ensure_activated_def calculate_and_update_fee_def Let_def
  by (intro preserves_rules; simp add: accounted_writes)+

lemma accounted_act:
  assumes "ledger_ok (bridge_cfg c) worth held"
  shows "preserves (accounted worth held (bridge_account (bridge_cfg c)) h) (bridge_act c m)"
proof (cases m)
  case (Dispatch org d)
  then show ?thesis
    by (cases d) (simp_all add: accounted_lock [OF assms] accounted_burn_nep141 [OF assms]
        accounted_lock_nonfungible [OF assms] accounted_unlocks [OF assms] accounted_admin)
qed (simp_all add: accounted_unlocks [OF assms] unlock_def mint_nep141_def unlock_nonfungible_def)

lemma accounted_acts:
  assumes "ledger_ok (bridge_cfg c) worth held"
  shows "bridge_acts c ms s = Some s' \<Longrightarrow> accounted worth held (bridge_account (bridge_cfg c)) h s \<Longrightarrow>
    accounted worth held (bridge_account (bridge_cfg c)) h s'"
proof (induction ms arbitrary: s)
  case (Cons m ms)
  show ?case
  proof (cases "bridge_act c m s")
    case (Ok u t)
    then show ?thesis
      using Cons.IH [of t] Cons.prems(1) preserves_Ok [OF accounted_act [OF assms] Ok Cons.prems(2)] by simp
  next
    case (Err e t)
    then show ?thesis
      using Cons.IH [of t] Cons.prems(1) preserves_Err [OF accounted_act [OF assms] Err Cons.prems(2)] by simp
  qed (use Cons.prems in simp)
qed simp

section \<open>The concrete ledger\<close>

lemma demo_outside_returns: "outside_returns (bridge_cfg demo_config)"
  by (auto simp: outside_returns_def demo_simps Let_def split: option.splits if_splits)

text \<open>A transfer of \<open>pallet_balances\<close> with the existential deposit \<open>ed\<close>: an account left with less is reaped.\<close>

definition reaping_transfer :: "nat \<Rightarrow> nat \<Rightarrow> nat \<Rightarrow> u128 \<Rightarrow> existence_requirement \<Rightarrow> (demo_ext, dispatch_error, unit) op" where
  "reaping_transfer ed a b v r x =
     (if v = 0 \<or> a = b then Ok () x
      else if bal x a < unat v \<or> bal x b + unat v < ed \<or> (r = KeepAlive \<and> bal x a < unat v + ed) then Err (OutsideError 2) x
      else let rest = (if bal x a < unat v + ed then 0 else bal x a - unat v) in
        Ok () (x\<lparr>bal := (bal x)(a := rest, b := bal x b + unat v)\<rparr>))"

definition reaping_config :: "nat \<Rightarrow> (nat, u128, demo_ext) config" where
  "reaping_config ed = demo_config\<lparr>bridge_cfg := demo_bridge_config\<lparr>currency_transfer := reaping_transfer ed\<rparr>\<rparr>"

lemma reaping_ledger_ok: "ledger_ok (bridge_cfg (reaping_config ed)) unat bal"
  by (auto simp: ledger_ok_def reaping_config_def demo_bridge_config_def reaping_transfer_def demo_mint_into_def
      demo_burn_from_def demo_nft_transfer_def preserves_def Let_def split: if_splits option.splits)

section \<open>Properties\<close>

text \<open>
  C2. Over any sequence of calls to the bridge and of unlocks and mints made for observations, failed ones
  included, the free balance of the bridge's account changes by exactly what the Locked, Nep141Burned and
  NonfungibleLocked events say was paid in (amounts and fees) minus what the Unlocked and ForceUnlocked
  events say was paid out, with a currency that pays a transfer to its receiver in full and may burn the
  rest of a sender's balance below the existential deposit only when the transfer allows its death.
\<close>

theorem bridge_account_matches_events:
  assumes "ledger_ok (bridge_cfg c) worth held" and "bridge_acts c acts s = Some s'"
    and "b = bridge_account (bridge_cfg c)"
  shows "held (ext s') b + total_out worth b (events s') + total_in worth b (events s) =
    held (ext s) b + total_out worth b (events s) + total_in worth b (events s')"
  using accounted_acts [OF assms(1,2), of "(total_in worth b (events s), held (ext s) b + total_out worth b (events s))"]
  by (simp add: accounted_def assms(3))

text \<open>Account 1 locks 995 of its 1000, which leaves it 5, less than the existential deposit of 10: it ends with none.\<close>

theorem bridge_account_matches_events_witness:
  "\<exists>s'. bridge_acts (reaping_config 10) [Dispatch (Signed 1) (CallLock [98] 995), Unlock [99] 2 10 0] demo_state = Some s' \<and>
     bal (ext s') 0 = 1985 \<and> bal (ext s') 1 = 0"
proof -
  let ?acts = "[Dispatch (Signed 1) (CallLock [98] 995), Unlock [99] 2 10 0]"
  have "\<exists>s'. bridge_acts (reaping_config 10) ?acts demo_state = Some s' \<and> total_out unat 0 (events s') = 10 \<and>
    total_in unat 0 (events s') = 995 \<and> bal (ext s') 1 = 0"
    by (simp add: lock_def do_lock_def ensure_activated_def do_lock_fungible_transfer_fee_def stored_fee_def unlock_def
        do_unlock_def from_utf8_def reaping_config_def reaping_transfer_def demo_simps op_simps Let_def submit_eq
        too_large_def queue_full_def accept_message_def total_in_def total_out_def)
  then obtain s' where s': "bridge_acts (reaping_config 10) ?acts demo_state = Some s'" "total_out unat 0 (events s') = 10"
    "total_in unat 0 (events s') = 995" "bal (ext s') 1 = 0" by blast
  from bridge_account_matches_events [OF reaping_ledger_ok s'(1), of 0] s' show ?thesis
    by (simp add: reaping_config_def demo_simps total_in_def total_out_def)
qed

text \<open>
  C15. lock either does everything (checks the origin, activation and UTF-8 of the receiver, moves the fee
  and then the amount to the bridge's account, queues one Lock message with the next nonce that carries
  both, emits Locked with that nonce) or, on any error, leaves the whole state unchanged; it panics only
  when an activated chain has no fee to charge (the stored one is empty, or there is none and zero is not a
  balance) or one of its two outside transfers panics.
\<close>

theorem lock_all_or_nothing:
  "case lock c org r a s of
     Ok _ s' \<Rightarrow> \<exists>w fee aw fw x1 x2 p.
       org = Signed w \<and> is_activated (app s) \<and> utf8_valid r \<and> stored_fee c Fungible (bridge s) = Some fee \<and>
       balance_into_u128 (bridge_cfg c) a = Some aw \<and> balance_into_u128 (bridge_cfg c) fee = Some fw \<and>
       currency_transfer (bridge_cfg c) w (bridge_account (bridge_cfg c)) fee AllowDeath (ext s) = Ok () x1 \<and>
       currency_transfer (bridge_cfg c) w (bridge_account (bridge_cfg c)) a AllowDeath x1 = Ok () x2 \<and>
       try_to_vec c (LockPayload \<lparr>lock_sender = hex_format c (account_encode c w), lock_receiver_id = r,
         lock_amount = aw, lock_fee = fw\<rparr>) = Some p \<and>
       s' = s\<lparr>ext := x2,
         um := (um s)\<lparr>message_queue := message_queue (um s) @
               [\<lparr>msg_nonce = nonce (um s) + 1, msg_payload_type = Lock, msg_payload = p\<rparr>], nonce := nonce (um s) + 1\<rparr>,
         events := events s @ [UmEvent (MessageAccepted (nonce (um s) + 1)),
           BridgeEvent (Locked w r a fee (nonce (um s) + 1))]\<rparr>
   | Err _ s' \<Rightarrow> s' = s
   | Panic \<Rightarrow> \<exists>w. org = Signed w \<and> is_activated (app s) \<and> utf8_valid r \<and>
       (stored_fee c Fungible (bridge s) = None \<or>
        (\<exists>fee. stored_fee c Fungible (bridge s) = Some fee \<and>
          (currency_transfer (bridge_cfg c) w (bridge_account (bridge_cfg c)) fee AllowDeath (ext s) = Panic \<or>
           (\<exists>x1. currency_transfer (bridge_cfg c) w (bridge_account (bridge_cfg c)) fee AllowDeath (ext s) = Ok () x1 \<and>
              currency_transfer (bridge_cfg c) w (bridge_account (bridge_cfg c)) a AllowDeath x1 = Panic))))"
proof (cases "lock c org r a s")
  case (Ok u s')
  then obtain w where w: "org = Signed w" "is_activated (app s)" "do_lock c w r a s = Ok u s'"
    by (auto simp: lock_def ensure_activated_def op_inv)
  from w(3) show ?thesis
    unfolding Ok outcome.case by (rule do_lock_Ok) (use w(1,2) in \<open>simp add: transferred_def\<close>)
next
  case (Err e s')
  then have "s' = s" by (simp add: lock_def transactional_Err_iff)
  then show ?thesis by (simp add: Err)
next
  case Panic
  then obtain w where w: "org = Signed w" "is_activated (app s)" "do_lock c w r a s = Panic"
    by (auto simp: lock_def ensure_activated_def op_inv)
  have "\<exists>x1. currency_transfer (bridge_cfg c) w (bridge_account (bridge_cfg c)) fee AllowDeath (ext s) = Ok () x1 \<and>
      currency_transfer (bridge_cfg c) w (bridge_account (bridge_cfg c)) a AllowDeath x1 = Panic"
    if "stored_fee c Fungible (bridge s) = Some fee"
      "currency_transfer (bridge_cfg c) w (bridge_account (bridge_cfg c)) fee AllowDeath (ext s) \<noteq> Panic" for fee
    using do_lock_Panic [OF w(3)] that by auto
  with do_lock_Panic [OF w(3)] show ?thesis
    unfolding Panic outcome.case using w(1,2) by (cases "stored_fee c Fungible (bridge s)") auto
qed

end
