(* ===== verification/Lpos.thy ===== *)
theory Lpos
  imports UpwardMessages
begin

text \<open>
  The pallet \<open>lpos\<close> (\<open>lpos/src/lib.rs\<close>): eras of sessions, the stakers of each era, reward points,
  the payout at the end of an era, and the offences reported for it. The functions that only touch
  this pallet's storage are functions on \<open>lpos_state\<close>; those that call other pallets are calls on
  the runtime. Integer arithmetic on \<open>u32\<close> and \<open>u128\<close> wraps around, as in a release build.
\<close>

section \<open>Storage helpers\<close>

definition on_lpos :: "('a lpos_state \<Rightarrow> 'r \<times> 'a lpos_state) \<Rightarrow> ('a, 'b, 'x, 'r) call" where
  "on_lpos f s = (case f (lpos s) of (r, l) \<Rightarrow> Ok r (s\<lparr>lpos := l\<rparr>))"

definition modify_lpos :: "('a lpos_state \<Rightarrow> 'a lpos_state) \<Rightarrow> ('a, 'b, 'x, unit) call" where
  "modify_lpos f = modify (\<lambda>s. s\<lparr>lpos := f (lpos s)\<rparr>)"

definition update_ext :: "('x \<Rightarrow> 'x) \<Rightarrow> ('a, 'b, 'x, unit) call" where
  "update_ext f = modify (\<lambda>s. s\<lparr>ext := f (ext s)\<rparr>)"

section \<open>Genesis, hooks and root calls\<close>

definition lpos_genesis_build :: "u32 \<Rightarrow> u128 \<Rightarrow> ('a, 'b, 'x, unit) call" where
  "lpos_genesis_build depth payout =
     modify_lpos (\<lambda>l. l\<lparr>history_depth := depth, era_payout := payout\<rparr>)"

definition on_finalize :: "('a, 'b, 'x) config \<Rightarrow> ('a, 'b, 'x, unit) call" where
  "on_finalize c =
     bind (gets (\<lambda>s. active_era (lpos s))) (\<lambda>active.
     case active of None \<Rightarrow> ret ()
     | Some e \<Rightarrow>
         if era_start e = None then
           bind (gets (\<lambda>s. unix_time_millis (lpos_cfg c) (ext s))) (\<lambda>now.
           modify_lpos (\<lambda>l. l\<lparr>active_era := Some (e\<lparr>era_start := Some now\<rparr>)\<rparr>))
         else ret ())"

definition clear_era_information :: "era_index \<Rightarrow> 'a lpos_state \<Rightarrow> 'a lpos_state" where
  "clear_era_information e l =
     l\<lparr>eras_stakers := (eras_stakers l)(e := []),
       eras_validator_reward := (eras_validator_reward l)(e := None),
       eras_reward_points := (eras_reward_points l)(e := default_era_reward_points),
       eras_total_stake := (eras_total_stake l)(e := 0),
       eras_start_session_index := (eras_start_session_index l)(e := None)\<rparr>"

text \<open>\<open>for era_index in first_era..last_era\<close>, exclusive of \<open>last_era\<close>.\<close>

definition clear_eras :: "era_index \<Rightarrow> era_index \<Rightarrow> 'a lpos_state \<Rightarrow> 'a lpos_state" where
  "clear_eras first_era last_era l =
     fold (\<lambda>i. clear_era_information (word_of_nat i)) [unat first_era ..< unat last_era] l"

definition set_history_depth :: "'a origin \<Rightarrow> era_index \<Rightarrow> u32 \<Rightarrow> ('a, 'b, 'x, unit) call" where
  "set_history_depth org new_history_depth era_items_deleted =
     bind (ensure_root org) (\<lambda>_.
     bind (gets (\<lambda>s. current_era (lpos s))) (\<lambda>current.
     case current of None \<Rightarrow> ret ()
     | Some current \<Rightarrow>
         modify_lpos (\<lambda>l.
           let last_kept = (case checked_sub current (history_depth l) of Some e \<Rightarrow> e | None \<Rightarrow> 0);
               new_last_kept = (case checked_sub current new_history_depth of Some e \<Rightarrow> e | None \<Rightarrow> 0)
           in (clear_eras last_kept new_last_kept l)\<lparr>history_depth := new_history_depth\<rparr>)))"

definition force_set_era_payout :: "'a origin \<Rightarrow> u128 \<Rightarrow> ('a, 'b, 'x, unit) call" where
  "force_set_era_payout org payout =
     bind (ensure_root org) (\<lambda>_. modify_lpos (\<lambda>l. l\<lparr>era_payout := payout\<rparr>))"

section \<open>Planning an era\<close>

text \<open>One iteration of the loop of \<open>store_stakers_info\<close>.\<close>

definition store_staker :: "'a \<times> u128 \<Rightarrow> u128 \<times> ('a \<times> u128) list \<Rightarrow> u128 \<times> ('a \<times> u128) list" where
  "store_staker entry acc =
     (case entry of (who, weight) \<Rightarrow> case acc of (total_stake, stakers) \<Rightarrow>
        (saturating_add total_stake weight, AList.update who weight stakers))"

definition store_stakers_info :: "('a \<times> u128) list \<Rightarrow> era_index \<Rightarrow> 'a lpos_state \<Rightarrow> 'a list \<times> 'a lpos_state" where
  "store_stakers_info vs new_planned_era l =
     (let elected_stashes = map fst vs;
          (total_stake, stakers) = fold store_staker vs (0, eras_stakers l new_planned_era)
      in (elected_stashes,
          l\<lparr>eras_stakers := (eras_stakers l)(new_planned_era := stakers),
            eras_total_stake := (eras_total_stake l)(new_planned_era := total_stake)\<rparr>))"

definition trigger_new_era :: "session_index \<Rightarrow> ('a \<times> u128) list \<Rightarrow> 'a lpos_state \<Rightarrow> 'a list \<times> 'a lpos_state" where
  "trigger_new_era start_session_index vs l =
     (let new_planned_era = (case current_era l of Some e \<Rightarrow> e + 1 | None \<Rightarrow> 0);
          l1 = l\<lparr>current_era := Some new_planned_era\<rparr>;
          l2 = l1\<lparr>eras_start_session_index :=
                    (eras_start_session_index l1)(new_planned_era \<mapsto> start_session_index)\<rparr>;
          l3 = (case checked_sub new_planned_era (history_depth l2 + 1) of
                  Some old_era \<Rightarrow> clear_era_information old_era l2
                | None \<Rightarrow> l2)
      in store_stakers_info vs new_planned_era l3)"

definition try_trigger_new_era :: "session_index \<Rightarrow> ('a, 'b, 'x, 'a list option) call" where
  "try_trigger_new_era start_session_index =
     bind (gets (\<lambda>s. planned_validators (app s))) (\<lambda>vs.
     bind (deposit_event (LposEvent TriggerNewEra)) (\<lambda>_.
     bind (on_lpos (trigger_new_era start_session_index vs)) (\<lambda>elected.
     ret (Some elected))))"

definition new_session :: "('a, 'b, 'x) config \<Rightarrow> session_index \<Rightarrow> ('a, 'b, 'x, 'a list option) call" where
  "new_session c session_index =
     bind (gets (\<lambda>s. current_era (lpos s))) (\<lambda>current.
     case current of
       Some current \<Rightarrow>
         bind (gets (\<lambda>s. case eras_start_session_index (lpos s) current of Some i \<Rightarrow> i | None \<Rightarrow> 0))
           (\<lambda>current_era_start_session_index.
         (let era_length = saturating_sub session_index current_era_start_session_index;
              sessions = sessions_per_era (lpos_cfg c) in
          if era_length < sessions then
            bind (gets (\<lambda>s. is_activated (app s))) (\<lambda>activated.
            if activated \<and> era_length = sessions - 1 then
              bind (gets (\<lambda>s. next_set_id (app s))) (\<lambda>next_id.
              bind (unwrap (try_to_vec c (PlanNewEraPayload \<lparr>new_era = next_id\<rparr>))) (\<lambda>payload.
              bind (catch (submit c None PlanNewEra payload)
                     (\<lambda>_. deposit_event (LposEvent (PlanNewEraEvent next_id)))
                     (\<lambda>_. deposit_event (LposEvent PlanNewEraFailed))) (\<lambda>_.
              ret None)))
            else ret None)
          else try_trigger_new_era session_index))
     | None \<Rightarrow> try_trigger_new_era session_index)"

section \<open>Starting an era\<close>

definition start_era :: "('a, 'b, 'x) config \<Rightarrow> session_index \<Rightarrow> ('a, 'b, 'x, unit) call" where
  "start_era c start_session =
     bind (gets (\<lambda>s. next_set_id (app s))) (\<lambda>next_id.
     bind (on_lpos (\<lambda>l.
       let new_index = (case active_era l of Some info \<Rightarrow> era_number info + 1 | None \<Rightarrow> 0)
       in (new_index, l\<lparr>active_era := Some \<lparr>era_number = new_index, era_set_id = next_id - 1, era_start = None\<rparr>\<rparr>)))
     (\<lambda>new_index.
     bind (modify_lpos (\<lambda>l. l\<lparr>bonded_eras := bonded_eras l @ [(new_index, start_session)]\<rparr>)) (\<lambda>_.
     if new_index > bonding_duration (lpos_cfg c) then
       bind (gets (\<lambda>s. bonded_eras (lpos s))) (\<lambda>bonded.
       case bonded of
         (_, first_session) # _ \<Rightarrow> update_ext (session_prune_up_to (lpos_cfg c) first_session)
       | [] \<Rightarrow> ret ())
     else ret ())))"

definition start_session :: "('a, 'b, 'x) config \<Rightarrow> session_index \<Rightarrow> ('a, 'b, 'x, unit) call" where
  "start_session c start =
     bind (gets (\<lambda>s. case active_era (lpos s) of Some e \<Rightarrow> era_number e + 1 | None \<Rightarrow> 0)) (\<lambda>next_active_era.
     bind (gets (\<lambda>s. eras_start_session_index (lpos s) next_active_era)) (\<lambda>next_start.
     case next_start of
       Some next_active_era_start_session_index \<Rightarrow>
         if next_active_era_start_session_index = start then start_era c start
         else if next_active_era_start_session_index < start then start_era c start
         else ret ()
     | None \<Rightarrow> ret ()))"

section \<open>Ending an era\<close>

text \<open>
  \<open>get_exclude_validators\<close>; \<open>None\<close> is the panic of the division by \<open>validators.len() as u32\<close>.
\<close>

definition get_exclude_validators :: "('a, 'b, 'x) config \<Rightarrow> era_index \<Rightarrow> 'a lpos_state \<Rightarrow> 'a list option" where
  "get_exclude_validators c index l =
     (let vs = map fst (storage_iter (staker_order (lpos_cfg c)) (eras_stakers l index));
          points = eras_reward_points l index in
      if points_individual points = [] then Some vs
      else if word_of_nat (length vs) = (0 :: u32) then None
      else
        let expect_points = points_total points div word_of_nat (length vs) * 80 div 100;
            qualified = map fst (filter (\<lambda>(v, p). p \<ge> expect_points) (points_individual points))
        in Some (filter (\<lambda>v. v \<notin> set qualified) vs))"

definition drain_offenders :: "('a, 'b, 'x) config \<Rightarrow> 'a lpos_state \<Rightarrow> offender list \<times> 'a lpos_state" where
  "drain_offenders c l =
     (map (\<lambda>((k, who), n). \<lparr>offender_kind = from_utf8_lossy_trim (lpos_cfg c) k,
             offender_who = hex_format c (account_encode c who), offender_offences = n\<rparr>)
        (storage_iter (offender_order (lpos_cfg c)) (offenders l)),
      l\<lparr>offenders := []\<rparr>)"

text \<open>The duration of the era, a subtraction that wraps around in a release build and that nothing uses, is left out.\<close>

definition end_era :: "('a, 'b, 'x) config \<Rightarrow> active_era_info \<Rightarrow> session_index \<Rightarrow> ('a, 'b, 'x, unit) call" where
  "end_era c active session_index =
     bind (gets (\<lambda>s. (is_activated (app s), era_payout (lpos s),
                      eras_validator_reward (lpos s) (era_number active)))) (\<lambda>(activated, payout, paid).
     if \<not> activated \<or> payout = 0 then ret ()
     else case era_start active of None \<Rightarrow> ret ()
     | Some active_era_start \<Rightarrow>
       if paid \<noteq> None then ret ()
       else
         bind (modify_lpos (\<lambda>l. l\<lparr>eras_validator_reward :=
                 (eras_validator_reward l)(era_number active \<mapsto> payout)\<rparr>)) (\<lambda>_.
         bind (gets (\<lambda>s. get_exclude_validators c (era_number active) (lpos s))) (\<lambda>exclude.
         bind (unwrap exclude) (\<lambda>excluded.
         (let excluded_str = map (\<lambda>v. hex_format c (account_encode c v)) excluded in
         bind (on_lpos (drain_offenders c)) (\<lambda>drained.
         bind (ok_or (balance_from_u128 (bridge_cfg c) payout) (LposError LposAmountOverflow)) (\<lambda>amount.
         bind (update_ext (currency_deposit_creating (lpos_cfg c) (lpos_account (lpos_cfg c)) amount)) (\<lambda>_.
         bind (ok_or (try_to_vec c (EraPayoutPayload
                 \<lparr>end_era_set_id = era_set_id active, excluded_validators = excluded_str,
                  payout_offenders = drained\<rparr>)) (LposError LposBorshSerializeFailed)) (\<lambda>payload.
         catch (submit c None EraPayout payload)
           (\<lambda>_. deposit_event (LposEvent (EraPayoutEvent (era_set_id active) excluded)))
           (\<lambda>_. deposit_event (LposEvent (EraPayoutFailed (era_set_id active)))))))))))))"

definition end_session :: "('a, 'b, 'x) config \<Rightarrow> session_index \<Rightarrow> ('a, 'b, 'x, unit) call" where
  "end_session c session_index =
     bind (gets (\<lambda>s. active_era (lpos s))) (\<lambda>active.
     case active of None \<Rightarrow> ret ()
     | Some info \<Rightarrow>
         bind (gets (\<lambda>s. eras_start_session_index (lpos s) (era_number info + 1))) (\<lambda>next_start.
         case next_start of None \<Rightarrow> ret ()
         | Some next_active_era_start_session_index \<Rightarrow>
             if next_active_era_start_session_index = session_index + 1
             then end_era c info session_index
             else ret ()))"

section \<open>\<open>SessionManager\<close>, \<open>historical::SessionManager\<close>\<close>

definition plan_session :: "('a, 'b, 'x) config \<Rightarrow> session_index \<Rightarrow> ('a, 'b, 'x, 'a list option) call" where
  "plan_session c new_index =
     bind (modify_lpos (\<lambda>l. l\<lparr>current_planned_session := new_index\<rparr>)) (\<lambda>_. new_session c new_index)"

definition finish_session :: "('a, 'b, 'x) config \<Rightarrow> session_index \<Rightarrow> ('a, 'b, 'x, unit) call" where
  "finish_session c end_index = catch (end_session c end_index) (\<lambda>_. ret ()) (\<lambda>e. ret ())"

definition validators_with_exposure :: "'a list \<Rightarrow> 'a lpos_state \<Rightarrow> ('a \<times> u128) list" where
  "validators_with_exposure vs l =
     (let current = (case current_era l of Some e \<Rightarrow> e | None \<Rightarrow> 0)
      in map (\<lambda>v. (v, eras_stakers_get l current v)) vs)"

definition historical_new_session :: "('a, 'b, 'x) config \<Rightarrow> session_index
    \<Rightarrow> ('a, 'b, 'x, ('a \<times> u128) list option) call" where
  "historical_new_session c new_index =
     bind (plan_session c new_index) (\<lambda>vs.
     gets (\<lambda>s. map_option (\<lambda>v. validators_with_exposure v (lpos s)) vs))"

section \<open>Reward points, exposures\<close>

definition add_points :: "'a \<times> u32 \<Rightarrow> 'a era_reward_points \<Rightarrow> 'a era_reward_points" where
  "add_points entry era_rewards =
     (case entry of (validator, points) \<Rightarrow>
        \<lparr>points_total = points_total era_rewards + points,
         points_individual = AList.update validator
           ((case map_of (points_individual era_rewards) validator of Some p \<Rightarrow> p | None \<Rightarrow> 0) + points)
           (points_individual era_rewards)\<rparr>)"

definition reward_by_ids :: "('a \<times> u32) list \<Rightarrow> 'a lpos_state \<Rightarrow> 'a lpos_state" where
  "reward_by_ids validators_points l =
     (case active_era l of None \<Rightarrow> l
      | Some active \<Rightarrow>
          l\<lparr>eras_reward_points := (eras_reward_points l)(era_number active :=
              fold add_points validators_points (eras_reward_points l (era_number active)))\<rparr>)"

definition note_author :: "'a \<Rightarrow> ('a, 'b, 'x, unit) call" where
  "note_author author = modify_lpos (reward_by_ids [(author, 1)])"

definition exposure_of :: "'a \<Rightarrow> 'a lpos_state \<Rightarrow> u128 option" where
  "exposure_of validator l =
     map_option (\<lambda>active. eras_stakers_get l (era_number active) validator) (active_era l)"

section \<open>\<open>SessionInterface\<close>, \<open>LposInterface\<close>\<close>

definition session_is_active_validator :: "('a, 'b, 'x) config \<Rightarrow> bytes \<Rightarrow> bytes \<Rightarrow> 'x \<Rightarrow> 'a option" where
  "session_is_active_validator c key_id key_data x =
     (let who = session_key_owner (lpos_cfg c) key_id key_data x in
      if who = None then None
      else find (\<lambda>v. validator_id_of (lpos_cfg c) v = who) (session_validators (lpos_cfg c) x))"

text \<open>\<open>impl SessionInterface for ()\<close>: no validators, and nothing happens.\<close>

definition unit_session_interface :: "('a, 'b, 'x) lpos_config \<Rightarrow> ('a, 'b, 'x) lpos_config" where
  "unit_session_interface c = c\<lparr>session_disable_index := (\<lambda>i. ret True), session_validators := (\<lambda>x. []),
     session_prune_up_to := (\<lambda>i x. x), session_key_owner := (\<lambda>key_id key_data x. None)\<rparr>"

definition is_active_validator :: "('a, 'b, 'x) config \<Rightarrow> bytes \<Rightarrow> bytes \<Rightarrow> ('a, 'b, 'x) runtime \<Rightarrow> 'a option" where
  "is_active_validator c key_id key_data s = session_is_active_validator c key_id key_data (ext s)"

definition active_stake_of :: "('a, 'b, 'x) runtime \<Rightarrow> 'a \<Rightarrow> u128" where
  "active_stake_of s who =
     (case map_option (\<lambda>active. eras_stakers_get (lpos s) (era_number active) who) (active_era (lpos s)) of
        Some v \<Rightarrow> v | None \<Rightarrow> 0)"

definition active_total_stake :: "('a, 'b, 'x) runtime \<Rightarrow> u128 option" where
  "active_total_stake s =
     map_option (\<lambda>active. eras_total_stake (lpos s) (era_number active)) (active_era (lpos s))"

section \<open>Offences\<close>

text \<open>
  \<open>FilterHistoricalOffences\<close>: \<open>inner\<close> is the call of the wrapped reporter \<open>R\<close>, whose error type is
  \<open>'e\<close>; \<open>k\<close> is the offence's kind \<open>O::ID\<close>.
\<close>

definition count_offence :: "kind \<Rightarrow> 'a \<Rightarrow> 'a lpos_state \<Rightarrow> 'a lpos_state" where
  "count_offence k who l =
     l\<lparr>offenders := AList.update (k, who)
         ((case map_of (offenders l) (k, who) of Some n \<Rightarrow> n | None \<Rightarrow> 0) + 1) (offenders l)\<rparr>"

definition report_offence :: "(('a, 'b, 'x) runtime, 'e, unit) op \<Rightarrow> kind \<Rightarrow> session_index \<Rightarrow> 'a list
    \<Rightarrow> (('a, 'b, 'x) runtime, 'e, unit) op" where
  "report_offence inner k offence_session offender_ids =
     bind (gets (\<lambda>s. bonded_eras (lpos s))) (\<lambda>bonded.
     if (case bonded of (_, start) # _ \<Rightarrow> offence_session \<ge> start | [] \<Rightarrow> False) then
       bind inner (\<lambda>_.
       modify (\<lambda>s. s\<lparr>lpos := fold (count_offence k) offender_ids (lpos s)\<rparr>))
     else
       modify (\<lambda>s. s\<lparr>events := events s @ [LposEvent (OldSlashingReportDiscarded offence_session)]\<rparr>))"

definition is_known_offence :: "('i list \<Rightarrow> 't \<Rightarrow> bool) \<Rightarrow> 'i list \<Rightarrow> 't \<Rightarrow> bool" where
  "is_known_offence inner offender_ids time_slot = inner offender_ids time_slot"

section \<open>Evaluation\<close>

declare on_lpos_def [op_simps] modify_lpos_def [op_simps] update_ext_def [op_simps]

lemma on_lpos_iff [op_inv]:
  "on_lpos f s = Ok r t \<longleftrightarrow> r = fst (f (lpos s)) \<and> t = s\<lparr>lpos := snd (f (lpos s))\<rparr>"
  "on_lpos f s \<noteq> Err e t" "on_lpos f s \<noteq> Panic"
  by (auto simp: on_lpos_def split: prod.splits)

lemma modify_lpos_iff [op_inv]:
  "modify_lpos f s = Ok y t \<longleftrightarrow> t = s\<lparr>lpos := f (lpos s)\<rparr>"
  "modify_lpos f s \<noteq> Err e t" "modify_lpos f s \<noteq> Panic"
  by (auto simp: modify_lpos_def modify_def)

lemma update_ext_iff [op_inv]:
  "update_ext f s = Ok y t \<longleftrightarrow> t = s\<lparr>ext := f (ext s)\<rparr>"
  "update_ext f s \<noteq> Err e t" "update_ext f s \<noteq> Panic"
  by (auto simp: update_ext_def modify_def)

lemma preserves_on_lpos [preserves_rules]:
  "(\<And>s. P s \<Longrightarrow> P (s\<lparr>lpos := snd (f (lpos s))\<rparr>)) \<Longrightarrow> preserves P (on_lpos f)"
  by (rule preservesI) (auto simp: on_lpos_iff)

lemma preserves_modify_lpos [preserves_rules]:
  "(\<And>s. P s \<Longrightarrow> P (s\<lparr>lpos := f (lpos s)\<rparr>)) \<Longrightarrow> preserves P (modify_lpos f)"
  by (rule preservesI) (auto simp: modify_lpos_iff)

lemma preserves_update_ext [preserves_rules]:
  "(\<And>s. P s \<Longrightarrow> P (s\<lparr>ext := f (ext s)\<rparr>)) \<Longrightarrow> preserves P (update_ext f)"
  by (rule preservesI) (auto simp: update_ext_iff)

section \<open>What the era functions write\<close>

text \<open>The eras of a state: everything that decides when eras are planned and started.\<close>

definition era_view :: "'a lpos_state \<Rightarrow> era_index option \<times> era_index option \<times> (era_index \<rightharpoonup> session_index)
    \<times> (era_index \<times> session_index) list \<times> u32" where
  "era_view l = (current_era l, map_option era_number (active_era l), eras_start_session_index l,
     bonded_eras l, history_depth l)"

lemma store_stakers_info_simps [simp]:
  "fst (store_stakers_info vs e l) = map fst vs"
  "current_era (snd (store_stakers_info vs e l)) = current_era l"
  "active_era (snd (store_stakers_info vs e l)) = active_era l"
  "eras_start_session_index (snd (store_stakers_info vs e l)) = eras_start_session_index l"
  "bonded_eras (snd (store_stakers_info vs e l)) = bonded_eras l"
  "history_depth (snd (store_stakers_info vs e l)) = history_depth l"
  "eras_validator_reward (snd (store_stakers_info vs e l)) = eras_validator_reward l"
  "eras_reward_points (snd (store_stakers_info vs e l)) = eras_reward_points l"
  "era_payout (snd (store_stakers_info vs e l)) = era_payout l"
  "offenders (snd (store_stakers_info vs e l)) = offenders l"
  "eras_stakers (snd (store_stakers_info vs e l)) =
     (eras_stakers l)(e := snd (fold store_staker vs (0, eras_stakers l e)))"
  "eras_total_stake (snd (store_stakers_info vs e l)) =
     (eras_total_stake l)(e := fst (fold store_staker vs (0, eras_stakers l e)))"
  by (simp_all add: store_stakers_info_def Let_def split: prod.splits)

lemma clear_era_information_simps [simp]:
  "current_era (clear_era_information e l) = current_era l"
  "active_era (clear_era_information e l) = active_era l"
  "bonded_eras (clear_era_information e l) = bonded_eras l"
  "history_depth (clear_era_information e l) = history_depth l"
  "era_payout (clear_era_information e l) = era_payout l"
  "offenders (clear_era_information e l) = offenders l"
  "eras_start_session_index (clear_era_information e l) = (eras_start_session_index l)(e := None)"
  "eras_stakers (clear_era_information e l) = (eras_stakers l)(e := [])"
  "eras_total_stake (clear_era_information e l) = (eras_total_stake l)(e := 0)"
  "eras_validator_reward (clear_era_information e l) = (eras_validator_reward l)(e := None)"
  "eras_reward_points (clear_era_information e l) = (eras_reward_points l)(e := default_era_reward_points)"
  by (simp_all add: clear_era_information_def)

definition next_planned_era :: "'a lpos_state \<Rightarrow> era_index" where
  "next_planned_era l = (case current_era l of Some e \<Rightarrow> e + 1 | None \<Rightarrow> 0)"

lemma trigger_new_era_simps [simp]:
  "fst (trigger_new_era i vs l) = map fst vs"
  "current_era (snd (trigger_new_era i vs l)) = Some (next_planned_era l)"
  "active_era (snd (trigger_new_era i vs l)) = active_era l"
  "bonded_eras (snd (trigger_new_era i vs l)) = bonded_eras l"
  "history_depth (snd (trigger_new_era i vs l)) = history_depth l"
  "era_payout (snd (trigger_new_era i vs l)) = era_payout l"
  "offenders (snd (trigger_new_era i vs l)) = offenders l"
  by (simp_all add: trigger_new_era_def next_planned_era_def Let_def split: option.splits)

lemma trigger_new_era_start:
  "eras_start_session_index (snd (trigger_new_era i vs l)) =
     (let new = next_planned_era l; kept = (eras_start_session_index l)(new \<mapsto> i)
      in case checked_sub new (history_depth l + 1) of Some old \<Rightarrow> kept(old := None) | None \<Rightarrow> kept)"
  by (simp add: trigger_new_era_def next_planned_era_def Let_def split: option.splits)

text \<open>\<open>new_session\<close> either leaves the eras alone or triggers a new era.\<close>

definition era_is_over :: "('a, 'b, 'x) config \<Rightarrow> session_index \<Rightarrow> 'a lpos_state \<Rightarrow> bool" where
  "era_is_over c i l \<longleftrightarrow>
     (case current_era l of None \<Rightarrow> True
      | Some e \<Rightarrow> \<not> saturating_sub i (case eras_start_session_index l e of Some st \<Rightarrow> st | None \<Rightarrow> 0)
                    < sessions_per_era (lpos_cfg c))"

lemma try_trigger_new_era_Ok:
  "try_trigger_new_era i s = Ok r s' \<longleftrightarrow>
     r = Some (map fst (planned_validators (app s))) \<and>
     s' = s\<lparr>events := events s @ [LposEvent TriggerNewEra],
            lpos := snd (trigger_new_era i (planned_validators (app s)) (lpos s))\<rparr>"
  by (auto simp: try_trigger_new_era_def op_inv)

lemma new_session_Ok:
  assumes "new_session c i s = Ok r s'"
  shows "if era_is_over c i (lpos s)
    then r = Some (map fst (planned_validators (app s))) \<and>
      s' = s\<lparr>events := events s @ [LposEvent TriggerNewEra],
             lpos := snd (trigger_new_era i (planned_validators (app s)) (lpos s))\<rparr>
    else r = None \<and> lpos s' = lpos s \<and> app s' = app s \<and> bridge s' = bridge s \<and> ext s' = ext s"
  using assms
  by (auto simp: new_session_def era_is_over_def op_inv try_trigger_new_era_Ok submit_Ok_iff Let_def
      dest: submit_Err_unchanged split: option.splits if_splits)

lemma era_view_planned_session [simp]: "era_view (l\<lparr>current_planned_session := i\<rparr>) = era_view l"
  by (simp add: era_view_def)

lemma plan_session_Ok:
  assumes "plan_session c i s = Ok r s'"
  shows "if era_is_over c i (lpos s)
    then r = Some (map fst (planned_validators (app s))) \<and>
      (\<exists>l. l = (lpos s)\<lparr>current_planned_session := i\<rparr> \<and>
      lpos s' = snd (trigger_new_era i (planned_validators (app s)) l) \<and> app s' = app s)
    else r = None \<and> lpos s' = (lpos s)\<lparr>current_planned_session := i\<rparr> \<and> app s' = app s"
proof -
  let ?s = "s\<lparr>lpos := (lpos s)\<lparr>current_planned_session := i\<rparr>\<rparr>"
  from assms have "new_session c i ?s = Ok r s'"
    by (simp add: plan_session_def op_inv)
  moreover have "era_is_over c i (lpos ?s) = era_is_over c i (lpos s)"
    by (simp add: era_is_over_def split: option.split)
  ultimately show ?thesis
    using new_session_Ok [of c i ?s r s'] by (auto split: if_splits)
qed

lemma end_era_frame:
  "preserves (\<lambda>s. era_view (lpos s) = v) (end_era c a i)"
  unfolding end_era_def Let_def
  by (intro preserves_rules) (auto simp: era_view_def drain_offenders_def accept_message_def Let_def)

lemma finish_session_frame: "preserves (\<lambda>s. era_view (lpos s) = v) (finish_session c i)"
  unfolding finish_session_def end_session_def
  by (intro preserves_rules end_era_frame)

lemma start_era_Ok:
  assumes "start_era c i s = Ok y s'"
  shows "current_era (lpos s') = current_era (lpos s) \<and>
    eras_start_session_index (lpos s') = eras_start_session_index (lpos s) \<and>
    history_depth (lpos s') = history_depth (lpos s) \<and>
    active_era (lpos s') = Some \<lparr>era_number = (case active_era (lpos s) of Some a \<Rightarrow> era_number a + 1 | None \<Rightarrow> 0),
      era_set_id = next_set_id (app s) - 1, era_start = None\<rparr> \<and>
    bonded_eras (lpos s') = bonded_eras (lpos s) @
      [(case active_era (lpos s) of Some a \<Rightarrow> era_number a + 1 | None \<Rightarrow> 0, i)] \<and> app s' = app s"
  using assms by (auto simp: start_era_def op_inv Let_def split: if_splits list.splits prod.splits)

end
