(* ===== verification/Lpos_Sessions.thy ===== *)
theory Lpos_Sessions
  imports Lpos Demo
begin

text \<open>
  The eras over the life of the chain. The session pallet calls \<open>SessionManager\<close> in a fixed order:
  at genesis it plans sessions 0 and 1 and starts session 0; at the end of session \<open>i\<close> it ends
  \<open>i\<close>, starts \<open>i + 1\<close> and plans \<open>i + 2\<close>. In that order era \<open>k\<close> starts exactly at session
  \<open>k * SessionsPerEra\<close>: the eras are closed forms of the session index.
\<close>

section \<open>Session numbers\<close>

text \<open>The \<open>u32\<close> of a small number; kept folded so that arithmetic stays on \<open>nat\<close>.\<close>

definition u32_of :: "nat \<Rightarrow> u32" where
  "u32_of n = word_of_nat n"

lemma unat_u32_of: "n < 2 ^ 32 \<Longrightarrow> unat (u32_of n) = n"
  unfolding u32_of_def by (rule unat_word_of_nat) simp

lemma u32_of_eq_iff: "m < 2 ^ 32 \<Longrightarrow> n < 2 ^ 32 \<Longrightarrow> u32_of m = u32_of n \<longleftrightarrow> m = n"
  using unat_u32_of by metis

lemma u32_of_less_iff: "m < 2 ^ 32 \<Longrightarrow> n < 2 ^ 32 \<Longrightarrow> u32_of m < u32_of n \<longleftrightarrow> m < n"
  by (simp add: word_less_nat_alt unat_u32_of)

lemma u32_of_Suc: "u32_of (Suc n) = u32_of n + 1" and u32_of_0: "u32_of 0 = 0"
  by (simp_all add: u32_of_def)

section \<open>The order of the calls\<close>

inductive session_at :: "('a, 'b, 'x) config \<Rightarrow> nat \<Rightarrow> ('a, 'b, 'x) runtime \<Rightarrow> bool" for c where
  genesis:
    "era_view (lpos s) = (None, None, Map.empty, [], d) \<Longrightarrow> d \<noteq> 0 \<Longrightarrow> d \<noteq> - 1 \<Longrightarrow>
     plan_session c 0 s = Ok r0 s1 \<Longrightarrow> plan_session c 1 s1 = Ok r1 s2 \<Longrightarrow>
     start_session c 0 s2 = Ok y s3 \<Longrightarrow> session_at c 0 s3"
| rotate:
    "session_at c i s \<Longrightarrow> Suc (Suc i) < 2 ^ 32 \<Longrightarrow>
     finish_session c (u32_of i) s = Ok y1 s1 \<Longrightarrow>
     start_session c (u32_of (Suc i)) s1 = Ok y2 s2 \<Longrightarrow>
     plan_session c (u32_of (Suc (Suc i))) s2 = Ok r s3 \<Longrightarrow> session_at c (Suc i) s3"
| other_calls:
    "session_at c i s \<Longrightarrow> era_view (lpos s') = era_view (lpos s) \<Longrightarrow> session_at c i s'"
| new_history_depth:
    "session_at c i s \<Longrightarrow> d \<noteq> - 1 \<Longrightarrow> set_history_depth org d n s = Ok y s' \<Longrightarrow> session_at c i s'"

section \<open>Closed forms\<close>

abbreviation sessions :: "('a, 'b, 'x) config \<Rightarrow> nat" where
  "sessions c \<equiv> unat (sessions_per_era (lpos_cfg c))"

text \<open>The eras after session \<open>j\<close> was planned, and after session \<open>i\<close> was started.\<close>

definition eras_planned :: "nat \<Rightarrow> nat \<Rightarrow> 'a lpos_state \<Rightarrow> bool" where
  "eras_planned S j l \<longleftrightarrow>
     current_era l = Some (u32_of (j div S)) \<and>
     eras_start_session_index l (u32_of (j div S)) = Some (u32_of (j div S * S)) \<and>
     (\<forall>m. unat m > j div S \<longrightarrow> eras_start_session_index l m = None) \<and> history_depth l \<noteq> - 1"

definition eras_active :: "nat \<Rightarrow> nat \<Rightarrow> 'a lpos_state \<Rightarrow> bool" where
  "eras_active S i l \<longleftrightarrow>
     map_option era_number (active_era l) = Some (u32_of (i div S)) \<and>
     bonded_eras l = map (\<lambda>k. (u32_of k, u32_of (k * S))) [0 ..< Suc (i div S)]"

lemma era_view_eqD:
  assumes "era_view l = era_view l'"
  shows "eras_planned S j l = eras_planned S j l'" "eras_active S i l = eras_active S i l'"
  using assms by (auto simp: era_view_def eras_planned_def eras_active_def)

lemma unat_u32_div:
  assumes "(j :: nat) < 2 ^ 32"
  shows "unat (u32_of (j div S)) = j div S" "unat (u32_of (j div S * S)) = j div S * S"
    "unat (u32_of j) = j"
proof -
  have "j div S \<le> j" "j div S * S \<le> j" by simp_all
  then have "j div S < 2 ^ 32" "j div S * S < 2 ^ 32" using assms by linarith+
  then show "unat (u32_of (j div S)) = j div S" "unat (u32_of (j div S * S)) = j div S * S"
    "unat (u32_of j) = j" using assms by (simp_all add: unat_u32_of)
qed

lemma div_step:
  assumes "(S :: nat) > 0"
  shows "Suc j div S = (if S \<le> Suc j - j div S * S then Suc (j div S) else j div S)"
    and "S \<le> Suc j - j div S * S \<longleftrightarrow> Suc j = Suc (j div S) * S"
    and "S \<le> Suc j - j div S * S \<longleftrightarrow> S dvd Suc j"
proof -
  have j: "j = j div S * S + j mod S" by simp
  have r: "j mod S < S" using assms by simp
  have s: "Suc (j div S) * S = S + j div S * S" by simp
  from j r have *: "S \<le> Suc j - j div S * S \<longleftrightarrow> Suc (j mod S) = S" by linarith
  then show "Suc j div S = (if S \<le> Suc j - j div S * S then Suc (j div S) else j div S)"
    using assms by (simp add: div_Suc mod_Suc)
  from * show "S \<le> Suc j - j div S * S \<longleftrightarrow> S dvd Suc j"
    using assms by (simp add: dvd_eq_mod_eq_0 mod_Suc)
  from * j s show "S \<le> Suc j - j div S * S \<longleftrightarrow> Suc j = Suc (j div S) * S"
    by linarith
qed

section \<open>One step of the session pallet\<close>

lemma era_is_over_planned:
  assumes "eras_planned (sessions c) j l" and j: "Suc j < 2 ^ 32"
  shows "era_is_over c (u32_of (Suc j)) l \<longleftrightarrow> sessions c \<le> Suc j - j div sessions c * sessions c"
proof -
  have "unat (saturating_sub (u32_of (Suc j)) (u32_of (j div sessions c * sessions c)))
      = Suc j - j div sessions c * sessions c"
    using j unat_u32_div(2) [of j "sessions c"] unat_u32_of [of "Suc j"]
    by (simp add: unat_saturating_sub)
  then show ?thesis
    using assms(1) by (simp add: eras_planned_def era_is_over_def word_less_nat_alt not_less)
qed

lemma old_era_not_new:
  assumes "checked_sub (u32_of n) (d + 1) = Some old" "d \<noteq> - 1" "n < 2 ^ 32"
  shows "old \<noteq> u32_of n" "unat old < n"
proof -
  from assms(2) have "d + 1 \<noteq> 0" by (metis add_eq_0_iff2)
  then have pos: "0 < unat (d + 1)" by (simp add: unat_gt_0)
  from assms(1) have "unat old = n - unat (d + 1)" "d + 1 \<le> u32_of n"
    using unat_checked_sub [OF assms(1)] unat_u32_of [OF assms(3)]
    by (auto simp: checked_sub_def split: if_splits)
  then show "unat old < n" using pos unat_u32_of [OF assms(3)] by (auto simp: word_le_nat_alt)
  then show "old \<noteq> u32_of n" using unat_u32_of [OF assms(3)] by auto
qed

lemma plan_next_session:
  assumes planned: "eras_planned (sessions c) j (lpos s)" and S: "sessions c > 0"
    and j: "Suc j < 2 ^ 32" and plan: "plan_session c (u32_of (Suc j)) s = Ok r s'"
  shows "eras_planned (sessions c) (Suc j) (lpos s')
    \<and> map_option era_number (active_era (lpos s')) = map_option era_number (active_era (lpos s))
    \<and> bonded_eras (lpos s') = bonded_eras (lpos s)"
proof (cases "sessions c \<le> Suc j - j div sessions c * sessions c")
  case False
  then have view: "era_view (lpos s') = era_view (lpos s)"
    using plan_session_Ok [OF plan] era_is_over_planned [OF planned j] by simp
  moreover have "Suc j div sessions c = j div sessions c"
    using div_step(1) [OF S, of j] False by simp
  ultimately show ?thesis
    using planned by (auto simp: era_view_def eras_planned_def)
next
  case True
  let ?n = "Suc (j div sessions c)"
  have n: "Suc j div sessions c = ?n" "Suc j = ?n * sessions c"
    using div_step [OF S, of j] True by auto
  have bound: "?n < 2 ^ 32" using n(1) j div_le_dividend [of "Suc j" "sessions c"] by linarith
  obtain l where l: "l = (lpos s)\<lparr>current_planned_session := u32_of (Suc j)\<rparr>"
    and s': "lpos s' = snd (trigger_new_era (u32_of (Suc j)) (planned_validators (app s)) l)"
    using plan_session_Ok [OF plan] era_is_over_planned [OF planned j] True by auto
  have new: "next_planned_era l = u32_of ?n"
    using planned by (simp add: l next_planned_era_def eras_planned_def u32_of_Suc)
  have later: "m \<noteq> u32_of ?n" if "unat m > ?n" for m
    using that unat_u32_of [OF bound] by auto
  show ?thesis
    using planned n new bound old_era_not_new [OF _ _ bound, of "history_depth (lpos s)"] later
    by (auto simp: s' l eras_planned_def trigger_new_era_start Let_def split: option.splits)
qed

lemma active_then_planned:
  assumes S: "(S :: nat) > 0" and i: "Suc i < 2 ^ 32"
    and planned: "eras_planned S (Suc i) l" and active: "eras_active S i l"
  shows "map_option era_number (active_era l) = Some (u32_of (i div S))"
    and "eras_start_session_index l (u32_of (i div S) + 1) =
      (if Suc i = Suc (i div S) * S then Some (u32_of (Suc i)) else None)"
proof -
  show "map_option era_number (active_era l) = Some (u32_of (i div S))"
    using active by (simp add: eras_active_def)
  have le: "Suc i div S \<le> Suc i" by simp
  show "eras_start_session_index l (u32_of (i div S) + 1) =
      (if Suc i = Suc (i div S) * S then Some (u32_of (Suc i)) else None)"
  proof (cases "Suc i = Suc (i div S) * S")
    case True
    then have "Suc i div S = Suc (i div S)" using div_step [OF S, of i] by simp
    then show ?thesis
      using planned True by (simp add: eras_planned_def flip: u32_of_Suc)
  next
    case False
    then have d: "Suc i div S = i div S" using div_step [OF S, of i] by simp
    have "unat (u32_of (Suc (i div S))) = Suc (i div S)"
      using i div_le_dividend [of i S] by (intro unat_u32_of) linarith
    then show ?thesis
      using planned d False by (simp add: eras_planned_def flip: u32_of_Suc)
  qed
qed

lemma start_next_session:
  assumes S: "sessions c > 0" and i: "Suc i < 2 ^ 32"
    and planned: "eras_planned (sessions c) (Suc i) (lpos s)" and active: "eras_active (sessions c) i (lpos s)"
    and start: "start_session c (u32_of (Suc i)) s = Ok y s'"
  shows "eras_planned (sessions c) (Suc i) (lpos s') \<and> eras_active (sessions c) (Suc i) (lpos s')"
proof -
  let ?S = "sessions c"
  obtain a where a: "active_era (lpos s) = Some a" "era_number a = u32_of (i div ?S)"
    using active_then_planned(1) [OF S i planned active] by auto
  note index = active_then_planned(2) [OF S i planned active]
  show ?thesis
  proof (cases "Suc i = Suc (i div ?S) * ?S")
    case True
    then have d: "Suc i div ?S = Suc (i div ?S)" using div_step [OF S, of i] by simp
    have e: "u32_of (?S + i div ?S * ?S) = u32_of (Suc i)" using True unfolding mult_Suc by argo
    from start a index True have "start_era c (u32_of (Suc i)) s = Ok y s'"
      by (simp add: start_session_def op_inv)
    then show ?thesis
      using start_era_Ok [of c "u32_of (Suc i)" s y s'] planned active a
      by (simp add: eras_planned_def eras_active_def d e flip: u32_of_Suc)
  next
    case False
    then have d: "Suc i div ?S = i div ?S" using div_step [OF S, of i] by simp
    from start a index False have "s' = s" by (simp add: start_session_def op_inv)
    then show ?thesis using planned active by (simp add: eras_active_def d)
  qed
qed

lemma clear_eras_keeps:
  assumes "unat last_era \<le> n"
  shows "n \<le> unat m \<Longrightarrow> eras_start_session_index (clear_eras first_era last_era l) m
           = eras_start_session_index l m"
    and "current_era (clear_eras first_era last_era l) = current_era l"
    and "active_era (clear_eras first_era last_era l) = active_era l"
    and "bonded_eras (clear_eras first_era last_era l) = bonded_eras l"
proof -
  define xs where "xs = [unat first_era ..< unat last_era]"
  have xs: "\<forall>x \<in> set xs. x < n" using assms by (auto simp: xs_def)
  have bound: "x < 2 ^ 32" if "x \<in> set xs" for x
    using that unsigned_less [of last_era, where 'a = nat] by (simp add: xs_def)
  from xs bound have "(n \<le> unat m \<longrightarrow> eras_start_session_index (fold (\<lambda>i. clear_era_information (word_of_nat i)) xs l) m
           = eras_start_session_index l m)
    \<and> current_era (fold (\<lambda>i. clear_era_information (word_of_nat i)) xs l) = current_era l
    \<and> active_era (fold (\<lambda>i. clear_era_information (word_of_nat i)) xs l) = active_era l
    \<and> bonded_eras (fold (\<lambda>i. clear_era_information (word_of_nat i)) xs l) = bonded_eras l"
  proof (induction xs arbitrary: l)
    case (Cons x xs)
    have "m \<noteq> word_of_nat x" if "n \<le> unat m"
      using that Cons.prems unat_u32_of [of x] by (auto simp: u32_of_def)
    then show ?case using Cons by simp
  qed simp
  then show "n \<le> unat m \<Longrightarrow> eras_start_session_index (clear_eras first_era last_era l) m
           = eras_start_session_index l m"
    and "current_era (clear_eras first_era last_era l) = current_era l"
    and "active_era (clear_eras first_era last_era l) = active_era l"
    and "bonded_eras (clear_eras first_era last_era l) = bonded_eras l"
    by (simp_all add: clear_eras_def xs_def)
qed

lemma set_history_depth_keeps_eras:
  assumes planned: "eras_planned S j (lpos s)" and j: "j < 2 ^ 32" and d: "d \<noteq> - 1"
    and step: "set_history_depth org d n s = Ok y s'"
  shows "eras_planned S j (lpos s')" "eras_active S i (lpos s') = eras_active S i (lpos s)"
proof -
  let ?l = "lpos s" and ?cur = "u32_of (j div S)"
  have cur: "current_era ?l = Some ?cur" "unat ?cur = j div S"
    using planned unat_u32_div(1) [OF j] by (simp_all add: eras_planned_def)
  define a where "a = (case checked_sub ?cur (history_depth ?l) of Some e \<Rightarrow> e | None \<Rightarrow> 0)"
  define b where "b = (case checked_sub ?cur d of Some e \<Rightarrow> e | None \<Rightarrow> 0)"
  have b: "unat b \<le> j div S"
    using cur(2) by (auto simp: b_def dest!: unat_checked_sub split: option.splits)
  have s': "lpos s' = (clear_eras a b ?l)\<lparr>history_depth := d\<rparr>"
    using step cur by (auto simp: set_history_depth_def op_inv Let_def a_def b_def)
  note keeps = clear_eras_keeps [OF b, where first_era = a and l = ?l]
  show "eras_planned S j (lpos s')"
    using planned d cur(2) by (simp add: s' eras_planned_def keeps)
  show "eras_active S i (lpos s') = eras_active S i (lpos s)"
    by (simp add: s' eras_active_def keeps)
qed


lemma session_at_inv:
  assumes "session_at c i s" and S: "sessions c > 0"
  shows "Suc i < 2 ^ 32 \<and> eras_planned (sessions c) (Suc i) (lpos s) \<and> eras_active (sessions c) i (lpos s)"
  using assms(1)
proof induction
  case (genesis s d r0 s1 r1 s2 y s3)
  let ?S = "sessions c"
  have "unat (d + 1) = Suc (unat d)" using genesis(3) by (rule unat_succ)
  then have old: "checked_sub (0 :: u32) (d + 1) = None" "checked_sub (1 :: u32) (d + 1) = None"
    using genesis(2) by (auto simp: checked_sub_def word_le_nat_alt unat_gt_0)
  have over: "era_is_over c 0 (lpos s)"
    using genesis(1) by (simp add: era_is_over_def era_view_def)
  have s1: "era_view (lpos s1) = (Some 0, None, [0 \<mapsto> 0], [], d)"
    using plan_session_Ok [OF genesis(4)] over genesis(1) old
    by (auto simp: era_view_def trigger_new_era_start next_planned_era_def)
  have p1: "eras_planned ?S 0 (lpos s1)"
    using s1 genesis(3) u32_of_0 by (auto simp: era_view_def eras_planned_def)
  have s2: "eras_start_session_index (lpos s2) 0 = Some 0"
    using plan_session_Ok [OF genesis(5)] s1 old
    by (auto simp: era_view_def trigger_new_era_start next_planned_era_def split: if_splits)
  have p2: "eras_planned ?S (Suc 0) (lpos s2)" "active_era (lpos s2) = None" "bonded_eras (lpos s2) = []"
    using plan_next_session [OF p1 S] genesis(5) s1 u32_of_Suc [of 0]
    by (auto simp: era_view_def u32_of_0)
  have "start_era c 0 s2 = Ok y s3"
    using genesis(6) p2 s2 by (simp add: start_session_def op_inv)
  then show ?case
    using start_era_Ok [of c 0 s2 y s3] p2 by (simp add: eras_planned_def eras_active_def u32_of_0)
next
  case (rotate i s y1 s1 y2 s2 r s3)
  have 1: "eras_planned (sessions c) (Suc i) (lpos s1)" "eras_active (sessions c) i (lpos s1)"
    using preserves_Ok [OF finish_session_frame rotate(3) refl] rotate.IH era_view_eqD by metis+
  have 2: "eras_planned (sessions c) (Suc i) (lpos s2)" "eras_active (sessions c) (Suc i) (lpos s2)"
    using start_next_session [OF S _ 1 rotate(4)] rotate(2) by simp_all
  show ?case
    using plan_next_session [OF 2(1) S rotate(2) rotate(5)] 2(2) rotate(2) by (simp add: eras_active_def)
next
  case (other_calls i s s')
  then show ?case using era_view_eqD [OF other_calls(2)] by simp
next
  case (new_history_depth i s d org n y s')
  then show ?case using set_history_depth_keeps_eras [OF _ _ new_history_depth(2,3)] by blast
qed

text \<open>Three sessions of the concrete instance.\<close>

lemma demo_sessions:
  "\<exists>s y1 s1 y2 s2 r s3. session_at demo_config 0 s \<and> finish_session demo_config (u32_of 0) s = Ok y1 s1 \<and>
     start_session demo_config (u32_of (Suc 0)) s1 = Ok y2 s2 \<and>
     plan_session demo_config (u32_of (Suc (Suc 0))) s2 = Ok r s3 \<and>
     planned_validators (app s2) = [(1, 100), (2, 100)]"
proof -
  let ?c = "demo_config"
  have "\<exists>r0 s1 r1 s2 y s y1 s3 y2 s4 r s5.
    plan_session ?c 0 demo_state = Ok r0 s1 \<and> plan_session ?c 1 s1 = Ok r1 s2 \<and>
    start_session ?c 0 s2 = Ok y s \<and>
    finish_session ?c 0 s = Ok y1 s3 \<and> start_session ?c 1 s3 = Ok y2 s4 \<and>
    plan_session ?c 2 s4 = Ok r s5 \<and> planned_validators (app s4) = [(1, 100), (2, 100)]"
    by (simp add: plan_session_def new_session_def try_trigger_new_era_def start_session_def start_era_def
        finish_session_def end_session_def trigger_new_era_def store_stakers_info_def store_staker_def
        op_simps demo_simps submit_eq Let_def checked_sub_def saturating_sub_def accept_message_def
        too_large_def queue_full_def)
  then show ?thesis
    using session_at.genesis [of demo_state 84 ?c] by (force simp: demo_simps era_view_def u32_of_def)
qed

section \<open>Properties\<close>

text \<open>
  C7. When the session pallet ends, starts and plans sessions in its order, era k is active during sessions
  k * SessionsPerEra up to the next multiple, the era of session i + 1 is the planned one, its start session
  is recorded exactly when it is the next one, and BondedEras lists every era so far with its first session.
\<close>

theorem eras_follow_sessions:
  assumes "session_at c i s" and "sessions c > 0"
  shows "current_era (lpos s) = Some (u32_of (Suc i div sessions c)) \<and>
    map_option era_number (active_era (lpos s)) = Some (u32_of (i div sessions c)) \<and>
    eras_start_session_index (lpos s) (u32_of (i div sessions c) + 1) =
      (if Suc i = Suc (i div sessions c) * sessions c then Some (u32_of (Suc i)) else None) \<and>
    bonded_eras (lpos s) = map (\<lambda>k. (u32_of k, u32_of (k * sessions c))) [0 ..< Suc (i div sessions c)]"
proof -
  have inv: "Suc i < 2 ^ 32" "eras_planned (sessions c) (Suc i) (lpos s)" "eras_active (sessions c) i (lpos s)"
    using session_at_inv [OF assms] by simp_all
  show ?thesis
    using inv(2,3) active_then_planned(2) [OF assms(2) inv]
    by (simp only: eras_planned_def eras_active_def simp_thms)
qed

theorem eras_follow_sessions_witness:
  "\<exists>s. session_at demo_config 0 s \<and> current_era (lpos s) = Some 0 \<and>
    map_option era_number (active_era (lpos s)) = Some 0 \<and> bonded_eras (lpos s) = [(0, 0)]"
proof -
  obtain s where s: "session_at demo_config 0 s" using demo_sessions by blast
  have "sessions demo_config = 2" by (simp add: demo_simps)
  then show ?thesis
    using eras_follow_sessions [OF s] s by (auto simp: u32_of_def intro!: exI [of _ s])
qed

text \<open>
  In the session pallet's order, planning session i + 2 returns a validator set exactly when i + 2 is a
  multiple of SessionsPerEra, and that set is the planned validators of the appchain pallet at that moment.
\<close>

theorem validators_planned_every_era:
  assumes "session_at c i s" and "sessions c > 0" and "Suc (Suc i) < 2 ^ 32"
    and "finish_session c (u32_of i) s = Ok y1 s1" and "start_session c (u32_of (Suc i)) s1 = Ok y2 s2"
    and "plan_session c (u32_of (Suc (Suc i))) s2 = Ok r s3"
  shows "r = (if sessions c dvd Suc (Suc i) then Some (map fst (planned_validators (app s2))) else None)"
proof -
  have inv: "eras_planned (sessions c) (Suc i) (lpos s)" "eras_active (sessions c) i (lpos s)"
    using session_at_inv [OF assms(1,2)] by simp_all
  then have "eras_planned (sessions c) (Suc i) (lpos s1)" "eras_active (sessions c) i (lpos s1)"
    using preserves_Ok [OF finish_session_frame assms(4) refl] era_view_eqD by metis+
  then have "eras_planned (sessions c) (Suc i) (lpos s2)"
    using start_next_session [OF assms(2) _ _ _ assms(5)] assms(3) by simp
  then have "era_is_over c (u32_of (Suc (Suc i))) (lpos s2) \<longleftrightarrow> sessions c dvd Suc (Suc i)"
    using era_is_over_planned [OF _ assms(3)] div_step(3) [OF assms(2), of "Suc i"] by metis
  then show ?thesis using plan_session_Ok [OF assms(6)] by (simp split: if_splits)
qed

theorem validators_planned_every_era_witness:
  "\<exists>s s3. session_at demo_config 0 s \<and> bind (finish_session demo_config (u32_of 0)) (\<lambda>_.
       bind (start_session demo_config (u32_of (Suc 0))) (\<lambda>_. plan_session demo_config (u32_of (Suc (Suc 0))))) s
     = Ok (Some [1, 2]) s3"
proof -
  obtain s y1 s1 y2 s2 r s3 where s: "session_at demo_config 0 s"
    "finish_session demo_config (u32_of 0) s = Ok y1 s1"
    "start_session demo_config (u32_of (Suc 0)) s1 = Ok y2 s2"
    "plan_session demo_config (u32_of (Suc (Suc 0))) s2 = Ok r s3"
    "planned_validators (app s2) = [(1, 100), (2, 100)]" using demo_sessions by blast
  have "sessions demo_config = 2" by (simp add: demo_simps)
  then have "r = Some [1, 2]"
    using validators_planned_every_era [OF s(1) _ _ s(2,3,4)] s(5) by simp
  then show ?thesis using s by (intro exI [of _ s] exI [of _ s3]) (simp add: bind_def)
qed

end
