(* ===== verification/Lpos_Stakes.thy ===== *)
theory Lpos_Stakes
  imports Lpos Demo
begin

text \<open>
  The stakers of an era and their total: what \<open>trigger_new_era\<close> stores, the invariant that the
  stakes of an era add up to at most its total, and the interpretation of the interface on which the
  two-thirds votes of the appchain pallet rest.
\<close>

section \<open>Storing the stakers of an era\<close>

definition stakes_sum :: "('a \<times> u128) list \<Rightarrow> nat" where
  "stakes_sum xs = sum_list (map (\<lambda>(_, w). unat w) xs)"

lemma stakes_sum_simps [simp]:
  "stakes_sum [] = 0" "stakes_sum ((v, w) # xs) = unat w + stakes_sum xs"
  by (simp_all add: stakes_sum_def)

lemma stakes_sum_update: "stakes_sum (AList.update v w xs) \<le> stakes_sum xs + unat w"
  by (induction xs) auto

lemma stake_sum_map_of:
  assumes "distinct vs"
  shows "stake_sum (\<lambda>v. case map_of xs v of Some w \<Rightarrow> w | None \<Rightarrow> 0) vs \<le> stakes_sum xs"
  using assms
proof (induction xs arbitrary: vs)
  case Nil
  then show ?case by (simp add: stake_sum_def)
next
  case (Cons x xs)
  obtain u w where x: "x = (u, w)" by fastforce
  let ?f = "\<lambda>xs v. unat (case map_of xs v of Some w \<Rightarrow> w | None \<Rightarrow> 0)"
  have "sum (?f (x # xs)) (set vs) \<le> sum (?f (x # xs)) (set vs - {u}) + unat w"
    by (cases "u \<in> set vs") (simp_all add: x sum.remove)
  also have "sum (?f (x # xs)) (set vs - {u}) = sum (?f xs) (set vs - {u})"
    by (rule sum.cong) (auto simp: x)
  also have "\<dots> = stake_sum (\<lambda>v. case map_of xs v of Some w \<Rightarrow> w | None \<Rightarrow> 0) (remove1 u vs)"
    using Cons.prems by (simp add: stake_sum_def sum_list_distinct_conv_sum_set set_remove1_eq)
  also have "\<dots> \<le> stakes_sum xs" using Cons.IH [of "remove1 u vs"] Cons.prems by simp
  finally show ?case
    using Cons.prems by (simp add: x stake_sum_def sum_list_distinct_conv_sum_set)
qed

lemma store_stakers_total:
  "unat (fst (fold store_staker vs (tot, xs))) = min (unat tot + stakes_sum vs) (2 ^ 128 - 1)"
proof (induction vs arbitrary: tot xs)
  case Nil
  show ?case using unsigned_less [of tot, where 'a = nat] by (simp add: stakes_sum_def)
next
  case (Cons v vs)
  then show ?case
    using unat_saturating_add [of tot "snd v"] by (cases v) (simp add: store_staker_def)
qed

lemma store_stakers_distinct:
  "distinct (map fst xs) \<Longrightarrow> distinct (map fst (snd (fold store_staker vs (tot, xs))))"
  by (induction vs arbitrary: tot xs) (auto simp: store_staker_def distinct_update)

lemma store_stakers_sum:
  "stakes_sum (snd (fold store_staker vs (tot, xs))) \<le> stakes_sum xs + stakes_sum vs"
proof (induction vs arbitrary: tot xs)
  case (Cons v vs)
  obtain a w where v: "v = (a, w)" by fastforce
  show ?case
    using Cons [of "saturating_add tot w" "AList.update a w xs"] stakes_sum_update [of a w xs]
    by (simp add: v store_staker_def)
qed simp

lemma store_stakers_get:
  "distinct (map fst vs) \<Longrightarrow>
   map_of (snd (fold store_staker vs (tot, xs))) = map_of xs ++ map_of vs"
proof (induction vs arbitrary: tot xs)
  case (Cons v vs)
  obtain a w where v: "v = (a, w)" by fastforce
  have "a \<notin> dom (map_of vs)" using Cons.prems by (simp add: v dom_map_of_conv_image_fst)
  then show ?case
    using Cons by (auto simp: v store_staker_def update_conv' map_add_def fun_eq_iff split: option.splits)
qed simp

section \<open>The invariant\<close>

definition stakes_inv :: "'a lpos_state \<Rightarrow> bool" where
  "stakes_inv l \<longleftrightarrow>
     (\<forall>e. distinct (map fst (eras_stakers l e)) \<and> stakes_sum (eras_stakers l e) \<le> unat (eras_total_stake l e)) \<and>
     (\<forall>e. (case current_era l of Some cur \<Rightarrow> cur < e | None \<Rightarrow> True) \<longrightarrow> eras_stakers l e = [])"

lemma stakes_inv_clear: "stakes_inv l \<Longrightarrow> stakes_inv (clear_era_information e l)"
  by (auto simp: stakes_inv_def)

lemma stakes_inv_clear_eras: "stakes_inv l \<Longrightarrow> stakes_inv (clear_eras a b l)"
  unfolding clear_eras_def by (rule fold_invariant [where Q = "\<lambda>_. True"]) (auto intro: stakes_inv_clear)

lemma stakes_inv_history_depth [simp]: "stakes_inv (l\<lparr>history_depth := d\<rparr>) = stakes_inv l"
  by (simp add: stakes_inv_def)

lemma stakes_inv_cong:
  "eras_stakers l = eras_stakers l' \<Longrightarrow> eras_total_stake l = eras_total_stake l' \<Longrightarrow>
   current_era l = current_era l' \<Longrightarrow> stakes_inv l = stakes_inv l'"
  by (simp add: stakes_inv_def)

lemma trigger_new_era_stakes:
  obtains l' where "snd (trigger_new_era i vs l) = snd (store_stakers_info vs (next_planned_era l) l')"
    and "\<And>e. eras_stakers l' e = eras_stakers l e \<and> eras_total_stake l' e = eras_total_stake l e \<or>
      eras_stakers l' e = [] \<and> eras_total_stake l' e = 0"
    and "current_era l' = Some (next_planned_era l)"
proof -
  let ?e = "next_planned_era l"
  let ?l = "l\<lparr>current_era := Some ?e, eras_start_session_index := (eras_start_session_index l)(?e \<mapsto> i)\<rparr>"
  let ?l' = "case checked_sub ?e (history_depth l + 1) of Some old \<Rightarrow> clear_era_information old ?l | None \<Rightarrow> ?l"
  show ?thesis
  proof (rule that [of ?l'])
    show "snd (trigger_new_era i vs l) = snd (store_stakers_info vs ?e ?l')"
      by (simp add: trigger_new_era_def next_planned_era_def Let_def split: option.split)
  qed (auto split: option.split)
qed

lemma trigger_new_era_get:
  assumes "distinct (map fst vs)" and "eras_stakers l (next_planned_era l) = []"
  shows "eras_stakers_get (snd (trigger_new_era i vs l)) (next_planned_era l) v =
    (case map_of vs v of Some w \<Rightarrow> w | None \<Rightarrow> 0)"
proof -
  obtain k where "snd (trigger_new_era i vs l) = snd (store_stakers_info vs (next_planned_era l) k)"
    "eras_stakers k (next_planned_era l) = []"
    using trigger_new_era_stakes [of i vs l] assms(2) by metis
  then show ?thesis
    using store_stakers_get [OF assms(1), of 0 "[]"] by (simp add: eras_stakers_get_def)
qed

lemma stakes_inv_trigger_new_era:
  assumes inv: "stakes_inv l" and new: "current_era l \<noteq> Some (- 1)" and vs: "stakes_sum vs < 2 ^ 128"
  shows "stakes_inv (snd (trigger_new_era i vs l))"
proof -
  let ?e = "next_planned_era l"
  have before: "cur < e" if "?e \<le> e" "current_era l = Some cur" for e cur
    using that new unat_succ [of cur] by (auto simp: next_planned_era_def word_less_nat_alt word_le_nat_alt)
  have fresh: "eras_stakers l e = []" if "?e \<le> e" for e
    using inv before [OF that] by (auto simp: stakes_inv_def split: option.splits)
  obtain l' where l': "snd (trigger_new_era i vs l) = snd (store_stakers_info vs ?e l')"
    "\<And>e. eras_stakers l' e = eras_stakers l e \<and> eras_total_stake l' e = eras_total_stake l e \<or>
      eras_stakers l' e = [] \<and> eras_total_stake l' e = 0" "current_era l' = Some ?e"
    by (rule trigger_new_era_stakes [of i vs l]) blast
  have old: "eras_stakers l' e = []" if "?e \<le> e" for e using l'(2) [of e] fresh [OF that] by auto
  have "stakes_sum (snd (fold store_staker vs (0, []))) \<le> unat (fst (fold store_staker vs (0, [])))"
    using store_stakers_sum [of vs 0 "[]"] store_stakers_total [of vs 0 "[]"] vs by simp
  moreover have "distinct (map fst (eras_stakers l' e)) \<and> stakes_sum (eras_stakers l' e) \<le> unat (eras_total_stake l' e)" for e
    using l'(2) [of e] inv by (auto simp: stakes_inv_def)
  ultimately show ?thesis
    using old by (simp add: stakes_inv_def l' store_stakers_distinct)
qed

section \<open>Reachable states\<close>

text \<open>
  The calls of the pallet, in any order and with any arguments; \<open>others\<close> are the calls of the rest
  of the runtime, which do not write this pallet's storage. The weights of the validators handed to
  \<open>trigger_new_era\<close> add up to less than \<open>2 ^ 128\<close>, and the era counter has not run out.
\<close>

inductive lpos_reachable :: "('a, 'b, 'x) config \<Rightarrow> ('a, 'b, 'x) runtime \<Rightarrow> bool" for c where
  lpos_start: "(\<And>e. eras_stakers (lpos s) e = []) \<Longrightarrow> lpos_reachable c s"
| lpos_plan: "lpos_reachable c s \<Longrightarrow> current_era (lpos s) \<noteq> Some (- 1) \<Longrightarrow>
    stakes_sum (planned_validators (app s)) < 2 ^ 128 \<Longrightarrow> plan_session c i s = Ok r s' \<Longrightarrow> lpos_reachable c s'"
| lpos_session_start: "lpos_reachable c s \<Longrightarrow> start_session c i s = Ok y s' \<Longrightarrow> lpos_reachable c s'"
| lpos_finish: "lpos_reachable c s \<Longrightarrow> finish_session c i s = Ok y s' \<Longrightarrow> lpos_reachable c s'"
| lpos_history: "lpos_reachable c s \<Longrightarrow> set_history_depth org d n s = Ok y s' \<Longrightarrow> lpos_reachable c s'"
| lpos_payout: "lpos_reachable c s \<Longrightarrow> force_set_era_payout org p s = Ok y s' \<Longrightarrow> lpos_reachable c s'"
| lpos_on_finalize: "lpos_reachable c s \<Longrightarrow> on_finalize c s = Ok y s' \<Longrightarrow> lpos_reachable c s'"
| lpos_author: "lpos_reachable c s \<Longrightarrow> note_author a s = Ok y s' \<Longrightarrow> lpos_reachable c s'"
| lpos_report: "lpos_reachable c s \<Longrightarrow> (\<And>t z u. inner t = Ok z u \<Longrightarrow> lpos u = lpos t) \<Longrightarrow>
    report_offence (inner :: ('a, 'b, 'x, unit) call) k i ids s = Ok y s' \<Longrightarrow> lpos_reachable c s'"
| others: "lpos_reachable c s \<Longrightarrow> lpos s' = lpos s \<Longrightarrow> lpos_reachable c s'"

definition stakes_view :: "'a lpos_state \<Rightarrow> (era_index \<Rightarrow> ('a \<times> u128) list) \<times> (era_index \<Rightarrow> u128) \<times> era_index option" where
  "stakes_view l = (eras_stakers l, eras_total_stake l, current_era l)"

lemma stakes_view_inv: "stakes_view l = stakes_view l' \<Longrightarrow> stakes_inv l = stakes_inv l'"
  by (rule stakes_inv_cong) (auto simp: stakes_view_def)

lemma count_offences_view: "stakes_view (fold (count_offence k) ids l) = stakes_view l"
  by (induction ids arbitrary: l) (auto simp: count_offence_def stakes_view_def)

lemma stakes_frame:
  "preserves (\<lambda>s. stakes_view (lpos s) = v) (finish_session c i)"
  "preserves (\<lambda>s. stakes_view (lpos s) = v) (start_session c i)"
  "preserves (\<lambda>s. stakes_view (lpos s) = v) (force_set_era_payout org p)"
  "preserves (\<lambda>s. stakes_view (lpos s) = v) (on_finalize c)"
  "preserves (\<lambda>s. stakes_view (lpos s) = v) (note_author a)"
  unfolding finish_session_def end_session_def end_era_def Let_def start_session_def start_era_def
    force_set_era_payout_def on_finalize_def note_author_def
  by (intro preserves_rules;
      auto simp: stakes_view_def drain_offenders_def accept_message_def Let_def reward_by_ids_def split: option.split)+

lemma lpos_reachable_inv: "lpos_reachable c s \<Longrightarrow> stakes_inv (lpos s)"
proof (induction rule: lpos_reachable.induct)
  case (lpos_start s)
  then show ?case by (simp add: stakes_inv_def)
next
  case (lpos_plan s i r s')
  let ?l = "(lpos s)\<lparr>current_planned_session := i\<rparr>"
  have l: "stakes_inv ?l" using lpos_plan.IH by (simp add: stakes_inv_def)
  show ?case
  proof (cases "era_is_over c i (lpos s)")
    case True
    then have "lpos s' = snd (trigger_new_era i (planned_validators (app s)) ?l)"
      using plan_session_Ok [OF lpos_plan(4)] by simp
    then show ?thesis using stakes_inv_trigger_new_era [OF l] lpos_plan(2,3) by simp
  next
    case False
    then show ?thesis using plan_session_Ok [OF lpos_plan(4)] l by simp
  qed
next
  case (lpos_history s org d n y s')
  then show ?case
    by (auto simp: set_history_depth_def op_inv Let_def stakes_inv_clear_eras split: option.splits)
next
  case (lpos_report s inner k i ids y s')
  then have "stakes_view (lpos s') = stakes_view (lpos s)"
    by (auto simp: report_offence_def op_inv count_offences_view split: if_splits)
  then show ?case using lpos_report.IH stakes_view_inv by blast
qed (auto dest: stakes_frame [THEN preserves_Ok, OF _ refl] stakes_view_inv)

section \<open>The interface of the appchain pallet\<close>

interpretation lpi: lpos_interface active_stake_of active_total_stake
    "\<lambda>s :: ('a, 'b, 'x) runtime. stakes_inv (lpos s)"
proof
  fix s :: "('a, 'b, 'x) runtime" and tot vs
  assume inv: "stakes_inv (lpos s)" and tot: "active_total_stake s = Some tot" and vs: "distinct (vs :: 'a list)"
  from tot obtain a where a: "active_era (lpos s) = Some a" "tot = eras_total_stake (lpos s) (era_number a)"
    by (auto simp: active_total_stake_def)
  have "active_stake_of s = (\<lambda>v. case map_of (eras_stakers (lpos s) (era_number a)) v of Some w \<Rightarrow> w | None \<Rightarrow> 0)"
    by (rule ext) (simp add: active_stake_of_def a eras_stakers_get_def)
  then have "stake_sum (active_stake_of s) vs \<le> stakes_sum (eras_stakers (lpos s) (era_number a))"
    using stake_sum_map_of [OF vs] by metis
  then show "stake_sum (active_stake_of s) vs \<le> unat tot"
    using inv by (simp add: stakes_inv_def a) (meson le_trans)
qed

section \<open>Properties\<close>

text \<open>
  Planning an era with distinct validators elects them all, makes it the current era, gives each its
  stake and every other account zero, and stores the sum of the stakes saturated at u128::MAX as the era's
  total.
\<close>

theorem new_era_stakes:
  assumes "distinct (map fst vs)" and "eras_stakers l (next_planned_era l) = []"
    and "trigger_new_era i vs l = (elected, l')"
  shows "elected = map fst vs \<and> current_era l' = Some (next_planned_era l) \<and>
    (\<forall>v. eras_stakers_get l' (next_planned_era l) v = (case map_of vs v of Some w \<Rightarrow> w | None \<Rightarrow> 0)) \<and>
    unat (eras_total_stake l' (next_planned_era l)) = min (sum_list (map (unat \<circ> snd) vs)) (2 ^ 128 - 1)"
proof -
  have l': "l' = snd (trigger_new_era i vs l)" "elected = fst (trigger_new_era i vs l)"
    using assms(3) by simp_all
  obtain k where k: "snd (trigger_new_era i vs l) = snd (store_stakers_info vs (next_planned_era l) k)"
    "eras_stakers k (next_planned_era l) = []"
    using trigger_new_era_stakes [of i vs l] assms(2) by metis
  have "sum_list (map (unat \<circ> snd) vs) = stakes_sum vs"
    by (auto simp: stakes_sum_def intro!: arg_cong [of _ _ sum_list])
  then have "unat (eras_total_stake l' (next_planned_era l)) = min (sum_list (map (unat \<circ> snd) vs)) (2 ^ 128 - 1)"
    using store_stakers_total [of vs 0 "[]"] k by (simp add: l')
  then show ?thesis
    using trigger_new_era_get [OF assms(1,2)] by (simp add: l')
qed

theorem new_era_stakes_witness:
  "case trigger_new_era 4 [(1, 100), (2, 50)] demo_lpos0 of (elected, l') \<Rightarrow>
     elected = [1, 2] \<and> current_era l' = Some 0 \<and> eras_stakers_get l' 0 2 = 50 \<and> unat (eras_total_stake l' 0) = 150"
proof -
  obtain elected l' where t: "trigger_new_era 4 [(1, 100), (2, 50)] demo_lpos0 = (elected, l')" by fastforce
  show ?thesis
    using new_era_stakes [OF _ _ t] unfolding t prod.case by (simp add: demo_simps next_planned_era_def)
qed

text \<open>
  In a reachable lpos state two groups of distinct accounts that each hold more than two thirds of the
  active total stake overlap in accounts that hold more than a third of it, and no group of distinct
  accounts holds more than the total.
\<close>

theorem quorums_share_stake:
  assumes "lpos_reachable c s" and "active_total_stake s = Some tot"
    and "distinct xs" "distinct ys"
    and "3 * stake_sum (active_stake_of s) xs > 2 * unat tot" "3 * stake_sum (active_stake_of s) ys > 2 * unat tot"
  shows "stake_sum (active_stake_of s) xs \<le> unat tot \<and>
    3 * stake_sum (active_stake_of s) (filter (\<lambda>v. v \<in> set ys) xs) > unat tot"
  using lpi.quorums_intersect [OF lpos_reachable_inv [OF assms(1)] assms(2-6)]
    lpi.stakes_bounded [OF lpos_reachable_inv [OF assms(1)] assms(2,3)] by simp

text \<open>The concrete instance: era 0 with two validators of stake 100.\<close>

lemma demo_active_era:
  "\<exists>s. lpos_reachable demo_config s \<and> active_total_stake s = Some 200 \<and>
     active_stake_of s 1 = 100 \<and> active_stake_of s 2 = 100"
proof -
  have "\<exists>r s1 y s2. plan_session demo_config 0 demo_state = Ok r s1 \<and> start_session demo_config 0 s1 = Ok y s2 \<and>
    active_total_stake s2 = Some 200 \<and> active_stake_of s2 1 = 100 \<and> active_stake_of s2 2 = 100"
    by (simp add: plan_session_def new_session_def try_trigger_new_era_def start_session_def start_era_def
        trigger_new_era_def store_stakers_info_def store_staker_def op_simps demo_simps Let_def
        checked_sub_def saturating_add_def checked_add_def active_total_stake_def active_stake_of_def
        eras_stakers_get_def)
  then obtain r s1 y s2 where s: "plan_session demo_config 0 demo_state = Ok r s1"
    "start_session demo_config 0 s1 = Ok y s2"
    "active_total_stake s2 = Some 200 \<and> active_stake_of s2 1 = 100 \<and> active_stake_of s2 2 = 100"
    by blast
  have "lpos_reachable demo_config demo_state"
    by (rule lpos_start) (simp add: demo_simps)
  then have "lpos_reachable demo_config s1"
    by (rule lpos_plan [OF _ _ _ s(1)]) (simp_all add: demo_simps)
  then have "lpos_reachable demo_config s2" by (rule lpos_session_start [OF _ s(2)])
  then show ?thesis using s(3) by blast
qed

theorem quorums_share_stake_witness:
  "\<exists>s. lpos_reachable demo_config s \<and>
    3 * stake_sum (active_stake_of s) (filter (\<lambda>v. v \<in> set [2, 1]) [1, 2]) > 200"
proof -
  obtain s where s: "lpos_reachable demo_config s" "active_total_stake s = Some 200"
    "active_stake_of s 1 = 100" "active_stake_of s 2 = 100" using demo_active_era by blast
  show ?thesis
    using quorums_share_stake [OF s(1,2), of "[1, 2]" "[2, 1]"] s by (auto simp: stake_sum_def)
qed

end
