(* ===== verification/Lpos_Payout.thy ===== *)
theory Lpos_Payout
  imports Lpos_Sessions Lpos_Stakes
begin

text \<open>
  The end of an era: which validators are excluded from the payout, what a payout does and when it
  is lost; the reward points; the offences; and what a change of the history depth deletes.
\<close>

section \<open>Excluded validators\<close>

lemma get_exclude_validators_None:
  "get_exclude_validators c e l = None \<longleftrightarrow> points_individual (eras_reward_points l e) \<noteq> [] \<and>
     word_of_nat (length (storage_iter (staker_order (lpos_cfg c)) (eras_stakers l e))) = (0 :: u32)"
  by (simp add: get_exclude_validators_def Let_def)

lemma qualified_iff:
  assumes "distinct (map fst xs)"
  shows "v \<in> set (map fst (filter (\<lambda>(v, p). p \<ge> t) xs)) \<longleftrightarrow> (\<exists>p. map_of xs v = Some p \<and> t \<le> p)"
  using assms by (force simp: map_of_eq_Some_iff)

lemma expected_points:
  assumes n: "0 < n" "n < 2 ^ 32" and small: "unat tot div n * 80 < 2 ^ 32"
  shows "unat (tot div word_of_nat n * 80 div 100 :: u32) = unat tot div n * 80 div 100"
proof -
  have "unat (word_of_nat n :: u32) = n" using n by (intro unat_word_of_nat) simp
  then have "unat (tot div word_of_nat n) = unat tot div n" by (simp add: unat_div)
  then have "unat (tot div word_of_nat n * 80) = unat tot div n * 80"
    using small by (simp add: unat_word_ariths)
  then show ?thesis by (simp add: unat_div)
qed

section \<open>The payout\<close>

definition era_is_payable :: "active_era_info \<Rightarrow> ('a, 'b, 'x) runtime \<Rightarrow> bool" where
  "era_is_payable a s \<longleftrightarrow> is_activated (app s) \<and> era_payout (lpos s) \<noteq> 0 \<and> era_start a \<noteq> None \<and>
     eras_validator_reward (lpos s) (era_number a) = None"

lemma end_era_not_payable: "\<not> era_is_payable a s \<Longrightarrow> end_era c a i s = Ok () s"
  by (auto simp: end_era_def era_is_payable_def op_simps split: option.split)

definition payout_payload :: "('a, 'b, 'x) config \<Rightarrow> active_era_info \<Rightarrow> 'a list \<Rightarrow> 'a lpos_state \<Rightarrow> payload" where
  "payout_payload c a excluded l = EraPayoutPayload
     \<lparr>end_era_set_id = era_set_id a, excluded_validators = map (\<lambda>v. hex_format c (account_encode c v)) excluded,
      payout_offenders = fst (drain_offenders c l)\<rparr>"

definition reward_noted :: "active_era_info \<Rightarrow> ('a, 'b, 'x) runtime \<Rightarrow> ('a, 'b, 'x) runtime" where
  "reward_noted a s = s\<lparr>lpos := (lpos s)\<lparr>eras_validator_reward :=
     (eras_validator_reward (lpos s))(era_number a \<mapsto> era_payout (lpos s)), offenders := []\<rparr>\<rparr>"

lemma get_exclude_validators_noted [simp]:
  "get_exclude_validators c e (l\<lparr>eras_validator_reward := r\<rparr>) = get_exclude_validators c e l"
  by (simp add: get_exclude_validators_def)

lemma drain_offenders_noted [simp]:
  "drain_offenders c (l\<lparr>eras_validator_reward := r\<rparr>) =
     (fst (drain_offenders c l), l\<lparr>eras_validator_reward := r, offenders := []\<rparr>)"
  by (simp_all add: drain_offenders_def)

lemma end_era_payable:
  assumes "era_is_payable a s" and "get_exclude_validators c (era_number a) (lpos s) = Some excluded"
  shows "end_era c a i s =
    (case balance_from_u128 (bridge_cfg c) (era_payout (lpos s)) of
       None \<Rightarrow> Err (LposError LposAmountOverflow) (reward_noted a s)
     | Some amount \<Rightarrow>
         let t = (reward_noted a s)\<lparr>ext := currency_deposit_creating (lpos_cfg c) (lpos_account (lpos_cfg c)) amount (ext s)\<rparr>
         in case try_to_vec c (payout_payload c a excluded (lpos s)) of
              None \<Rightarrow> Err (LposError LposBorshSerializeFailed) t
            | Some payload \<Rightarrow>
                (case submit c None EraPayout payload t of
                   Ok n u \<Rightarrow> Ok () (u\<lparr>events := events u @ [LposEvent (EraPayoutEvent (era_set_id a) excluded)]\<rparr>)
                 | Err e u \<Rightarrow> Ok () (u\<lparr>events := events u @ [LposEvent (EraPayoutFailed (era_set_id a))]\<rparr>)
                 | Panic \<Rightarrow> Panic))"
proof -
  obtain st where "era_start a = Some st" using assms(1) by (auto simp: era_is_payable_def)
  then show ?thesis
    using assms by (auto simp: end_era_def era_is_payable_def op_simps Let_def reward_noted_def payout_payload_def
        split: option.split outcome.split)
qed

section \<open>Reward points\<close>

text \<open>The total of an era is the (wrapping) sum of the points of its validators.\<close>

definition points_ok :: "'a era_reward_points \<Rightarrow> bool" where
  "points_ok r \<longleftrightarrow> distinct (map fst (points_individual r)) \<and>
     points_total r = sum_list (map snd (points_individual r))"

lemma sum_list_update:
  "distinct (map fst xs) \<Longrightarrow>
   sum_list (map snd (AList.update v (q + p) xs)) =
     (case map_of xs v of None \<Rightarrow> sum_list (map snd xs) + (q + p)
      | Some o' \<Rightarrow> sum_list (map snd xs) - o' + (q + (p :: u32)))"
proof (induction xs)
  case (Cons x xs)
  then show ?case by (cases x) (auto simp: algebra_simps split: option.splits)
qed simp

lemma points_ok_add: "points_ok r \<Longrightarrow> points_ok (add_points e r)"
  by (cases e)
    (auto simp: points_ok_def add_points_def distinct_update sum_list_update algebra_simps split: option.splits)

lemma points_ok_fold: "points_ok r \<Longrightarrow> points_ok (fold add_points es r)"
  by (induction es arbitrary: r) (auto simp: points_ok_add)

text \<open>The points a list of rewards gives to one validator.\<close>

definition points_for :: "'a \<Rightarrow> ('a \<times> u32) list \<Rightarrow> u32" where
  "points_for v es = sum_list (map snd (filter (\<lambda>(u, _). u = v) es))"

definition points_of :: "'a era_reward_points \<Rightarrow> 'a \<Rightarrow> u32" where
  "points_of r v = (case map_of (points_individual r) v of Some p \<Rightarrow> p | None \<Rightarrow> 0)"

lemma points_of_add: "points_of (add_points (u, p) r) v = points_of r v + (if u = v then p else 0)"
  by (simp add: points_of_def add_points_def update_conv')

lemma points_of_fold: "points_of (fold add_points es r) v = points_of r v + points_for v es"
  by (induction es arbitrary: r) (auto simp: points_for_def points_of_add)

section \<open>Offences\<close>

definition offence_count :: "'a lpos_state \<Rightarrow> kind \<Rightarrow> 'a \<Rightarrow> u32" where
  "offence_count l k who = (case map_of (offenders l) (k, who) of Some n \<Rightarrow> n | None \<Rightarrow> 0)"

lemma offence_count_step:
  "offence_count (count_offence k u l) k' v = offence_count l k' v + (if k = k' \<and> u = v then 1 else 0)"
  by (simp add: offence_count_def count_offence_def update_conv')

lemma offence_count_fold:
  "offence_count (fold (count_offence k) ids l) k' v =
     offence_count l k' v + (if k = k' then word_of_nat (count_list ids v) else 0)"
  by (induction ids arbitrary: l) (auto simp: offence_count_step)

section \<open>History depth\<close>

lemma clear_eras_fields:
  fixes l :: "'a lpos_state" and a b e :: era_index
  defines "l' \<equiv> clear_eras a b l"
  shows "eras_stakers l' e = (if a \<le> e \<and> e < b then [] else eras_stakers l e)"
    and "eras_validator_reward l' e = (if a \<le> e \<and> e < b then None else eras_validator_reward l e)"
    and "eras_reward_points l' e = (if a \<le> e \<and> e < b then default_era_reward_points else eras_reward_points l e)"
    and "eras_total_stake l' e = (if a \<le> e \<and> e < b then 0 else eras_total_stake l e)"
    and "eras_start_session_index l' e = (if a \<le> e \<and> e < b then None else eras_start_session_index l e)"
proof -
  let ?f = "\<lambda>i. clear_era_information (word_of_nat i :: u32) :: 'a lpos_state \<Rightarrow> _"
  have fields: "eras_stakers (fold ?f xs l) e = (if e \<in> word_of_nat ` set xs then [] else eras_stakers l e) \<and>
    eras_validator_reward (fold ?f xs l) e = (if e \<in> word_of_nat ` set xs then None else eras_validator_reward l e) \<and>
    eras_reward_points (fold ?f xs l) e =
      (if e \<in> word_of_nat ` set xs then default_era_reward_points else eras_reward_points l e) \<and>
    eras_total_stake (fold ?f xs l) e = (if e \<in> word_of_nat ` set xs then 0 else eras_total_stake l e) \<and>
    eras_start_session_index (fold ?f xs l) e =
      (if e \<in> word_of_nat ` set xs then None else eras_start_session_index l e)" for xs
    by (induction xs arbitrary: l) auto
  have "e \<in> word_of_nat ` {unat a ..< unat b} \<longleftrightarrow> a \<le> e \<and> e < b"
  proof
    assume "e \<in> word_of_nat ` {unat a ..< unat b}"
    then obtain n where n: "unat a \<le> n" "n < unat b" "e = word_of_nat n" by auto
    then have "unat e = n" using unsigned_less [of b, where 'a = nat] by (simp add: unat_of_nat)
    then show "a \<le> e \<and> e < b" using n by (simp add: word_le_nat_alt word_less_nat_alt)
  next
    assume "a \<le> e \<and> e < b"
    then have "unat e \<in> {unat a ..< unat b}" by (simp add: word_le_nat_alt word_less_nat_alt)
    then show "e \<in> word_of_nat ` {unat a ..< unat b}" by (intro image_eqI [of _ _ "unat e"]) simp_all
  qed
  then show "eras_stakers l' e = (if a \<le> e \<and> e < b then [] else eras_stakers l e)"
    and "eras_validator_reward l' e = (if a \<le> e \<and> e < b then None else eras_validator_reward l e)"
    and "eras_reward_points l' e = (if a \<le> e \<and> e < b then default_era_reward_points else eras_reward_points l e)"
    and "eras_total_stake l' e = (if a \<le> e \<and> e < b then 0 else eras_total_stake l e)"
    and "eras_start_session_index l' e = (if a \<le> e \<and> e < b then None else eras_start_session_index l e)"
    using fields [of "[unat a ..< unat b]"] by (simp_all add: l'_def clear_eras_def)
qed

section \<open>A concrete era end\<close>

definition demo_era :: active_era_info where
  "demo_era = \<lparr>era_number = 0, era_set_id = 3, era_start = Some 5000\<rparr>"

definition demo_era_points :: "nat era_reward_points" where
  "demo_era_points = \<lparr>points_total = 120, points_individual = [(1, 100), (2, 20)]\<rparr>"

definition demo_era_end :: "(nat, u128, demo_ext) runtime" where
  "demo_era_end = demo_state\<lparr>lpos := demo_lpos0\<lparr>current_era := Some 1, active_era := Some demo_era,
     eras_start_session_index := [0 \<mapsto> 0, 1 \<mapsto> 2],
     eras_stakers := (\<lambda>e. if e = 0 then [(1, 100), (2, 100), (3, 100)] else []),
     eras_reward_points := (\<lambda>e. if e = 0 then demo_era_points else default_era_reward_points),
     eras_total_stake := (\<lambda>e. if e = 0 then 300 else 0), era_payout := 50,
     offenders := [(([7], 2), 4)]\<rparr>\<rparr>"

lemmas demo_era_simps = demo_simps demo_era_def demo_era_points_def demo_era_end_def

section \<open>Properties\<close>

text \<open>
  With points recorded for an era and no overflow, the excluded validators are exactly the stakers of
  the era that earned no points or fewer than 80 percent of the average over all stakers, with the code's
  integer rounding.
\<close>

theorem exclude_validators_spec:
  assumes "distinct (map fst (points_individual (eras_reward_points l e)))"
    and "vs = map fst (storage_iter (staker_order (lpos_cfg c)) (eras_stakers l e))"
    and "points_individual (eras_reward_points l e) \<noteq> []" and "vs \<noteq> []" and "length vs < 2 ^ 32"
    and "unat (points_total (eras_reward_points l e)) div length vs * 80 < 2 ^ 32"
  shows "\<exists>excluded. get_exclude_validators c e l = Some excluded \<and>
    (\<forall>v. v \<in> set excluded \<longleftrightarrow> v \<in> set vs \<and>
      (case map_of (points_individual (eras_reward_points l e)) v of None \<Rightarrow> True
       | Some p \<Rightarrow> unat p < unat (points_total (eras_reward_points l e)) div length vs * 80 div 100))"
proof -
  define limit where "limit = points_total (eras_reward_points l e) div word_of_nat (length vs) * 80 div 100"
  have limit: "unat limit = unat (points_total (eras_reward_points l e)) div length vs * 80 div 100"
    unfolding limit_def using assms(4-6) by (intro expected_points) auto
  have "word_of_nat (length vs) \<noteq> (0 :: u32)"
    using assms(4,5) unat_word_of_nat [of "length vs", where 'w = 32] by auto
  then have "get_exclude_validators c e l = Some (filter (\<lambda>v. v \<notin> set (map fst
      (filter (\<lambda>(v, p). p \<ge> limit) (points_individual (eras_reward_points l e))))) vs)"
    using assms(2,3) by (simp add: get_exclude_validators_def Let_def limit_def)
  then show ?thesis
    unfolding limit [symmetric] using qualified_iff [OF assms(1), where t = limit]
    by (auto simp: word_le_nat_alt not_le simp del: set_map split: option.splits)
qed

theorem exclude_validators_spec_witness:
  "\<exists>excluded. get_exclude_validators demo_config 0 (lpos demo_era_end) = Some excluded \<and> set excluded = {2, 3}"
proof -
  have vs: "storage_iter (staker_order (lpos_cfg demo_config)) (eras_stakers (lpos demo_era_end) 0)
      = [(1, 100), (2, 100), (3, 100)]"
    by (simp add: demo_era_simps storage_iter_def)
  have p: "eras_reward_points (lpos demo_era_end) 0 = demo_era_points"
    by (simp add: demo_era_end_def demo_simps)
  obtain excluded where ex: "get_exclude_validators demo_config 0 (lpos demo_era_end) = Some excluded"
    "\<forall>v. v \<in> set excluded \<longleftrightarrow> v \<in> set [1, 2, 3] \<and>
      (case map_of (points_individual demo_era_points) v of None \<Rightarrow> True
       | Some p \<Rightarrow> unat p < unat (points_total demo_era_points) div length [1, 2, 3 :: nat] * 80 div 100)"
    using exclude_validators_spec [of "lpos demo_era_end" 0 "[1, 2, 3]" demo_config] unfolding p vs
    by (auto simp: demo_era_points_def)
  then have "v \<in> set excluded \<longleftrightarrow> v = 2 \<or> v = 3" for v
    by (auto simp: demo_era_points_def)
  then show ?thesis using ex(1) by blast
qed

text \<open>
  Ending a session of an era whose reward is already recorded changes nothing: no era is paid twice.
\<close>

theorem finish_session_pays_once:
  assumes "eras_validator_reward (lpos s) (era_number a) \<noteq> None" and "active_era (lpos s) = Some a"
  shows "finish_session c i s = Ok () s"
  using assms end_era_not_payable [of a s]
  by (auto simp: finish_session_def end_session_def era_is_payable_def op_simps split: option.split)

theorem finish_session_pays_once_witness:
  "finish_session demo_config 1 (reward_noted demo_era demo_era_end) = Ok () (reward_noted demo_era demo_era_end)"
  by (rule finish_session_pays_once [where a = demo_era]) (simp_all add: demo_era_simps reward_noted_def)

text \<open>
  C32. Ending a payable era deposits the payout to the pallet's account once, records it as the era's reward
  and drains the offenders; it queues one EraPayout message carrying the set id, the excluded validators and
  the offenders and emits EraPayout, or, when the message queue refuses it, leaves the queue alone and emits
  EraPayoutFailed.
\<close>

theorem era_payout_outcome:
  assumes "era_is_payable a s" and "get_exclude_validators c (era_number a) (lpos s) = Some excluded"
    and "balance_from_u128 (bridge_cfg c) (era_payout (lpos s)) = Some amount"
    and "try_to_vec c (payout_payload c a excluded (lpos s)) = Some payload"
  shows "\<exists>s'. end_era c a i s = Ok () s' \<and>
    ext s' = currency_deposit_creating (lpos_cfg c) (lpos_account (lpos_cfg c)) amount (ext s) \<and>
    eras_validator_reward (lpos s') (era_number a) = Some (era_payout (lpos s)) \<and> offenders (lpos s') = [] \<and>
    (if nonce (um s) = - 1 \<or> too_large c payload \<or> queue_full c s
     then um s' = um s \<and> events s' = events s @ [LposEvent (EraPayoutFailed (era_set_id a))]
     else message_queue (um s') = message_queue (um s) @
            [\<lparr>msg_nonce = nonce (um s) + 1, msg_payload_type = EraPayout, msg_payload = payload\<rparr>] \<and>
          LposEvent (EraPayoutEvent (era_set_id a) excluded) \<in> set (events s'))"
  using assms(3,4)
  by (simp add: end_era_payable [OF assms(1,2)] Let_def submit_eq reward_noted_def queue_full_def
      accept_message_def submitted_by_user_def)

theorem era_payout_outcome_witness:
  "\<exists>s'. end_era demo_config demo_era 1 demo_era_end = Ok () s' \<and>
    ext s' = demo_ext0\<lparr>bal := (bal demo_ext0)(0 := 1050)\<rparr> \<and>
    LposEvent (EraPayoutEvent 3 [2, 3]) \<in> set (events s')"
proof -
  have "get_exclude_validators demo_config 0 (lpos demo_era_end) = Some [2, 3]"
    by (simp add: get_exclude_validators_def demo_era_simps storage_iter_def Let_def del: set_filter)
  then show ?thesis
    using era_payout_outcome [of demo_era demo_era_end demo_config "[2, 3]" 50 "[1, 2, 3]" 1]
    by (auto simp: demo_era_simps era_is_payable_def too_large_def queue_full_def)
qed

text \<open>
  C35. When the era payout does not fit the balance type, ending the session still succeeds with nothing
  paid, sent or emitted, but the era is marked as paid and the offenders are gone, so ending it again does
  nothing: the payout is lost.
\<close>

theorem overflowing_payout_is_lost:
  assumes "active_era (lpos s) = Some a" and "eras_start_session_index (lpos s) (era_number a + 1) = Some (i + 1)"
    and "era_is_payable a s" and "get_exclude_validators c (era_number a) (lpos s) \<noteq> None"
    and "balance_from_u128 (bridge_cfg c) (era_payout (lpos s)) = None"
  shows "\<exists>s'. finish_session c i s = Ok () s' \<and> eras_validator_reward (lpos s') (era_number a) \<noteq> None \<and>
    offenders (lpos s') = [] \<and> um s' = um s \<and> events s' = events s \<and> ext s' = ext s \<and>
    finish_session c i s' = Ok () s'"
proof -
  obtain excluded where ex: "get_exclude_validators c (era_number a) (lpos s) = Some excluded"
    using assms(4) by auto
  have "finish_session c i s = Ok () (reward_noted a s)"
    using assms(1,2,5) by (simp add: finish_session_def end_session_def op_simps end_era_payable [OF assms(3) ex])
  moreover have "finish_session c i (reward_noted a s) = Ok () (reward_noted a s)"
    using assms(1) end_era_not_payable [of a "reward_noted a s" c i]
    by (auto simp: finish_session_def end_session_def op_simps reward_noted_def era_is_payable_def
        split: option.split)
  ultimately show ?thesis
    by (intro exI [of _ "reward_noted a s"]) (simp add: reward_noted_def)
qed

theorem overflowing_payout_is_lost_witness:
  "\<exists>c s'. finish_session c 1 demo_era_end = Ok () s' \<and> eras_validator_reward (lpos s') 0 \<noteq> None \<and>
     offenders (lpos s') = [] \<and> ext s' = ext demo_era_end \<and> finish_session c 1 s' = Ok () s'"
proof -
  let ?c = "demo_config\<lparr>bridge_cfg := demo_bridge_config\<lparr>balance_from_u128 := (\<lambda>_. None)\<rparr>\<rparr>"
  have "get_exclude_validators ?c 0 (lpos demo_era_end) \<noteq> None"
    by (simp add: get_exclude_validators_def demo_era_simps storage_iter_def Let_def)
  then show ?thesis
    using overflowing_payout_is_lost [of demo_era_end demo_era 1 ?c]
    by (auto simp: demo_era_simps era_is_payable_def intro!: exI [of _ ?c])
qed

text \<open>
  Rewarding a list of validators with points adds to each the sum of its entries, wrapping at u32,
  keeps the total equal to the sum of the individual points and touches no other era.
\<close>

theorem reward_by_ids_points:
  assumes "active_era l = Some a" and "points_ok (eras_reward_points l (era_number a))"
  shows "points_ok (eras_reward_points (reward_by_ids es l) (era_number a)) \<and>
    (\<forall>v. points_of (eras_reward_points (reward_by_ids es l) (era_number a)) v =
         points_of (eras_reward_points l (era_number a)) v + points_for v es) \<and>
    (\<forall>e. e \<noteq> era_number a \<longrightarrow> eras_reward_points (reward_by_ids es l) e = eras_reward_points l e)"
  using assms by (simp add: reward_by_ids_def points_ok_fold points_of_fold)

theorem reward_by_ids_points_witness:
  "points_of (eras_reward_points (reward_by_ids [(2, 7), (9, 1), (2, 3)] (lpos demo_era_end)) 0) 2 = 30"
  using reward_by_ids_points [of "lpos demo_era_end" demo_era "[(2, 7), (9, 1), (2, 3)]"]
  by (simp add: demo_era_simps points_ok_def points_of_def points_for_def)

text \<open>
  With a first bonded era, an offence from before its start session is discarded with an event; any
  other one is reported to the inner handler and, when that accepts it, each offender's count for the
  offence kind grows by its number of occurrences, while an error of the handler is returned without
  counting.
\<close>

theorem report_offence_outcome:
  assumes "bonded_eras (lpos s) = (e0, start) # rest"
  shows "report_offence inner k i ids s =
    (if i < start then Ok () (s\<lparr>events := events s @ [LposEvent (OldSlashingReportDiscarded i)]\<rparr>)
     else case inner s of
         Ok _ t \<Rightarrow> Ok () (t\<lparr>lpos := fold (count_offence k) ids (lpos t)\<rparr>)
       | Err e t \<Rightarrow> Err e t | Panic \<Rightarrow> Panic) \<and>
    (\<forall>l k' v. offence_count (fold (count_offence k) ids l) k' v =
       offence_count l k' v + (if k = k' then word_of_nat (count_list ids v) else 0))"
  using assms by (auto simp: report_offence_def op_simps not_less offence_count_fold split: outcome.split)

theorem report_offence_outcome_witness:
  "\<exists>s. bonded_eras (lpos s) = [(0, 4)] \<and>
     report_offence (ret () :: (nat, u128, demo_ext, unit) call) [7] 1 [2, 2] s
       = Ok () (s\<lparr>events := events s @ [LposEvent (OldSlashingReportDiscarded 1)]\<rparr>) \<and>
     report_offence (ret () :: (nat, u128, demo_ext, unit) call) [7] 4 [2, 2] s
       = Ok () (s\<lparr>lpos := fold (count_offence [7]) [2, 2] (lpos s)\<rparr>)"
proof -
  let ?s = "demo_era_end\<lparr>lpos := (lpos demo_era_end)\<lparr>bonded_eras := [(0, 4)]\<rparr>\<rparr>"
  have b: "bonded_eras (lpos ?s) = (0, 4) # []" by simp
  show ?thesis
    using report_offence_outcome [OF b, of "ret () :: (nat, u128, demo_ext, unit) call" "[7]" 1 "[2, 2]"]
      report_offence_outcome [OF b, of "ret () :: (nat, u128, demo_ext, unit) call" "[7]" 4 "[2, 2]"] b
    by (intro exI [of _ ?s]) (simp add: ret_def)
qed

text \<open>
  C36. In the session pallet's order no offence is ever discarded as too old, whatever its session and
  however many eras have passed: BondedEras is never pruned, so its first entry is always era 0 starting at
  session 0.
\<close>

theorem no_offence_is_too_old:
  assumes "session_at c i s" and "sessions c > 0"
  shows "report_offence inner k n ids s = bind inner (\<lambda>_. modify (\<lambda>t. t\<lparr>lpos := fold (count_offence k) ids (lpos t)\<rparr>)) s"
proof -
  have "bonded_eras (lpos s) = map (\<lambda>k. (u32_of k, u32_of (k * sessions c))) [0 ..< Suc (i div sessions c)]"
    using session_at_inv [OF assms] by (simp add: eras_active_def)
  then have "bonded_eras (lpos s) = (0, 0) # tl (bonded_eras (lpos s))"
    by (simp add: u32_of_0 upt_conv_Cons del: upt_Suc)
  then show ?thesis
    by (simp add: report_offence_def op_simps) (metis (no_types, lifting) list.case prod.case word_coorder.extremum)
qed

theorem no_offence_is_too_old_witness:
  "\<exists>s. session_at demo_config 0 s \<and>
     report_offence (ret () :: (nat, u128, demo_ext, unit) call) [7] 0 [2, 2] s
       = Ok () (s\<lparr>lpos := fold (count_offence [7]) [2, 2] (lpos s)\<rparr>)"
proof -
  obtain s where s: "session_at demo_config 0 s" using demo_sessions by blast
  have "sessions demo_config > 0" by (simp add: demo_simps)
  from no_offence_is_too_old [OF s this, of "ret ()" "[7]" 0 "[2, 2]"] s show ?thesis
    by (intro exI [of _ s] conjI) (simp_all add: op_simps)
qed

text \<open>
  set_history_depth stores the new depth and deletes all five kinds of era information of exactly the
  eras that the old depth kept and the new one does not, leaving every other era untouched.
\<close>

theorem set_history_depth_deletes:
  assumes "current_era (lpos s) = Some cur" and "first_kept = unat cur - unat (history_depth (lpos s))"
    and "new_first_kept = unat cur - unat d"
  shows "\<exists>s'. set_history_depth Root d n s = Ok () s' \<and> history_depth (lpos s') = d \<and>
    (\<forall>e. if first_kept \<le> unat e \<and> unat e < new_first_kept
         then eras_stakers (lpos s') e = [] \<and> eras_validator_reward (lpos s') e = None \<and>
              eras_reward_points (lpos s') e = default_era_reward_points \<and> eras_total_stake (lpos s') e = 0 \<and>
              eras_start_session_index (lpos s') e = None
         else eras_stakers (lpos s') e = eras_stakers (lpos s) e \<and>
              eras_validator_reward (lpos s') e = eras_validator_reward (lpos s) e \<and>
              eras_reward_points (lpos s') e = eras_reward_points (lpos s) e \<and>
              eras_total_stake (lpos s') e = eras_total_stake (lpos s) e \<and>
              eras_start_session_index (lpos s') e = eras_start_session_index (lpos s) e)"
proof -
  define a where "a = (case checked_sub cur (history_depth (lpos s)) of Some e \<Rightarrow> e | None \<Rightarrow> 0)"
  define b where "b = (case checked_sub cur d of Some e \<Rightarrow> e | None \<Rightarrow> 0)"
  have ab: "unat a = first_kept" "unat b = new_first_kept"
    using assms(2,3) by (auto simp: a_def b_def checked_sub_def word_le_nat_alt unat_sub split: option.split)
  have range: "first_kept \<le> unat e \<and> unat e < new_first_kept \<longleftrightarrow> a \<le> e \<and> e < b" for e
    by (simp add: word_le_nat_alt word_less_nat_alt ab)
  have "set_history_depth Root d n s = Ok () (s\<lparr>lpos := (clear_eras a b (lpos s))\<lparr>history_depth := d\<rparr>\<rparr>)"
    using assms(1) by (simp add: set_history_depth_def op_simps Let_def a_def b_def)
  then show ?thesis by (simp add: clear_eras_fields range)
qed

theorem set_history_depth_deletes_witness:
  "\<exists>s'. set_history_depth Root 0 9 demo_era_end = Ok () s' \<and> history_depth (lpos s') = 0 \<and>
    eras_stakers (lpos s') 0 = [] \<and> eras_start_session_index (lpos s') 1 = Some 2"
proof -
  have cur: "current_era (lpos demo_era_end) = Some 1" by (simp add: demo_era_simps)
  obtain s' where s': "set_history_depth Root 0 9 demo_era_end = Ok () s'" "history_depth (lpos s') = 0"
    "eras_stakers (lpos s') 0 = []" "eras_start_session_index (lpos s') 1 = eras_start_session_index (lpos demo_era_end) 1"
    using set_history_depth_deletes [OF cur refl refl, of 0 9]
    by (elim exE conjE) (auto simp: demo_era_simps split: if_splits dest: spec [of _ 0] spec [of _ 1])
  then show ?thesis by (simp add: demo_era_simps)
qed

text \<open>
  When the current era is over, planning the next session for the historical pallet returns the planned
  validators of the appchain pallet, each with exactly the stake it was planned with.
\<close>

theorem historical_session_exposes_stakes:
  assumes "era_is_over c i (lpos s)" and "distinct (map fst (planned_validators (app s)))"
    and "stakes_inv (lpos s)" and "current_era (lpos s) \<noteq> Some (- 1)"
  shows "\<exists>s'. historical_new_session c i s = Ok (Some (planned_validators (app s))) s'"
proof -
  let ?s = "s\<lparr>lpos := (lpos s)\<lparr>current_planned_session := i\<rparr>\<rparr>"
  let ?vs = "planned_validators (app s)" and ?e = "next_planned_era (lpos s)"
  have over: "era_is_over c i (lpos ?s)" using assms(1) by (cases "current_era (lpos s)") (simp_all add: era_is_over_def)
  obtain l' where l': "trigger_new_era i ?vs (lpos ?s) = (map fst ?vs, l')"
    using trigger_new_era_simps(1) [of i ?vs "lpos ?s"] by (metis prod.collapse)
  have e: "next_planned_era (lpos ?s) = ?e" by (simp add: next_planned_era_def)
  have fresh: "eras_stakers (lpos ?s) ?e = []"
    using assms(3,4) unat_succ
    by (fastforce simp: stakes_inv_def next_planned_era_def word_less_nat_alt split: option.splits)
  have new: "current_era l' = Some ?e"
    "\<forall>v. eras_stakers_get l' ?e v = (case map_of ?vs v of Some w \<Rightarrow> w | None \<Rightarrow> 0)"
    using trigger_new_era_get [OF assms(2), of "lpos ?s" i] fresh l' trigger_new_era_simps(2) [of i ?vs "lpos ?s"]
    unfolding e by simp_all
  have "validators_with_exposure (map fst ?vs) l' = ?vs"
    using new assms(2) by (auto simp: validators_with_exposure_def o_def intro!: map_idI)
  moreover have "new_session c i ?s = try_trigger_new_era i ?s"
    using over by (cases "current_era (lpos s)") (simp_all add: new_session_def era_is_over_def op_simps Let_def)
  ultimately show ?thesis
    using l' by (simp add: historical_new_session_def plan_session_def try_trigger_new_era_def op_simps on_lpos_def)
qed

theorem historical_session_exposes_stakes_witness:
  "\<exists>s'. historical_new_session demo_config 0 demo_state = Ok (Some [(1, 100), (2, 100)]) s'"
  using historical_session_exposes_stakes [of demo_config 0 demo_state]
  by (simp add: era_is_over_def stakes_inv_def demo_simps)

end
