(* ===== verification/Appchain.thy ===== *)
theory Appchain
  imports Bridge_Transfers Lpos_Payout
begin

text \<open>
  The pallet \<open>appchain\<close> (\<open>appchain/src/lib.rs\<close>): validators vote for what they observed on the
  mainchain, and an observation that more than two thirds of the active stake voted for is executed.
  The calls to the bridge and to lpos are the calls of those pallets' models.
\<close>

section \<open>Storage\<close>

definition modify_app :: "('a appchain_state \<Rightarrow> 'a appchain_state) \<Rightarrow> ('a, 'b, 'x, unit) call" where
  "modify_app f = modify (\<lambda>s. s\<lparr>app := f (app s)\<rparr>)"

declare modify_app_def [op_simps]

lemma modify_app_iff [op_inv]:
  "modify_app f s = Ok y t \<longleftrightarrow> t = s\<lparr>app := f (app s)\<rparr>"
  "modify_app f s \<noteq> Err e t" "modify_app f s \<noteq> Panic"
  by (auto simp: modify_app_def modify_def)

lemma preserves_modify_app [preserves_rules]:
  "(\<And>s. P s \<Longrightarrow> P (s\<lparr>app := f (app s)\<rparr>)) \<Longrightarrow> preserves P (modify_app f)"
  by (rule preservesI) (auto simp: modify_app_iff)

text \<open>\<open>BoundedVec::try_push\<close>.\<close>

definition try_push :: "nat \<Rightarrow> 'v \<Rightarrow> 'v list \<Rightarrow> 'v list option" where
  "try_push bound x xs = (if length xs < bound then Some (xs @ [x]) else None)"

section \<open>Genesis\<close>

definition appchain_genesis_build :: "rust_string \<Rightarrow> ('a \<times> u128) list \<Rightarrow> ('a, 'b, 'x, unit) call" where
  "appchain_genesis_build anchor vs =
     bind (modify_app (\<lambda>p. p\<lparr>anchor_contract := anchor\<rparr>)) (\<lambda>_.
     bind (modify_app (\<lambda>p. p\<lparr>next_set_id := 1\<rparr>)) (\<lambda>_.
     modify_app (\<lambda>p. p\<lparr>planned_validators := vs\<rparr>)))"

section \<open>Sequence numbers\<close>

definition increase_next_notification_id :: "('a, 'b, 'x, unit) call" where
  "increase_next_notification_id =
     try_mutate (\<lambda>s. next_notification_id (app s))
       (\<lambda>n s. s\<lparr>app := (app s)\<lparr>next_notification_id := n\<rparr>\<rparr>)
       (\<lambda>n. bind (ok_or (checked_add n 1) (AppchainError NextNotificationIdOverflow)) (\<lambda>n'. ret ((), n')))"

definition increase_next_set_id :: "('a, 'b, 'x, unit) call" where
  "increase_next_set_id =
     try_mutate (\<lambda>s. next_set_id (app s)) (\<lambda>n s. s\<lparr>app := (app s)\<lparr>next_set_id := n\<rparr>\<rparr>)
       (\<lambda>n. bind (ok_or (checked_add n 1) (AppchainError NextSetIdOverflow)) (\<lambda>n'. ret ((), n')))"

definition check_observation :: "('a, 'b, 'x) config \<Rightarrow> observation_type \<Rightarrow> u32 \<Rightarrow> ('a, 'b, 'x, unit) call" where
  "check_observation c observation_type obs_id =
     (case observation_type of
        UpdateValidatorSetType \<Rightarrow>
          bind (gets (\<lambda>s. next_set_id (app s))) (\<lambda>next_id.
          if obs_id \<noteq> next_id then fail (AppchainError WrongSetId) else ret ())
      | _ \<Rightarrow>
          bind (gets (\<lambda>s. next_notification_id (app s))) (\<lambda>next_id.
          (let limit = request_event_limit (app_cfg c) in
           if obs_id < next_id \<or> obs_id \<ge> next_id + limit then fail (AppchainError InvalidNotificationId)
           else ret ())))"

section \<open>Votes\<close>

definition record_observation :: "'a observation \<Rightarrow> ('a, 'b, 'x, unit) call" where
  "record_observation observation =
     (let t = get_observation_type observation; i = observation_index observation in
      bind (gets (\<lambda>s. observations (app s) t i)) (\<lambda>obs.
      if observation \<in> set obs then ret ()
      else
        bind (ok_or (try_push (unat max_observations) observation obs) (AppchainError ObservationsExceededLimit)) (\<lambda>obs'.
        modify_app (\<lambda>p. p\<lparr>observations := (observations p)(t := (observations p t)(i := obs'))\<rparr>))))"

definition record_vote :: "('a, 'b, 'x) config \<Rightarrow> 'a \<Rightarrow> 'a observation \<Rightarrow> ('a, 'b, 'x, unit) call" where
  "record_vote c validator_id observation =
     bind (gets (\<lambda>s. observing (app s) observation)) (\<lambda>vals.
     if validator_id \<in> set vals then ret ()
     else
       bind (ok_or (try_push (unat (max_validators (app_cfg c))) validator_id vals)
               (AppchainError ObservationsExceededLimit)) (\<lambda>vals'.
       modify_app (\<lambda>p. p\<lparr>observing := (observing p)(observation := vals')\<rparr>)))"

text \<open>\<open>.sum()\<close> of the stakes of the voters, in \<open>u128\<close>.\<close>

definition observing_stake :: "'a observation \<Rightarrow> ('a, 'b, 'x) runtime \<Rightarrow> u128" where
  "observing_stake observation s = sum_list (map (active_stake_of s) (observing (app s) observation))"

section \<open>Execution\<close>

definition set_notification_history :: "u32 \<Rightarrow> notification_result \<Rightarrow> ('a, 'b, 'x, unit) call" where
  "set_notification_history i r =
     modify_app (\<lambda>p. p\<lparr>notification_history := (notification_history p)(i := Some r)\<rparr>)"

fun execute_observation :: "('a, 'b, 'x) config \<Rightarrow> u32 \<Rightarrow> 'a observation \<Rightarrow> ('a, 'b, 'x, unit) call" where
  "execute_observation c obs_id (UpdateValidatorSet val_set) =
     (let vs = map (\<lambda>v. (validator_id_in_appchain v, validator_total_stake v)) (validators val_set) in
      bind (modify_app (\<lambda>p. p\<lparr>planned_validators := vs\<rparr>)) (\<lambda>_.
      bind (gets (\<lambda>s. next_set_id (app s))) (\<lambda>i.
      bind (deposit_event (AppchainEvent (NewPlannedValidators i vs))) (\<lambda>_.
      increase_next_set_id))))"
| "execute_observation c obs_id (Burn event) =
     bind increase_next_notification_id (\<lambda>_.
     bind (catch (unlock c (be_sender_id event) (be_receiver event) (be_amount event) (be_index event))
             (\<lambda>_. ret Success)
             (\<lambda>_. bind (deposit_event (AppchainEvent (UnlockFailedEvent (be_sender_id event)
                          (be_receiver event) (be_amount event) (be_index event)))) (\<lambda>_. ret UnlockFailed))) (\<lambda>result.
     set_notification_history obs_id result))"
| "execute_observation c obs_id (LockAsset event) =
     bind increase_next_notification_id (\<lambda>_.
     bind (catch (mint_nep141 c (la_token_id event) (la_sender_id event) (la_receiver event) (la_amount event)
                    (la_index event))
             (\<lambda>_. ret Success)
             (\<lambda>_. bind (deposit_event (AppchainEvent (MintNep141Failed (la_token_id event) (la_sender_id event)
                          (la_receiver event) (la_amount event) (la_index event)))) (\<lambda>_. ret AssetMintFailed))) (\<lambda>result.
     set_notification_history obs_id result))"
| "execute_observation c obs_id (BurnNft event) =
     bind increase_next_notification_id (\<lambda>_.
     bind (catch (unlock_nonfungible c (bn_collection event) (bn_item event) (bn_sender_id event)
                    (bn_receiver event) (bn_index event))
             (\<lambda>_. ret Success)
             (\<lambda>_. bind (deposit_event (AppchainEvent (UnlockNonfungibleFailed (bn_collection event) (bn_item event)
                          (bn_sender_id event) (bn_receiver event) (bn_index event)))) (\<lambda>_. ret NftUnlockFailed))) (\<lambda>result.
     set_notification_history obs_id result))"

definition submit_observation :: "('a, 'b, 'x) config \<Rightarrow> 'a \<Rightarrow> 'a observation \<Rightarrow> ('a, 'b, 'x, unit) call" where
  "submit_observation c validator_id observation = transactional (
     let t = get_observation_type observation; obs_id = observation_index observation in
     bind (check_observation c t obs_id) (\<lambda>_.
     bind (record_observation observation) (\<lambda>_.
     bind (record_vote c validator_id observation) (\<lambda>_.
     bind (gets active_total_stake) (\<lambda>active_total.
     bind (ok_or active_total (AppchainError InvalidActiveTotalStake)) (\<lambda>total_stake.
     bind (gets (observing_stake observation)) (\<lambda>stake.
     if 3 * stake > 2 * total_stake then execute_observation c obs_id observation
     else ret ())))))))"

section \<open>Calls\<close>

definition key_type :: bytes where
  "key_type = str_bytes ''octo''"

definition submit_observations :: "('a, 'b, 'x) config \<Rightarrow> 'a origin \<Rightarrow> (bytes, 'a) observations_payload \<Rightarrow> bytes
    \<Rightarrow> ('a, 'b, 'x, unit) call" where
  "submit_observations c org payload signature =
     bind (ensure_none org) (\<lambda>_.
     bind (gets (is_active_validator c key_type (payload_key_data payload))) (\<lambda>found.
     bind (ok_or found (AppchainError NotValidator)) (\<lambda>val_id.
     for_each (\<lambda>observation. catch (submit_observation c val_id observation) (\<lambda>_. ret ()) (\<lambda>_. ret ()))
       (payload_observations payload))))"

definition force_set_is_activated :: "'a origin \<Rightarrow> bool \<Rightarrow> ('a, 'b, 'x, unit) call" where
  "force_set_is_activated org activated =
     bind (ensure_root org) (\<lambda>_. modify_app (\<lambda>p. p\<lparr>is_activated := activated\<rparr>))"

definition force_set_next_set_id :: "'a origin \<Rightarrow> u32 \<Rightarrow> ('a, 'b, 'x, unit) call" where
  "force_set_next_set_id org next_id =
     bind (ensure_root org) (\<lambda>_. modify_app (\<lambda>p. p\<lparr>next_set_id := next_id\<rparr>))"

definition force_set_planned_validators :: "'a origin \<Rightarrow> ('a \<times> u128) list \<Rightarrow> ('a, 'b, 'x, unit) call" where
  "force_set_planned_validators org vs =
     bind (ensure_root org) (\<lambda>_. modify_app (\<lambda>p. p\<lparr>planned_validators := vs\<rparr>))"

definition force_set_next_notification_id :: "'a origin \<Rightarrow> u32 \<Rightarrow> ('a, 'b, 'x, unit) call" where
  "force_set_next_notification_id org next_id =
     bind (ensure_root org) (\<lambda>_. modify_app (\<lambda>p. p\<lparr>next_notification_id := next_id\<rparr>))"

section \<open>Unsigned transactions\<close>

datatype 'a appchain_call =
    SubmitObservations "(bytes, 'a) observations_payload" bytes
  | ForceSetIsActivated bool
  | ForceSetNextSetId u32
  | ForceSetPlannedValidators "('a \<times> u128) list"
  | ForceSetNextNotificationId u32

datatype invalid_transaction = InvalidCall | InvalidBadProof | InvalidFuture

text \<open>A valid transaction: its tags are the prefix and the account it provides.\<close>

record 'a valid_transaction =
  tag_prefix :: bytes
  provides :: 'a
  priority :: u64
  longevity :: u64
  propagate :: bool

definition validate_transaction_parameters :: "('a, 'b, 'x) config \<Rightarrow> u32 \<Rightarrow> 'a \<Rightarrow> ('a, 'b, 'x) runtime
    \<Rightarrow> invalid_transaction + 'a valid_transaction" where
  "validate_transaction_parameters c tx_block account_id s =
     (let current_block = block_number s in
      if current_block < tx_block then Inl InvalidFuture
      else Inr \<lparr>tag_prefix = str_bytes ''OctopusAppchain'', provides = account_id,
             priority = unsigned_priority (app_cfg c), longevity = 5, propagate = True\<rparr>)"

fun validate_unsigned :: "('a, 'b, 'x) config \<Rightarrow> 'a appchain_call \<Rightarrow> ('a, 'b, 'x) runtime
    \<Rightarrow> invalid_transaction + 'a valid_transaction" where
  "validate_unsigned c (SubmitObservations payload signature) s =
     (let signature_valid = verify_payload (app_cfg c) payload signature in
      if \<not> signature_valid then Inl InvalidBadProof
      else validate_transaction_parameters c (payload_block_number payload)
             (public_into_account (app_cfg c) (payload_public payload)) s)"
| "validate_unsigned c _ s = Inl InvalidCall"

fun appchain_dispatch :: "('a, 'b, 'x) config \<Rightarrow> 'a origin \<Rightarrow> 'a appchain_call \<Rightarrow> ('a, 'b, 'x, unit) call" where
  "appchain_dispatch c org (SubmitObservations p sig) = submit_observations c org p sig"
| "appchain_dispatch c org (ForceSetIsActivated b) = force_set_is_activated org b"
| "appchain_dispatch c org (ForceSetNextSetId i) = force_set_next_set_id org i"
| "appchain_dispatch c org (ForceSetPlannedValidators vs) = force_set_planned_validators org vs"
| "appchain_dispatch c org (ForceSetNextNotificationId i) = force_set_next_notification_id org i"

end
