(* ===== verification/Appchain_Votes.thy ===== *)
theory Appchain_Votes
  imports Appchain
begin

text \<open>
  The votes on observations: what a vote writes, when an observation is executed, the invariant that
  every validator votes once, and the order of the notifications.
\<close>

section \<open>One vote\<close>

definition votes_after :: "'a \<Rightarrow> 'a list \<Rightarrow> 'a list" where
  "votes_after v vs = (if v \<in> set vs then vs else vs @ [v])"

definition cast_vote :: "'a \<Rightarrow> 'a observation \<Rightarrow> (observation_type \<Rightarrow> u32 \<Rightarrow> 'a observation list)
    \<Rightarrow> ('a, 'b, 'x) runtime \<Rightarrow> ('a, 'b, 'x) runtime" where
  "cast_vote v o' obs s = s\<lparr>app := (app s)\<lparr>observations := obs,
     observing := (observing (app s))(o' := votes_after v (observing (app s) o'))\<rparr>\<rparr>"

lemma cast_vote_simps [simp]:
  "lpos (cast_vote v o' obs s) = lpos s" "bridge (cast_vote v o' obs s) = bridge s"
  "um (cast_vote v o' obs s) = um s" "ext (cast_vote v o' obs s) = ext s"
  "events (cast_vote v o' obs s) = events s"
  "observing (app (cast_vote v o' obs s)) = (observing (app s))(o' := votes_after v (observing (app s) o'))"
  "next_notification_id (app (cast_vote v o' obs s)) = next_notification_id (app s)"
  "next_set_id (app (cast_vote v o' obs s)) = next_set_id (app s)"
  "planned_validators (app (cast_vote v o' obs s)) = planned_validators (app s)"
  "notification_history (app (cast_vote v o' obs s)) = notification_history (app s)"
  "is_activated (app (cast_vote v o' obs s)) = is_activated (app s)"
  by (simp_all add: cast_vote_def)

lemma active_stake_cong: "lpos s = lpos t \<Longrightarrow> active_stake_of s = active_stake_of t"
  by (simp add: active_stake_of_def fun_eq_iff)

lemma active_total_cong: "lpos s = lpos t \<Longrightarrow> active_total_stake s = active_total_stake t"
  by (simp add: active_total_stake_def)

definition vote_stake :: "'a \<Rightarrow> 'a observation \<Rightarrow> ('a, 'b, 'x) runtime \<Rightarrow> u128" where
  "vote_stake v o' s = sum_list (map (active_stake_of s) (votes_after v (observing (app s) o')))"

lemma observing_stake_cast [simp]: "observing_stake o' (cast_vote v o' obs s) = vote_stake v o' s"
  using active_stake_cong [of "cast_vote v o' obs s" s] by (simp add: observing_stake_def vote_stake_def)

text \<open>The room for the observation and for the vote, and the lists after them.\<close>

definition noted_observations :: "'a observation \<Rightarrow> ('a, 'b, 'x) runtime
    \<Rightarrow> (observation_type \<Rightarrow> u32 \<Rightarrow> 'a observation list) option" where
  "noted_observations o' s =
     (let t = get_observation_type o'; i = observation_index o'; obs = observations (app s) t i in
      if o' \<in> set obs then Some (observations (app s))
      else if length obs < 100 then
        Some ((observations (app s))(t := (observations (app s) t)(i := obs @ [o'])))
      else None)"

definition vote_fits :: "('a, 'b, 'x) config \<Rightarrow> 'a \<Rightarrow> 'a observation \<Rightarrow> ('a, 'b, 'x) runtime \<Rightarrow> bool" where
  "vote_fits c v o' s \<longleftrightarrow> v \<in> set (observing (app s) o') \<or>
     length (observing (app s) o') < unat (max_validators (app_cfg c))"

lemma record_observation_eq:
  "record_observation o' s =
     (case noted_observations o' s of
        Some obs \<Rightarrow> Ok () (s\<lparr>app := (app s)\<lparr>observations := obs\<rparr>\<rparr>)
      | None \<Rightarrow> Err (AppchainError ObservationsExceededLimit) s)"
  by (simp add: record_observation_def noted_observations_def op_simps Let_def try_push_def max_observations_def)

lemma record_vote_eq:
  "record_vote c v o' s =
     (if vote_fits c v o' s
      then Ok () (s\<lparr>app := (app s)\<lparr>observing := (observing (app s))(o' := votes_after v (observing (app s) o'))\<rparr>\<rparr>)
      else Err (AppchainError ObservationsExceededLimit) s)"
  by (auto simp: record_vote_def vote_fits_def votes_after_def op_simps try_push_def)

text \<open>Which sequence numbers are accepted; the sum wraps around.\<close>

definition index_accepted :: "('a, 'b, 'x) config \<Rightarrow> 'a observation \<Rightarrow> ('a, 'b, 'x) runtime \<Rightarrow> bool" where
  "index_accepted c o' s \<longleftrightarrow>
     (if get_observation_type o' = UpdateValidatorSetType then observation_index o' = next_set_id (app s)
      else next_notification_id (app s) \<le> observation_index o' \<and>
        observation_index o' < next_notification_id (app s) + request_event_limit (app_cfg c))"

definition index_error :: "'a observation \<Rightarrow> dispatch_error" where
  "index_error o' = AppchainError (if get_observation_type o' = UpdateValidatorSetType then WrongSetId
     else InvalidNotificationId)"

lemma check_observation_eq:
  "check_observation c (get_observation_type o') (observation_index o') s =
     (if index_accepted c o' s then Ok () s else Err (index_error o') s)"
  by (cases "get_observation_type o'")
    (auto simp: check_observation_def index_accepted_def index_error_def op_simps Let_def)

text \<open>\<open>submit_observation\<close>, guard by guard.\<close>

lemma submit_observation_eq:
  "submit_observation c v o' s =
     (if \<not> index_accepted c o' s then Err (index_error o') s
      else case noted_observations o' s of
        None \<Rightarrow> Err (AppchainError ObservationsExceededLimit) s
      | Some obs \<Rightarrow>
          if \<not> vote_fits c v o' s then Err (AppchainError ObservationsExceededLimit) s
          else case active_total_stake s of
            None \<Rightarrow> Err (AppchainError InvalidActiveTotalStake) s
          | Some tot \<Rightarrow>
              if 3 * vote_stake v o' s > 2 * tot
              then (case execute_observation c (observation_index o') o' (cast_vote v o' obs s) of
                      Ok u t \<Rightarrow> Ok u t | Err e t \<Rightarrow> Err e s | Panic \<Rightarrow> Panic)
              else Ok () (cast_vote v o' obs s))"
proof -
  have fits: "vote_fits c v o' (s\<lparr>app := (app s)\<lparr>observations := obs\<rparr>\<rparr>) = vote_fits c v o' s" for obs
    by (simp add: vote_fits_def)
  have cast: "s\<lparr>app := (app s)\<lparr>observations := obs,
      observing := (observing (app s))(o' := votes_after v (observing (app s) o'))\<rparr>\<rparr> = cast_vote v o' obs s" for obs
    by (simp add: cast_vote_def)
  have tot: "active_total_stake (cast_vote v o' obs s) = active_total_stake s" for obs
    by (rule active_total_cong) simp
  show ?thesis
    by (simp add: submit_observation_def Let_def transactional_def bind_def check_observation_eq record_observation_eq
        record_vote_eq fits gets_def cast tot ok_or_def ret_def fail_def split: option.split)
qed

section \<open>Execution\<close>

text \<open>The call to the bridge that a notification asks for, and what is reported when it fails.\<close>

fun bridge_request :: "('a, 'b, 'x) config \<Rightarrow> 'a observation \<Rightarrow> ('a, 'b, 'x, unit) call" where
  "bridge_request c (Burn e) = unlock c (be_sender_id e) (be_receiver e) (be_amount e) (be_index e)"
| "bridge_request c (LockAsset e) =
     mint_nep141 c (la_token_id e) (la_sender_id e) (la_receiver e) (la_amount e) (la_index e)"
| "bridge_request c (BurnNft e) =
     unlock_nonfungible c (bn_collection e) (bn_item e) (bn_sender_id e) (bn_receiver e) (bn_index e)"
| "bridge_request c (UpdateValidatorSet vs) = ret ()"

fun failure_event :: "'a observation \<Rightarrow> 'a appchain_event" where
  "failure_event (Burn e) = UnlockFailedEvent (be_sender_id e) (be_receiver e) (be_amount e) (be_index e)"
| "failure_event (LockAsset e) =
     MintNep141Failed (la_token_id e) (la_sender_id e) (la_receiver e) (la_amount e) (la_index e)"
| "failure_event (BurnNft e) =
     UnlockNonfungibleFailed (bn_collection e) (bn_item e) (bn_sender_id e) (bn_receiver e) (bn_index e)"
| "failure_event (UpdateValidatorSet vs) = NewPlannedValidators (set_id vs) []"

fun failure_result :: "'a observation \<Rightarrow> notification_result" where
  "failure_result (Burn e) = UnlockFailed"
| "failure_result (LockAsset e) = AssetMintFailed"
| "failure_result (BurnNft e) = NftUnlockFailed"
| "failure_result (UpdateValidatorSet vs) = Success"

definition is_notification :: "'a observation \<Rightarrow> bool" where
  "is_notification o' \<longleftrightarrow> get_observation_type o' \<noteq> UpdateValidatorSetType"

definition advance :: "('a, 'b, 'x) runtime \<Rightarrow> ('a, 'b, 'x) runtime" where
  "advance s = s\<lparr>app := (app s)\<lparr>next_notification_id := next_notification_id (app s) + 1\<rparr>\<rparr>"

definition put_history :: "u32 \<Rightarrow> notification_result \<Rightarrow> ('a, 'b, 'x) runtime \<Rightarrow> ('a, 'b, 'x) runtime" where
  "put_history i r s = s\<lparr>app := (app s)\<lparr>notification_history := (notification_history (app s))(i := Some r)\<rparr>\<rparr>"

lemma execute_notification:
  "is_notification o' \<Longrightarrow> execute_observation c i o' s =
     (if next_notification_id (app s) = - 1 then Err (AppchainError NextNotificationIdOverflow) s
      else case bridge_request c o' (advance s) of
        Ok _ t \<Rightarrow> Ok () (put_history i Success t)
      | Err _ t \<Rightarrow> Ok () (put_history i (failure_result o')
          (t\<lparr>events := events t @ [AppchainEvent (failure_event o')]\<rparr>))
      | Panic \<Rightarrow> Panic)"
  by (cases o')
    (auto simp: is_notification_def increase_next_notification_id_def set_notification_history_def op_simps
      checked_add_1 advance_def put_history_def split: outcome.splits)

lemma execute_validator_set:
  "execute_observation c i (UpdateValidatorSet vs) s =
     (if next_set_id (app s) = - 1 then Err (AppchainError NextSetIdOverflow)
        (s\<lparr>app := (app s)\<lparr>planned_validators := map (\<lambda>v. (validator_id_in_appchain v, validator_total_stake v)) (validators vs)\<rparr>,
           events := events s @ [AppchainEvent (NewPlannedValidators (next_set_id (app s))
             (map (\<lambda>v. (validator_id_in_appchain v, validator_total_stake v)) (validators vs)))]\<rparr>)
      else Ok ()
        (s\<lparr>app := (app s)\<lparr>planned_validators := map (\<lambda>v. (validator_id_in_appchain v, validator_total_stake v)) (validators vs),
             next_set_id := next_set_id (app s) + 1\<rparr>,
           events := events s @ [AppchainEvent (NewPlannedValidators (next_set_id (app s))
             (map (\<lambda>v. (validator_id_in_appchain v, validator_total_stake v)) (validators vs)))]\<rparr>))"
  by (auto simp: increase_next_set_id_def op_simps checked_add_1 Let_def)

text \<open>The bridge does not write the storage of the other pallets: its interface says so.\<close>

lemma bridge_request_frame: "preserves (\<lambda>s. (app s, lpos s, um s, bridge s) = v) (bridge_request c o')"
proof (cases o')
  case (UpdateValidatorSet vs)
  then show ?thesis by (simp add: preserves_ret)
qed (simp_all add: bri.unlock_frame bri.mint_frame bri.unlock_nft_frame)

lemma bridge_request_keeps:
  assumes "bridge_request c o' s = Ok u t \<or> bridge_request c o' s = Err e t"
  shows "app t = app s" "lpos t = lpos s" "um t = um s" "bridge t = bridge s"
  using assms bridge_request_frame [of "(app s, lpos s, um s, bridge s)" c o'] unfolding preserves_def by blast+

text \<open>What an executed observation writes in the appchain's storage.\<close>

lemma execute_Ok:
  assumes "execute_observation c i o' s = Ok u t"
  shows "lpos t = lpos s \<and> um t = um s \<and> bridge t = bridge s \<and> observing (app t) = observing (app s) \<and>
    observations (app t) = observations (app s) \<and> is_activated (app t) = is_activated (app s) \<and>
    (if is_notification o'
     then next_notification_id (app s) \<noteq> - 1 \<and> next_notification_id (app t) = next_notification_id (app s) + 1 \<and>
       next_set_id (app t) = next_set_id (app s) \<and> planned_validators (app t) = planned_validators (app s) \<and>
       (\<exists>r \<in> {Success, failure_result o'}. notification_history (app t) = (notification_history (app s))(i := Some r))
     else next_set_id (app s) \<noteq> - 1 \<and> next_set_id (app t) = next_set_id (app s) + 1 \<and>
       next_notification_id (app t) = next_notification_id (app s) \<and>
       notification_history (app t) = notification_history (app s) \<and> ext t = ext s)"
proof (cases "is_notification o'")
  case True
  note exec = assms [unfolded execute_notification [OF True]]
  show ?thesis
  proof (cases "bridge_request c o' (advance s)")
    case (Ok v w)
    then show ?thesis
      using exec True bridge_request_keeps [of c o' "advance s" v w] by (auto simp: advance_def put_history_def split: if_splits)
  next
    case (Err e w)
    then show ?thesis
      using exec True bridge_request_keeps [of c o' "advance s" _ w e] by (auto simp: advance_def put_history_def split: if_splits)
  qed (use exec in \<open>simp split: if_splits\<close>)
next
  case False
  then obtain vs where "o' = UpdateValidatorSet vs" by (cases o') (auto simp: is_notification_def)
  then show ?thesis
    using assms by (auto simp: execute_validator_set is_notification_def simp del: execute_observation.simps split: if_splits)
qed

end
