(* ===== verification/Appchain_Safety.thy ===== *)
theory Appchain_Safety
  imports Appchain_Votes
begin

text \<open>
  What the votes guarantee: an observation has effects only with more than two thirds of the active
  stake behind it, two observations that contradict each other need a third of the stake to vote for
  both, and the notifications are executed in the order of their sequence numbers as long as they
  arrive in that order.
\<close>

section \<open>Submitting an observation\<close>

definition quorum :: "'a \<Rightarrow> 'a observation \<Rightarrow> ('a, 'b, 'x) runtime \<Rightarrow> bool" where
  "quorum v o' s \<longleftrightarrow> (\<exists>tot. active_total_stake s = Some tot \<and> 3 * vote_stake v o' s > 2 * tot)"

lemma submit_observation_Ok:
  assumes "submit_observation c v o' s = Ok u s'"
  obtains obs where "index_accepted c o' s" "noted_observations o' s = Some obs" "vote_fits c v o' s"
    "if quorum v o' s then execute_observation c (observation_index o') o' (cast_vote v o' obs s) = Ok () s'
     else s' = cast_vote v o' obs s"
  using assms
  by (auto simp: submit_observation_eq quorum_def split: if_splits option.splits outcome.splits)

lemma submit_observation_Err: "submit_observation c v o' s = Err e s' \<Longrightarrow> s' = s"
  by (simp add: submit_observation_def transactional_Err_iff)

lemma vote_recorded:
  assumes "submit_observation c v o' s = Ok u t"
  shows "observing (app t) = (observing (app s))(o' := votes_after v (observing (app s) o'))"
  using assms
proof (rule submit_observation_Ok)
  fix obs assume "if quorum v o' s
    then execute_observation c (observation_index o') o' (cast_vote v o' obs s) = Ok () t else t = cast_vote v o' obs s"
  then show ?thesis
    using execute_Ok [of c "observation_index o'" o' "cast_vote v o' obs s" "()" t] by (auto split: if_splits)
qed

text \<open>A vote that did more than being recorded reached two thirds.\<close>

lemma effect_needs_quorum:
  assumes "submit_observation c v o' s = Ok u t"
    and "t \<noteq> s\<lparr>app := (app s)\<lparr>observations := observations (app t), observing := observing (app t)\<rparr>\<rparr>"
  shows "quorum v o' s"
  using assms by (elim submit_observation_Ok) (auto simp: cast_vote_def split: if_splits)

section \<open>Runs of votes\<close>

text \<open>The votes of the transactions, one after the other; a refused one is logged and has no effect.\<close>

fun vote_run :: "('a, 'b, 'x) config \<Rightarrow> ('a \<times> 'a observation) list \<Rightarrow> ('a, 'b, 'x) runtime
    \<Rightarrow> ('a, 'b, 'x) runtime option" where
  "vote_run c [] s = Some s"
| "vote_run c ((v, o') # vs) s =
     (case submit_observation c v o' s of Ok _ t \<Rightarrow> vote_run c vs t | Err _ t \<Rightarrow> vote_run c vs t | Panic \<Rightarrow> None)"

lemma vote_run_induct:
  assumes run: "vote_run c vs s = Some s'" and P: "P s"
    and step: "\<And>v o' s u t. P s \<Longrightarrow> submit_observation c v o' s = Ok u t \<Longrightarrow> P t"
  shows "P s'"
  using run P
proof (induction vs arbitrary: s)
  case (Cons x vs)
  obtain v o' where x: "x = (v, o')" by fastforce
  show ?case
  proof (cases "submit_observation c v o' s")
    case (Ok u t)
    then show ?thesis using Cons step [OF Cons.prems(2) Ok] by (simp add: x)
  next
    case (Err e t)
    then show ?thesis using Cons submit_observation_Err [OF Err] by (simp add: x)
  qed (use Cons.prems in \<open>simp add: x\<close>)
qed simp

lemma for_each_votes:
  "for_each (\<lambda>o'. catch (submit_observation c v o') ret (\<lambda>_. ret ())) os s =
     (case vote_run c (map (Pair v) os) s of Some t \<Rightarrow> Ok () t | None \<Rightarrow> Panic)"
proof (induction os arbitrary: s)
  case (Cons o' os)
  then show ?case by (cases "submit_observation c v o' s") (simp_all add: op_simps)
qed (simp add: ret_def)

section \<open>The sequence number only grows\<close>

lemma next_id_step:
  assumes "submit_observation c v o' s = Ok u s'"
  shows "unat (next_notification_id (app s')) =
    (if quorum v o' s \<and> is_notification o' then Suc (unat (next_notification_id (app s)))
     else unat (next_notification_id (app s)))"
  using assms
proof (rule submit_observation_Ok)
  fix obs assume q: "if quorum v o' s
    then execute_observation c (observation_index o') o' (cast_vote v o' obs s) = Ok () s' else s' = cast_vote v o' obs s"
  then show ?thesis
    using execute_Ok [of c "observation_index o'" o' "cast_vote v o' obs s" "()" s'] unat_succ
    by (auto split: if_splits)
qed

lemma next_id_grows:
  assumes "vote_run c vs s = Some s'"
  shows "unat (next_notification_id (app s)) \<le> unat (next_notification_id (app s'))"
proof (rule vote_run_induct [OF assms, where P = "\<lambda>t. unat (next_notification_id (app s)) \<le> unat (next_notification_id (app t))"])
  fix v o' t u t' assume "unat (next_notification_id (app s)) \<le> unat (next_notification_id (app t))"
    "submit_observation c v o' t = Ok u t'"
  then show "unat (next_notification_id (app s)) \<le> unat (next_notification_id (app t'))"
    using next_id_step [of c v o' t u t'] by (auto split: if_splits)
qed simp

lemma old_index_refused:
  assumes "is_notification o'" "unat (observation_index o') < unat (next_notification_id (app s))"
  shows "submit_observation c v o' s = Err (AppchainError InvalidNotificationId) s"
  using assms
  by (simp add: submit_observation_eq index_accepted_def index_error_def is_notification_def word_le_nat_alt)

section \<open>Every validator votes once\<close>

definition votes_inv :: "('a, 'b, 'x) config \<Rightarrow> ('a, 'b, 'x) runtime \<Rightarrow> bool" where
  "votes_inv c s \<longleftrightarrow>
     (\<forall>o'. distinct (observing (app s) o') \<and> length (observing (app s) o') \<le> unat (max_validators (app_cfg c))) \<and>
     (\<forall>t i. distinct (observations (app s) t i) \<and> length (observations (app s) t i) \<le> 100 \<and>
       (\<forall>o' \<in> set (observations (app s) t i). get_observation_type o' = t \<and> observation_index o' = i)) \<and>
     (\<forall>o'. observing (app s) o' \<noteq> [] \<longrightarrow>
       o' \<in> set (observations (app s) (get_observation_type o') (observation_index o')))"

lemma votes_inv_cong:
  "observing (app s) = observing (app t) \<Longrightarrow> observations (app s) = observations (app t) \<Longrightarrow>
   votes_inv c s = votes_inv c t"
  by (simp add: votes_inv_def)

lemma votes_inv_cast:
  assumes inv: "votes_inv c s" and obs: "noted_observations o' s = Some obs" and fits: "vote_fits c v o' s"
  shows "votes_inv c (cast_vote v o' obs s)"
proof -
  let ?t = "get_observation_type o'" and ?i = "observation_index o'"
  have o: "obs t i = (if t = ?t \<and> i = ?i \<and> o' \<notin> set (observations (app s) t i)
      then observations (app s) t i @ [o'] else observations (app s) t i)"
    and len: "o' \<notin> set (observations (app s) ?t ?i) \<Longrightarrow> length (observations (app s) ?t ?i) < 100" for t i
    using obs by (auto simp: noted_observations_def Let_def split: if_splits)
  have app: "observations (app (cast_vote v o' obs s)) = obs" by (simp add: cast_vote_def)
  have voters: "distinct (votes_after v (observing (app s) o'))"
    "length (votes_after v (observing (app s) o')) \<le> unat (max_validators (app_cfg c))"
    using inv fits by (auto simp: votes_inv_def votes_after_def vote_fits_def Suc_le_eq)
  have lists: "distinct (obs t i) \<and> length (obs t i) \<le> 100 \<and>
      (\<forall>p \<in> set (obs t i). get_observation_type p = t \<and> observation_index p = i)" for t i
  proof (cases "t = ?t \<and> i = ?i \<and> o' \<notin> set (observations (app s) t i)")
    case True
    have "obs t i = observations (app s) t i @ [o']" using o [of t i] unfolding if_P [OF True] by assumption
    then show ?thesis using inv True len unfolding votes_inv_def by (auto simp: Suc_le_eq True)
  next
    case False
    have "obs t i = observations (app s) t i" using o [of t i] unfolding if_not_P [OF False] by assumption
    then show ?thesis using inv unfolding votes_inv_def by simp
  qed
  have sub: "set (observations (app s) t i) \<subseteq> set (obs t i)" for t i
    unfolding o [of t i] by auto
  have new: "o' \<in> set (obs ?t ?i)" using o [of ?t ?i] by (simp split: if_splits)
  have noted: "p \<in> set (obs (get_observation_type p) (observation_index p))" if "observing (app s) p \<noteq> []" for p
    using inv that sub unfolding votes_inv_def by blast
  show ?thesis
    unfolding votes_inv_def app
  proof (intro conjI allI impI)
    fix p
    show "distinct (observing (app (cast_vote v o' obs s)) p)"
      "length (observing (app (cast_vote v o' obs s)) p) \<le> unat (max_validators (app_cfg c))"
      using inv voters by (simp_all add: votes_inv_def)
    assume "observing (app (cast_vote v o' obs s)) p \<noteq> []"
    then show "p \<in> set (obs (get_observation_type p) (observation_index p))"
      using noted new by (cases "p = o'") simp_all
  qed (use lists in blast)+
qed

lemma votes_inv_step: "votes_inv c s \<Longrightarrow> submit_observation c v o' s = Ok u s' \<Longrightarrow> votes_inv c s'"
proof (erule submit_observation_Ok)
  fix obs assume inv: "votes_inv c s" and o: "noted_observations o' s = Some obs" "vote_fits c v o' s"
    and q: "if quorum v o' s
    then execute_observation c (observation_index o') o' (cast_vote v o' obs s) = Ok () s' else s' = cast_vote v o' obs s"
  have "votes_inv c (cast_vote v o' obs s)" by (rule votes_inv_cast [OF inv o])
  moreover have "observing (app s') = observing (app (cast_vote v o' obs s)) \<and>
      observations (app s') = observations (app (cast_vote v o' obs s))"
    using q execute_Ok [of c "observation_index o'" o' "cast_vote v o' obs s" "()" s'] by (auto split: if_splits)
  ultimately show "votes_inv c s'" using votes_inv_cong by metis
qed

inductive app_reachable :: "('a, 'b, 'x) config \<Rightarrow> ('a, 'b, 'x) runtime \<Rightarrow> bool" for c where
  app_start: "(\<And>o'. observing (app s) o' = []) \<Longrightarrow> (\<And>t i. observations (app s) t i = []) \<Longrightarrow> app_reachable c s"
| app_submit: "app_reachable c s \<Longrightarrow> submit_observations c org p sig s = Ok u s' \<Longrightarrow> app_reachable c s'"
| app_others: "app_reachable c s \<Longrightarrow> observing (app s') = observing (app s) \<Longrightarrow>
    observations (app s') = observations (app s) \<Longrightarrow> app_reachable c s'"

lemma votes_inv_run: "vote_run c vs s = Some s' \<Longrightarrow> votes_inv c s \<Longrightarrow> votes_inv c s'"
  by (rule vote_run_induct) (auto intro: votes_inv_step)

lemma submit_observations_Ok:
  assumes "submit_observations c org p sig s = Ok u s'"
  obtains v where "org = NoOrigin" "is_active_validator c key_type (payload_key_data p) s = Some v"
    "vote_run c (map (Pair v) (payload_observations p)) s = Some s'"
  using assms by (auto simp: submit_observations_def op_inv for_each_votes split: option.splits)

lemma app_reachable_inv: "app_reachable c s \<Longrightarrow> votes_inv c s"
proof (induction rule: app_reachable.induct)
  case (app_start s)
  then show ?case by (simp add: votes_inv_def)
next
  case (app_submit s org p sig u s')
  then show ?case by (auto elim!: submit_observations_Ok dest: votes_inv_run)
next
  case (app_others s s')
  then show ?case using votes_inv_cong by metis
qed

section \<open>Two thirds of the stake\<close>

lemma unat_sum_list:
  "sum_list (map (\<lambda>x. unat (f x)) xs) < 2 ^ 128 \<Longrightarrow>
   unat (sum_list (map f xs) :: u128) = sum_list (map (\<lambda>x. unat (f x)) xs)"
  by (induction xs) (simp_all add: unat_word_ariths)

lemma quorum_iff:
  assumes stakes: "stakes_inv (lpos s)" and votes: "votes_inv c s"
    and tot: "active_total_stake s = Some tot" and small: "3 * unat tot < 2 ^ 128"
  shows "quorum v o' s \<longleftrightarrow> 2 * unat tot < 3 * stake_sum (active_stake_of s) (votes_after v (observing (app s) o'))"
proof -
  let ?vs = "votes_after v (observing (app s) o')"
  have "distinct ?vs" using votes by (simp add: votes_inv_def votes_after_def)
  then have le: "stake_sum (active_stake_of s) ?vs \<le> unat tot"
    by (rule lpi.stakes_bounded [OF stakes tot])
  then have "unat (vote_stake v o' s) = stake_sum (active_stake_of s) ?vs"
    using small unat_sum_list [of "active_stake_of s" ?vs] by (simp add: vote_stake_def stake_sum_def)
  then have "unat (3 * vote_stake v o' s) = 3 * stake_sum (active_stake_of s) ?vs" "unat (2 * tot) = 2 * unat tot"
    using le small by (simp_all add: unat_word_ariths)
  then show ?thesis using tot by (simp add: quorum_def word_less_nat_alt)
qed

section \<open>Votes return\<close>

lemma bridge_request_returns:
  "outside_returns (bridge_cfg c) \<Longrightarrow> bridge_request c o' s \<noteq> Panic"
  by (cases o')
    (auto simp: unlock_def do_unlock_def mint_nep141_def do_mint_nep141_def unlock_nonfungible_def
      do_unlock_nonfungible_def op_inv Let_def outside_returns_def ret_def split: sum.split)

lemma execute_observation_returns:
  assumes "outside_returns (bridge_cfg c)"
  shows "execute_observation c i o' s \<noteq> Panic"
proof (cases "is_notification o'")
  case True
  then show ?thesis
    using bridge_request_returns [OF assms, of o' "advance s"] by (auto simp: execute_notification split: outcome.splits)
next
  case False
  then obtain vs where "o' = UpdateValidatorSet vs" by (cases o') (auto simp: is_notification_def)
  then show ?thesis by (simp add: execute_validator_set del: execute_observation.simps)
qed

lemma submit_observation_returns:
  assumes "outside_returns (bridge_cfg c)"
  shows "submit_observation c v o' s \<noteq> Panic"
proof -
  have "(case execute_observation c i o' t of Ok x u \<Rightarrow> Ok x u | Err e u \<Rightarrow> Err e s | Panic \<Rightarrow> Panic) \<noteq> Panic" for i t
    using execute_observation_returns [OF assms, of i o' t] by (cases "execute_observation c i o' t") simp_all
  then show ?thesis by (simp add: submit_observation_eq split: option.split)
qed

lemma vote_run_returns:
  assumes "outside_returns (bridge_cfg c)"
  shows "\<exists>t. vote_run c vs s = Some t"
proof (induction vs arbitrary: s)
  case (Cons x vs)
  obtain v o' where x: "x = (v, o')" by fastforce
  show ?case
    using submit_observation_returns [OF assms, of v o' s] Cons.IH
    by (cases "submit_observation c v o' s") (simp_all add: x)
qed simp

text \<open>Where the session interface is \<open>()\<close>, nobody is a validator and no observation gets in.\<close>

lemma unit_session_refuses:
  assumes "lpos_cfg c = unit_session_interface l"
  shows "\<exists>e. submit_observations c org p sig s = Err e s"
  using assms
  by (cases org) (simp_all add: submit_observations_def is_active_validator_def session_is_active_validator_def
      unit_session_interface_def op_simps)

end
