(* ===== verification/Offchain.thy ===== *)
theory Offchain
  imports Mainchain Appchain_Safety
begin

text \<open>
  The offchain worker of the pallet \<open>appchain\<close> (\<open>appchain/src/lib.rs\<close>). It runs on a validator's
  node beside the chain: it reads the storage of the block (\<open>s\<close>) and acts on the state of its host
  (\<open>'w\<close>): the node's local storage, its keystore, the network and the transaction pool.
\<close>

section \<open>The host\<close>

text \<open>The errors of \<open>StorageValueRef::mutate\<close>, without what they carry.\<close>

datatype mutate_result = Mutated u32 | ValueFunctionFailed | ConcurrentModification

text \<open>
  \<open>storage_mutate\<close> is \<open>StorageValueRef::persistent(key).mutate\<close>: its function gets the stored value, or
  \<open>Inl ()\<close> when it cannot be decoded, and \<open>None\<close> is an error of the function.
  \<open>send_unsigned_transaction\<close> is \<open>Signer::all_accounts().with_filter(keys)\<close> followed by the call of that
  name: it builds and signs a payload for every account and tells which of them the pool took.
  \<open>near_mainnet\<close> and \<open>near_testnet\<close> are the endpoints the build script sets.
\<close>

record ('a, 'w) offchain_host =
  mainchain :: "('a, 'w) mainchain_host"
  is_validator :: "'w \<Rightarrow> bool"
  local_storage_get :: "bytes \<Rightarrow> 'w \<Rightarrow> bytes option"
  storage_mutate :: "bytes \<Rightarrow> (unit + u32 option \<Rightarrow> u32 option) \<Rightarrow> 'w \<Rightarrow> mutate_result \<times> 'w"
  local_keys :: "'w \<Rightarrow> bytes list"
  generic_public :: "bytes \<Rightarrow> bytes"
  send_unsigned_transaction :: "bytes list \<Rightarrow> (bytes \<Rightarrow> (bytes, 'a) observations_payload)
    \<Rightarrow> ((bytes, 'a) observations_payload \<Rightarrow> bytes \<Rightarrow> 'a appchain_call) \<Rightarrow> 'w \<Rightarrow> bool list \<times> 'w"
  near_mainnet :: rust_string
  near_testnet :: rust_string

section \<open>Endpoints\<close>

definition near_rpc_endpoint :: "('a, 'w) offchain_host \<Rightarrow> bool \<Rightarrow> rust_string" where
  "near_rpc_endpoint h is_testnet = (if is_testnet then near_testnet h else near_mainnet h)"

definition rpc_endpoint_key :: bytes where
  "rpc_endpoint_key = str_bytes ''octopus_appchain::mainchain_rpc_endpoint''"

definition get_mainchain_rpc_endpoint :: "('a, 'w) offchain_host \<Rightarrow> bool \<Rightarrow> 'w \<Rightarrow> rust_string" where
  "get_mainchain_rpc_endpoint h is_testnet w =
     (let data = (case local_storage_get h rpc_endpoint_key w of Some d \<Rightarrow> d
                  | None \<Rightarrow> near_rpc_endpoint h is_testnet)
      in case from_utf8 data of Some url \<Rightarrow> url | None \<Rightarrow> near_rpc_endpoint h is_testnet)"

section \<open>When to send\<close>

definition last_send_key :: bytes where
  "last_send_key = str_bytes ''octopus_appchain::last_send''"

text \<open>The closure of \<open>val.mutate\<close>; \<open>block + GracePeriod\<close> wraps around.\<close>

definition next_send :: "('a, 'b, 'x) config \<Rightarrow> u32 \<Rightarrow> unit + u32 option \<Rightarrow> u32 option" where
  "next_send c now last_send =
     (case last_send of
        Inr (Some block) \<Rightarrow> if now < block + grace_period (app_cfg c) then None else Some now
      | _ \<Rightarrow> Some now)"

definition should_send :: "('a, 'b, 'x) config \<Rightarrow> ('a, 'w) offchain_host \<Rightarrow> u32 \<Rightarrow> ('w, string, bool) op" where
  "should_send c h now w =
     (case storage_mutate h last_send_key (next_send c now) w of
        (Mutated _, w') \<Rightarrow> Ok True w'
      | (ValueFunctionFailed, w') \<Rightarrow> Ok False w'
      | (ConcurrentModification, w') \<Rightarrow> Ok False w')"

section \<open>The validator\<close>

fun find_validator_key :: "('a, 'b, 'x) config \<Rightarrow> ('a, 'w) offchain_host \<Rightarrow> ('a, 'b, 'x) runtime \<Rightarrow> bytes list
    \<Rightarrow> (bytes \<times> bytes \<times> 'a) option" where
  "find_validator_key c h s [] = None"
| "find_validator_key c h s (key_data # ks) =
     (case is_active_validator c key_type key_data s of
        None \<Rightarrow> find_validator_key c h s ks
      | Some val_id \<Rightarrow> Some (generic_public h key_data, key_data, val_id))"

definition get_validator_id :: "('a, 'b, 'x) config \<Rightarrow> ('a, 'w) offchain_host \<Rightarrow> ('a, 'b, 'x) runtime \<Rightarrow> 'w
    \<Rightarrow> (bytes \<times> bytes \<times> 'a) option" where
  "get_validator_id c h s w = find_validator_key c h s (local_keys h w)"

section \<open>Observing the mainchain\<close>

text \<open>
  \<open>first.map_err(|_| second).map_err(|_| e)?\<close>: the second request is made inside the conversion of the
  error of the first, so whatever it answers becomes the error that the second \<open>map_err\<close> replaces.
\<close>

definition retried :: "('w, http_error, 'r) op \<Rightarrow> ('w, http_error, 'r) op \<Rightarrow> string \<Rightarrow> ('w, string, 'r) op" where
  "retried first second e = catch first ret (\<lambda>_. catch second (\<lambda>_. fail e) (\<lambda>_. fail e))"

definition send_observations :: "('a, 'w) offchain_host \<Rightarrow> u32 \<Rightarrow> bytes \<Rightarrow> bytes \<Rightarrow> 'a observation list
    \<Rightarrow> 'w \<Rightarrow> bool list \<times> 'w" where
  "send_observations h now public key_data obs =
     send_unsigned_transaction h [public]
       (\<lambda>account. \<lparr>payload_public = account, payload_key_data = key_data, payload_block_number = now,
          payload_observations = obs\<rparr>)
       SubmitObservations"

definition observing_mainchain :: "('a, 'b, 'x) config \<Rightarrow> ('a, 'w) offchain_host \<Rightarrow> ('a, 'b, 'x) runtime \<Rightarrow> u32
    \<Rightarrow> rust_string \<Rightarrow> rust_string \<Rightarrow> bytes \<Rightarrow> bytes \<Rightarrow> bytes \<Rightarrow> 'a \<Rightarrow> ('w, string, unit) op" where
  "observing_mainchain c h s now endpoint secondary_endpoint anchor public key_data validator_id =
     (let next_id = next_notification_id (app s); next_set = next_set_id (app s);
          limit = request_event_limit (app_cfg c); m = mainchain h in
      bind (retried (get_validator_list_of m endpoint anchor next_set)
              (get_validator_list_of m secondary_endpoint anchor next_set)
              ''Failed to get_validator_list_of'') (\<lambda>updates.
      bind (if length updates = 0 then
              retried (get_appchain_notification_histories m endpoint anchor next_id limit)
                (get_appchain_notification_histories m secondary_endpoint anchor next_id limit)
                ''Failed to get_appchain_notification_histories''
            else ret updates) (\<lambda>obs.
      if length obs = 0 then ret ()
      else
        bind (\<lambda>w. case send_observations h now public key_data obs w of (r, w') \<Rightarrow> Ok r w') (\<lambda>result.
        if length result \<noteq> 1 then fail ''No account found''
        else if \<not> hd result then fail ''Failed to submit observations''
        else ret ()))))"

text \<open>The block hash the worker looks up is only logged.\<close>

definition offchain_worker :: "('a, 'b, 'x) config \<Rightarrow> ('a, 'w) offchain_host \<Rightarrow> ('a, 'b, 'x) runtime \<Rightarrow> u32
    \<Rightarrow> ('w, string, unit) op" where
  "offchain_worker c h s now =
     (let anchor = anchor_contract (app s) in
      bind (gets (is_validator h)) (\<lambda>validator.
      if \<not> validator \<or> \<not> is_activated (app s) \<or> anchor = [] then ret ()
      else
        bind (should_send c h now) (\<lambda>send.
        if \<not> send then ret ()
        else
          bind (gets (get_validator_id c h s)) (\<lambda>found.
          case found of None \<Rightarrow> ret ()
          | Some (public, key_data, validator_id) \<Rightarrow>
              (let is_testnet = (last anchor = 116) in
               bind (gets (get_mainchain_rpc_endpoint h is_testnet)) (\<lambda>endpoint.
               catch (observing_mainchain c h s now endpoint (near_rpc_endpoint h is_testnet) anchor
                        public key_data validator_id) (\<lambda>_. ret ()) (\<lambda>_. ret ())))))))"

end
