(* ===== verification/Mainchain_Text.thy ===== *)
theory Mainchain_Text
  imports Mainchain Runtime
begin

text \<open>
  What passes through text between the two chains: the arguments of the queries determine the numbers
  they were made from, numbers and accounts written by one side are read back by the other, and a text
  too short to be an account panics the reader.
\<close>

section \<open>Arguments of the queries\<close>

lemma quote_not_digit: "b \<in> set (to_decimal w) \<Longrightarrow> b \<noteq> 34"
  using set_decimal_digits [of "unat w"]
  by (auto simp: to_decimal_def word_unat_eq_iff unat_digit_byte dest!: subsetD)

lemma to_decimal_quote_cong:
  assumes "10 < (2 :: nat) ^ LENGTH('w)"
  shows "to_decimal (v :: 'w::len word) @ 34 # xs = to_decimal (w :: 'w word) @ 34 # ys \<longleftrightarrow> v = w \<and> xs = ys"
proof
  assume eq: "to_decimal v @ 34 # xs = to_decimal w @ 34 # ys"
  have "takeWhile (\<lambda>b. b \<noteq> 34) (to_decimal u @ 34 # zs) = to_decimal u" for u :: "'w word" and zs
    using quote_not_digit by (subst takeWhile_append2) auto
  then have "to_decimal v = to_decimal w" using eq by metis
  then show "v = w \<and> xs = ys" using eq to_decimal_inj [OF assms] by simp
qed simp

lemma quote_bytes:
  "str_bytes ''\"}'' = [34, 125]" "str_bytes ''\",\"quantity\":\"'' = 34 # str_bytes '',\"quantity\":\"''"
  by (simp_all add: str_bytes_def)

lemma validator_args_iff:
  assumes "inj (base64_encode h)"
  shows "encode_get_validator_args h i = encode_get_validator_args h j \<longleftrightarrow> i = j"
  unfolding encode_get_validator_args_def Let_def inj_eq [OF assms] same_append_eq quote_bytes
  using to_decimal_quote_cong [of i "[125]" j "[125]"] by simp

lemma notification_args_iff:
  assumes "inj (base64_encode h)"
  shows "encode_get_notification_args h i l = encode_get_notification_args h j m \<longleftrightarrow> i = j \<and> l = m"
  unfolding encode_get_notification_args_def Let_def inj_eq [OF assms] same_append_eq quote_bytes append_Cons
  using to_decimal_quote_cong [of i "str_bytes '',\"quantity\":\"'' @ to_decimal l @ [34, 125]" j
      "str_bytes '',\"quantity\":\"'' @ to_decimal m @ [34, 125]"] to_decimal_quote_cong [of l "[125]" m "[125]"]
  by simp

section \<open>Numbers and accounts\<close>

lemma deserialize_to_decimal:
  "10 < (2 :: nat) ^ LENGTH('w) \<Longrightarrow> deserialize_from_str (to_decimal (w :: 'w::len word)) = Parsed w"
  by (simp add: deserialize_from_str_def parse_to_decimal)

text \<open>
  The documented behaviour of \<open>hex\<close> and the SCALE codec at an account: decoding inverts encoding, and
  hex text is ASCII.
\<close>

definition codecs_ok :: "('a, 'b, 'x) config \<Rightarrow> ('a, 'w) mainchain_host \<Rightarrow> 'a \<Rightarrow> bool" where
  "codecs_ok c h who \<longleftrightarrow>
     (let b = account_encode c who in
      hex_decode h (hex_encode c b) = Some b \<and> (\<forall>x \<in> set (hex_encode c b). x \<le> 0x7F) \<and>
      account_decode h b = Some who)"

lemma deserialize_hex_format:
  assumes "codecs_ok c h who"
  shows "account_deserialize_from_hex_str h (hex_format c (account_encode c who)) = Parsed who"
proof -
  let ?x = "hex_encode c (account_encode c who)"
  have "hd ?x \<le> 0x7F" if "?x \<noteq> []"
    using assms hd_in_set [OF that] unfolding codecs_ok_def Let_def by blast
  then have "\<not> (?x \<noteq> [] \<and> continuation_byte (hd ?x))"
    by (auto simp: continuation_byte_def word_le_nat_alt)
  then have "slice_from_2 (hex_format c (account_encode c who)) = Some ?x"
    by (simp add: slice_from_2_def hex_format_def str_bytes_def)
  then show ?thesis
    using assms by (simp add: account_deserialize_from_hex_str_def codecs_ok_def Let_def)
qed

text \<open>A validator as the anchor contract writes it: the account in the text form of the runtime.\<close>

definition validator_text :: "('a, 'b, 'x) config \<Rightarrow> 'a validator \<Rightarrow> raw_validator" where
  "validator_text c v =
     \<lparr>raw_validator_id = hex_format c (account_encode c (validator_id_in_appchain v)),
      raw_total_stake = to_decimal (validator_total_stake v)\<rparr>"

lemma deserialize_validator_text:
  "codecs_ok c h (validator_id_in_appchain v) \<Longrightarrow> deserialize_validator h (validator_text c v) = Parsed v"
  by (simp add: deserialize_validator_def validator_text_def deserialize_hex_format deserialize_to_decimal)

section \<open>Lists of items\<close>

lemma deserialize_items_Parsed:
  "deserialize_items f (rs, complete) = Parsed vs \<longleftrightarrow> complete \<and> list_all2 (\<lambda>r v. f r = Parsed v) rs vs"
  by (induction rs arbitrary: vs) (auto simp: parsed_bind_Parsed_iff list_all2_Cons1)

lemma validators_text_Parsed:
  "(\<And>v. v \<in> set vs \<Longrightarrow> codecs_ok c h (validator_id_in_appchain v)) \<Longrightarrow>
   list_all2 (\<lambda>r v. deserialize_validator h r = Parsed v) (map (validator_text c) vs) vs"
  by (auto simp: list_all2_map1 deserialize_validator_text intro: list.rel_refl_strong)

lemma account_panics_iff:
  "account_deserialize_from_hex_str h s = ParsePanic \<longleftrightarrow>
     length s < 2 \<or> 2 < length s \<and> continuation_byte (s ! 2)"
proof (cases s)
  case (Cons a s1)
  then show ?thesis
  proof (cases s1)
    case (Cons b rest)
    with \<open>s = a # s1\<close> show ?thesis
      by (cases rest) (auto simp: account_deserialize_from_hex_str_def slice_from_2_def split: option.split)
  qed (simp add: account_deserialize_from_hex_str_def slice_from_2_def)
qed (simp add: account_deserialize_from_hex_str_def slice_from_2_def)

lemma deserialize_items_panics:
  assumes "list_all2 (\<lambda>r v. f r = Parsed v) rs vs" and "f r = ParsePanic"
  shows "deserialize_items f (rs @ r # rest, complete) = ParsePanic"
  using assms by (induction rs vs rule: list_all2_induct) simp_all

end
