(* ===== verification/Offchain_Properties.thy ===== *)
theory Offchain_Properties
  imports Offchain Mainchain_Text
begin

text \<open>
  What the offchain worker does: what a query returns, what the worker puts into the transaction pool,
  how often it sends, and what becomes of a failed query.
\<close>

section \<open>Queries\<close>

lemma get_validator_list_of_Ok:
  "get_validator_list_of h url anchor i w = Ok obs w' \<longleftrightarrow>
     (\<exists>json vs. query_mainchain h url anchor ''get_validator_list_of'' (encode_get_validator_args h i) w = Ok json w' \<and>
        deserialize_items (deserialize_validator h) (json_validators h (rr_result (response_result json))) = Parsed vs \<and>
        obs = (if vs = [] then [] else [UpdateValidatorSet \<lparr>set_id = i, validators = vs\<rparr>]))"
  by (auto simp: get_validator_list_of_def op_inv)

lemma get_histories_Ok:
  "get_appchain_notification_histories h url anchor i l w = Ok obs w' \<longleftrightarrow>
     (\<exists>json ns. query_mainchain h url anchor ''get_appchain_notification_histories''
          (encode_get_notification_args h i l) w = Ok json w' \<and>
        deserialize_items (deserialize_history h) (json_notifications h (rr_result (response_result json))) = Parsed ns \<and>
        obs = map observation_of_history ns)"
  by (auto simp: get_appchain_notification_histories_def op_inv)

lemma observation_of_history_type [simp]:
  "get_observation_type (observation_of_history n) \<noteq> UpdateValidatorSetType"
  "observation_index (observation_of_history n) = history_index n"
  by (cases "appchain_notification n"; simp)+

declare observation_of_history.simps [simp del]

lemma retried_Ok: "retried first second e w = Ok r w' \<longleftrightarrow> first w = Ok r w'"
  by (auto simp: retried_def op_inv)

lemma retried_Err:
  "first w = Err d w1 \<Longrightarrow>
   retried first second e w = (case second w1 of Ok _ t \<Rightarrow> Err e t | Err _ t \<Rightarrow> Err e t | Panic \<Rightarrow> Panic)"
  by (simp add: retried_def catch_def fail_def split: outcome.split)

section \<open>The pool\<close>

text \<open>
  The documented behaviour of the host as far as the transaction pool is concerned: requests and local
  storage do not touch it, and sending with one key adds one call, built and signed with that key, when
  it reports success, and nothing otherwise. The chain verifies a signature with the public key in the payload.
\<close>

definition pool_ok :: "('a, 'b, 'x) config \<Rightarrow> ('a, 'w) offchain_host \<Rightarrow> ('w \<Rightarrow> 'a appchain_call list) \<Rightarrow> bool" where
  "pool_ok c h pool \<longleftrightarrow>
     (\<forall>r d v. preserves (\<lambda>w. pool w = v) (http_send (mainchain h) r d)) \<and>
     (\<forall>n d v. preserves (\<lambda>w. pool w = v) (http_try_wait (mainchain h) n d)) \<and>
     (\<forall>k f w. pool (snd (storage_mutate h k f w)) = pool w) \<and>
     (\<forall>k f g w. case send_unsigned_transaction h [k] f g w of (rs, w') \<Rightarrow>
        if rs = [True] then \<exists>sig. (payload_public (f k) = k \<longrightarrow> verify_payload (app_cfg c) (f k) sig) \<and>
          pool w' = pool w @ [g (f k) sig]
        else pool w' = pool w)"

lemma pool_ok_send:
  assumes "pool_ok c h pool" and "send_unsigned_transaction h [k] f g w = (rs, w')"
  shows "if rs = [True] then \<exists>sig. (payload_public (f k) = k \<longrightarrow> verify_payload (app_cfg c) (f k) sig) \<and>
          pool w' = pool w @ [g (f k) sig]
        else pool w' = pool w"
  using assms(1) [unfolded pool_ok_def, THEN conjunct2, THEN conjunct2, THEN conjunct2, THEN spec [of _ k],
      THEN spec [of _ f], THEN spec [of _ g], THEN spec [of _ w]]
  by (simp add: assms(2))

lemma preserves_query:
  assumes "pool_ok c h pool"
  shows "preserves (\<lambda>w. pool w = v) (query_mainchain (mainchain h) url anchor method args)"
proof -
  have "preserves (\<lambda>w. pool w = v) (case waited of Inr r \<Rightarrow> ret r | Inl e \<Rightarrow> fail e)" for waited :: "http_error + http_response"
    by (cases waited) (simp_all add: preserves_rules)
  with assms show ?thesis
    unfolding query_mainchain_def Let_def pool_ok_def by (intro preserves_rules) auto
qed

lemma preserves_parsed_or [preserves_rules]: "preserves P (parsed_or p e)"
  by (rule preservesI) (simp_all add: op_inv)

lemma preserves_queries:
  assumes "pool_ok c h pool"
  shows "preserves (\<lambda>w. pool w = v) (get_validator_list_of (mainchain h) url anchor i)"
    and "preserves (\<lambda>w. pool w = v) (get_appchain_notification_histories (mainchain h) url anchor j l)"
  unfolding get_validator_list_of_def get_appchain_notification_histories_def
  by (intro preserves_rules preserves_query [OF assms])+

lemma preserves_retried:
  "preserves P first \<Longrightarrow> preserves P second \<Longrightarrow> preserves P (retried first second e)"
  unfolding retried_def by (intro preserves_rules)

section \<open>What the worker sends\<close>

text \<open>What the worker may put into a payload at the state \<open>s\<close> of the chain.\<close>

definition payload_observed :: "('a, 'b, 'x) config \<Rightarrow> ('a, 'b, 'x) runtime \<Rightarrow> 'a observation list \<Rightarrow> bool" where
  "payload_observed c s obs \<longleftrightarrow> obs \<noteq> [] \<and>
     (\<forall>p \<in> set obs. get_observation_type p = UpdateValidatorSetType \<longrightarrow> obs = [p] \<and> index_accepted c p s)"

definition sent :: "('a, 'b, 'x) config \<Rightarrow> ('a, 'w) offchain_host \<Rightarrow> ('w \<Rightarrow> 'a appchain_call list) \<Rightarrow> (('a observation list) \<Rightarrow> bool)
    \<Rightarrow> u32 \<Rightarrow> bytes \<Rightarrow> bytes \<Rightarrow> 'w \<Rightarrow> 'w \<Rightarrow> bool" where
  "sent c h pool ok now public key_data w w' \<longleftrightarrow>
     pool w' = pool w \<or>
     (\<exists>p sig. payload_public p = public \<and> payload_key_data p = key_data \<and> payload_block_number p = now \<and>
        ok (payload_observations p) \<and> verify_payload (app_cfg c) p sig \<and>
        pool w' = pool w @ [SubmitObservations p sig])"

lemma send_observations_sent:
  assumes "pool_ok c h pool" and "send_observations h now public key_data obs w = (rs, w')" and "ok obs"
  shows "sent c h pool ok now public key_data w w'"
  using pool_ok_send [OF assms(1) assms(2) [unfolded send_observations_def]] assms(3)
  unfolding sent_def by (auto split: if_splits)

lemma observed_updates:
  assumes "retried (get_validator_list_of m url anchor (next_set_id (app s))) snd_try e w = Ok obs w'" and "obs \<noteq> []"
  shows "payload_observed c s obs"
  using assms
  by (auto simp: retried_Ok get_validator_list_of_Ok payload_observed_def index_accepted_def split: if_splits)

lemma observed_notifications:
  assumes "retried (get_appchain_notification_histories m url anchor i l) snd_try e w = Ok obs w'" and "obs \<noteq> []"
  shows "payload_observed c s obs"
  using assms by (auto simp: retried_Ok get_histories_Ok payload_observed_def)

lemma observing_mainchain_Ok:
  assumes "retried (get_validator_list_of (mainchain h) url anchor (next_set_id (app s)))
      (get_validator_list_of (mainchain h) url' anchor (next_set_id (app s))) ''Failed to get_validator_list_of'' w = Ok updates w1"
    and "(if updates = [] then
        retried (get_appchain_notification_histories (mainchain h) url anchor (next_notification_id (app s)) (request_event_limit (app_cfg c)))
          (get_appchain_notification_histories (mainchain h) url' anchor (next_notification_id (app s)) (request_event_limit (app_cfg c)))
          ''Failed to get_appchain_notification_histories''
      else ret updates) w1 = Ok obs w2"
  shows "observing_mainchain c h s now url url' anchor public key_data v w =
    (if obs = [] then Ok () w2
     else case send_observations h now public key_data obs w2 of (r, w3) \<Rightarrow>
       if length r \<noteq> 1 then Err ''No account found'' w3
       else if \<not> hd r then Err ''Failed to submit observations'' w3 else Ok () w3)"
  using assms unfolding observing_mainchain_def Let_def length_0_conv bind_def [of "retried _ _ _"]
  by (simp add: bind_def ret_def fail_def split: prod.split)

lemma observing_sent:
  assumes pool: "pool_ok c h pool"
    and run: "observing_mainchain c h s now url url' anchor public key_data v w = Ok () w' \<or>
      observing_mainchain c h s now url url' anchor public key_data v w = Err e w'"
  shows "sent c h pool (payload_observed c s) now public key_data w w'"
proof -
  let ?m = "mainchain h"
  let ?first = "retried (get_validator_list_of ?m url anchor (next_set_id (app s)))
    (get_validator_list_of ?m url' anchor (next_set_id (app s))) ''Failed to get_validator_list_of''"
  let ?second = "retried (get_appchain_notification_histories ?m url anchor (next_notification_id (app s)) (request_event_limit (app_cfg c)))
    (get_appchain_notification_histories ?m url' anchor (next_notification_id (app s)) (request_event_limit (app_cfg c)))
    ''Failed to get_appchain_notification_histories''"
  have keep: "preserves (\<lambda>u. pool u = pool w) ?first" "preserves (\<lambda>u. pool u = pool w) ?second"
    by (intro preserves_retried preserves_queries [OF pool])+
  have quiet: "pool w' = pool w \<Longrightarrow> ?thesis" by (simp add: sent_def)
  show ?thesis
  proof (cases "?first w")
    case (Ok updates w1)
    then have w1: "pool w1 = pool w" using keep(1) preserves_Ok by fastforce
    let ?rest = "if updates = [] then ?second else ret updates"
    show ?thesis
    proof (cases "?rest w1")
      case Ok2: (Ok obs w2)
      then have w2: "pool w2 = pool w" using keep(2) w1
        by (cases "updates = []") (auto simp: ret_iff dest: preserves_Ok)
      show ?thesis
      proof (cases "obs = []")
        case True
        then have "w' = w2" using run observing_mainchain_Ok [OF Ok Ok2] by auto
        then show ?thesis using w2 quiet by simp
      next
        case False
        have observed: "payload_observed c s obs"
        proof (cases "updates = []")
          case True
          then show ?thesis using Ok2 False observed_notifications by fastforce
        next
          case updates: False
          then have eq: "updates = obs" using Ok2 by (simp add: ret_iff)
          show ?thesis by (rule observed_updates [OF Ok [unfolded eq] False])
        qed
        obtain rs w3 where send: "send_observations h now public key_data obs w2 = (rs, w3)" by fastforce
        then have "w' = w3" using run observing_mainchain_Ok [OF Ok Ok2] False by (auto split: if_splits)
        then show ?thesis
          using send_observations_sent [where ok = "payload_observed c s", OF pool send observed] w2
          by (simp add: sent_def)
      qed
    next
      case Err2: (Err d w2)
      then have "pool w2 = pool w" using keep(2) w1
        by (cases "updates = []") (auto dest: preserves_Err)
      moreover have "w' = w2" using run Ok Err2 by (auto simp: observing_mainchain_def Let_def bind_def)
      ultimately show ?thesis using quiet by simp
    qed (use run Ok in \<open>auto simp: observing_mainchain_def Let_def bind_def\<close>)
  next
    case (Err d w1)
    then have "pool w1 = pool w" using keep(1) preserves_Err by fastforce
    moreover have "w' = w1" using run Err by (auto simp: observing_mainchain_def Let_def bind_def)
    ultimately show ?thesis using quiet by simp
  qed (use run in \<open>auto simp: observing_mainchain_def Let_def bind_def\<close>)
qed

lemma find_validator_key_Some:
  "find_validator_key c h s ks = Some (public, key_data, v) \<Longrightarrow>
     is_active_validator c key_type key_data s = Some v \<and> public = generic_public h key_data \<and> key_data \<in> set ks"
  by (induction ks) (auto split: option.splits)

lemma should_send_Ok: "\<exists>b w'. should_send c h now w = Ok b w' \<and> w' = snd (storage_mutate h last_send_key (next_send c now) w)"
  by (auto simp: should_send_def split: prod.split mutate_result.split)

lemma preserves_pool_should_send:
  assumes "pool_ok c h pool" shows "preserves (\<lambda>w. pool w = v) (should_send c h now)"
proof -
  have "pool (snd (storage_mutate h last_send_key (next_send c now) w)) = pool w" for w
    using assms unfolding pool_ok_def by blast
  then show ?thesis using should_send_Ok [of c h now]
    by (intro preservesI) (metis outcome.inject(1), metis outcome.distinct(1))
qed

lemma offchain_worker_sent:
  assumes pool: "pool_ok c h pool" and run: "offchain_worker c h s now w = Ok () w'"
  shows "pool w' = pool w \<or>
    is_validator h w \<and> is_activated (app s) \<and>
    (\<exists>key_data v w1. should_send c h now w = Ok True w1 \<and> is_active_validator c key_type key_data s = Some v \<and>
      sent c h pool (payload_observed c s) now (generic_public h key_data) key_data w w')"
proof (cases "is_validator h w \<and> is_activated (app s) \<and> anchor_contract (app s) \<noteq> []")
  case active: True
  obtain b w1 where send: "should_send c h now w = Ok b w1" using should_send_Ok [of c h now w] by auto
  have w1: "pool w1 = pool w" by (rule preserves_Ok [OF preserves_pool_should_send [OF pool] send refl])
  show ?thesis
  proof (cases "b \<and> get_validator_id c h s w1 \<noteq> None")
    case True
    then obtain public key_data v where id: "get_validator_id c h s w1 = Some (public, key_data, v)" by auto
    let ?t = "last (anchor_contract (app s)) = 116"
    let ?run = "observing_mainchain c h s now (get_mainchain_rpc_endpoint h ?t w1) (near_rpc_endpoint h ?t)
      (anchor_contract (app s)) public key_data v"
    have "catch ?run (\<lambda>_. ret ()) (\<lambda>_. ret () :: ('d, string, unit) op) w1 = Ok () w'"
      using run active send True id by (simp add: offchain_worker_def Let_def bind_def gets_def)
    then have "\<exists>e. ?run w1 = Ok () w' \<or> ?run w1 = Err e w'" by (auto simp: catch_Ok_iff ret_iff)
    then obtain e where "?run w1 = Ok () w' \<or> ?run w1 = Err e w'" ..
    from observing_sent [OF pool this] w1
    have "sent c h pool (payload_observed c s) now public key_data w w'" by (simp add: sent_def)
    then show ?thesis
      using find_validator_key_Some [OF id [unfolded get_validator_id_def]] active send True by auto
  next
    case False
    then have "w' = w1"
      using run active send
      by (cases b; cases "get_validator_id c h s w1")
        (simp_all add: offchain_worker_def Let_def bind_def gets_def ret_def)
    then show ?thesis using w1 by simp
  qed
next
  case False
  then have "w' = w" using run by (auto simp: offchain_worker_def Let_def bind_def gets_def ret_def)
  then show ?thesis by simp
qed

section \<open>The grace period\<close>

text \<open>
  The documented behaviour of \<open>StorageValueRef::mutate\<close> for the value \<open>stored\<close>: an accepted value is
  stored, a rejected one leaves the store alone, and a lost race means that another worker, which runs
  the same code, stored the block it was started for.
\<close>

definition storage_ok :: "('a, 'b, 'x) config \<Rightarrow> ('a, 'w) offchain_host \<Rightarrow> ('w \<Rightarrow> unit + u32 option) \<Rightarrow> bool" where
  "storage_ok c h stored \<longleftrightarrow> (\<forall>now w.
     case storage_mutate h last_send_key (next_send c now) w of
       (Mutated v, w') \<Rightarrow> next_send c now (stored w) = Some v \<and> stored w' = Inr (Some v)
     | (ValueFunctionFailed, w') \<Rightarrow> next_send c now (stored w) = None \<and> stored w' = stored w
     | (ConcurrentModification, w') \<Rightarrow> \<exists>b. next_send c b (stored w) = Some b \<and> stored w' = Inr (Some b) \<and>
         unat b + unat (grace_period (app_cfg c)) < 2 ^ 32)"

text \<open>
  The blocks at which the workers of a node decide to send. Between two of them the world changes by
  anything that leaves the stored block alone.
\<close>

fun sends_at :: "('a, 'b, 'x) config \<Rightarrow> ('a, 'w) offchain_host \<Rightarrow> (u32 \<times> ('w \<Rightarrow> 'w)) list \<Rightarrow> 'w \<Rightarrow> u32 list" where
  "sends_at c h [] w = []"
| "sends_at c h ((now, between) # runs) w =
     (case should_send c h now w of
        Ok b w' \<Rightarrow> (if b then [now] else []) @ sends_at c h runs (between w')
      | _ \<Rightarrow> [])"

definition quiet_between :: "('a, 'b, 'x) config \<Rightarrow> ('w \<Rightarrow> unit + u32 option) \<Rightarrow> (u32 \<times> ('w \<Rightarrow> 'w)) list \<Rightarrow> bool" where
  "quiet_between c stored runs \<longleftrightarrow> (\<forall>(now, g) \<in> set runs.
     unat now + unat (grace_period (app_cfg c)) < 2 ^ 32 \<and> (\<forall>u. stored (g u) = stored u))"

lemma next_send_Some: "next_send c now last_block = Some v \<Longrightarrow> v = now"
  by (auto simp: next_send_def split: sum.splits option.splits if_splits)

lemma next_send_after:
  assumes "next_send c now (Inr (Some b)) = Some v" and "unat b + unat (grace_period (app_cfg c)) < 2 ^ 32"
  shows "unat b + unat (grace_period (app_cfg c)) \<le> unat now"
proof -
  have "\<not> now < b + grace_period (app_cfg c)" using assms(1) by (auto simp: next_send_def split: if_splits)
  then show ?thesis
    using assms(2) unat_add_no_wrap [of b "grace_period (app_cfg c)"] by (simp add: word_less_nat_alt)
qed

lemma should_send_stored:
  assumes "storage_ok c h stored" and "should_send c h now w = Ok b w'"
  shows "if b then next_send c now (stored w) = Some now \<and> stored w' = Inr (Some now)
    else stored w' = stored w \<or> (\<exists>m. next_send c m (stored w) = Some m \<and> stored w' = Inr (Some m) \<and>
      unat m + unat (grace_period (app_cfg c)) < 2 ^ 32)"
proof -
  obtain r u where r: "storage_mutate h last_send_key (next_send c now) w = (r, u)" by fastforce
  have "case r of
      Mutated v \<Rightarrow> next_send c now (stored w) = Some v \<and> stored u = Inr (Some v)
    | ValueFunctionFailed \<Rightarrow> next_send c now (stored w) = None \<and> stored u = stored w
    | ConcurrentModification \<Rightarrow> \<exists>b. next_send c b (stored w) = Some b \<and> stored u = Inr (Some b) \<and>
         unat b + unat (grace_period (app_cfg c)) < 2 ^ 32"
    using assms(1) [unfolded storage_ok_def, THEN spec [of _ now], THEN spec [of _ w]] by (simp add: r)
  then show ?thesis
    using assms(2) unfolding should_send_def r
    by (cases r) (auto dest: next_send_Some)
qed

lemma sends_after:
  assumes "storage_ok c h stored" and "stored w = Inr (Some m)"
    and "unat m + unat (grace_period (app_cfg c)) < 2 ^ 32"
    and "quiet_between c stored runs"
  shows "(\<forall>n \<in> set (sends_at c h runs w). unat m + unat (grace_period (app_cfg c)) \<le> unat n) \<and>
    sorted_wrt (\<lambda>a b. unat a + unat (grace_period (app_cfg c)) \<le> unat b) (sends_at c h runs w)"
  using assms(2,3,4)
proof (induction runs arbitrary: w m)
  case (Cons r runs)
  let ?g = "unat (grace_period (app_cfg c))"
  obtain now g where r: "r = (now, g)" by (cases r)
  obtain b w' where send: "should_send c h now w = Ok b w'" using should_send_Ok [of c h now w] by auto
  have here: "unat now + ?g < 2 ^ 32" and g: "stored (g u) = stored u" for u
    using Cons.prems(3) r by (auto simp: quiet_between_def)
  have later: "quiet_between c stored runs"
    using Cons.prems(3) by (simp add: quiet_between_def)
  note stored = should_send_stored [OF assms(1) send]
  show ?case
  proof (cases b)
    case True
    then have now: "unat m + ?g \<le> unat now" and w': "stored (g w') = Inr (Some now)"
      using stored next_send_after [OF _ Cons.prems(2)] Cons.prems(1) g by auto
    from Cons.IH [of "g w'" now, OF w' here later] now True show ?thesis by (auto simp: r send)
  next
    case False
    then consider "stored (g w') = Inr (Some m)"
      | k where "stored (g w') = Inr (Some k)" "unat m + ?g \<le> unat k" "unat k + ?g < 2 ^ 32"
      using stored next_send_after [OF _ Cons.prems(2)] Cons.prems(1) g by auto
    then show ?thesis
    proof cases
      case 1
      from Cons.IH [of "g w'" m, OF this Cons.prems(2) later] False show ?thesis by (simp add: r send)
    next
      case 2
      from Cons.IH [of "g w'" k, OF 2(1,3) later] 2(2) False show ?thesis by (auto simp: r send)
    qed
  qed
qed simp

lemma sends_spaced:
  assumes "storage_ok c h stored"
    and "quiet_between c stored runs"
  shows "sorted_wrt (\<lambda>a b. unat a + unat (grace_period (app_cfg c)) \<le> unat b) (sends_at c h runs w)"
  using assms(2)
proof (induction runs arbitrary: w)
  case (Cons r runs)
  let ?g = "unat (grace_period (app_cfg c))"
  obtain now g where r: "r = (now, g)" by (cases r)
  obtain b w' where send: "should_send c h now w = Ok b w'" using should_send_Ok [of c h now w] by auto
  have here: "unat now + ?g < 2 ^ 32" and g: "stored (g u) = stored u" for u
    using Cons.prems r by (auto simp: quiet_between_def)
  have later: "quiet_between c stored runs"
    using Cons.prems by (simp add: quiet_between_def)
  show ?case
  proof (cases b)
    case True
    then have w': "stored (g w') = Inr (Some now)" using should_send_stored [OF assms(1) send] g by simp
    from sends_after [of c h stored "g w'" now runs, OF assms(1) w' here later] True show ?thesis by (simp add: r send)
  next
    case False
    with Cons.IH [OF later] show ?thesis by (simp add: r send)
  qed
qed simp

end
