(* ===== verification/Worker_Properties.thy ===== *)
theory Worker_Properties
  imports Offchain_Properties
begin

text \<open>
  The properties of the offchain worker and of its queries, with a concrete host at which the witnesses
  evaluate.
\<close>

section \<open>A concrete host\<close>

record demo_world =
  dw_last :: "u32 option"
  dw_requests :: "http_request list"
  dw_pool :: "nat appchain_call list"

text \<open>Endpoints answer when they are \<open>online\<close>; the mainchain has the validators \<open>vs\<close> and the histories \<open>ns\<close>.\<close>

definition demo_mainchain :: "(rust_string \<Rightarrow> bool) \<Rightarrow> raw_validator list \<Rightarrow> raw_history list
    \<Rightarrow> (nat, demo_world) mainchain_host" where
  "demo_mainchain online vs ns =
     \<lparr>deadline_in = (\<lambda>ms w. ms),
      http_send = (\<lambda>req d w. Ok (length (dw_requests w)) (w\<lparr>dw_requests := dw_requests w @ [req]\<rparr>)),
      http_try_wait = (\<lambda>n d w. if n < length (dw_requests w) then
          if online (request_url (dw_requests w ! n)) then Ok (Inr \<lparr>response_code = 200, response_body = []\<rparr>) w
          else Ok (Inl IoError) w else Err () w),
      json_of_body = (\<lambda>b. Some (method_name (body_params b))),
      json_response = (\<lambda>b. Some default_response),
      json_validators = (\<lambda>b. (vs, True)), json_notifications = (\<lambda>b. (ns, True)),
      base64_encode = (\<lambda>x. x), hex_decode = Some,
      account_decode = (\<lambda>b. case b of [x] \<Rightarrow> Some (unat x) | _ \<Rightarrow> None)\<rparr>"

definition demo_host :: "(rust_string \<Rightarrow> bool) \<Rightarrow> raw_validator list \<Rightarrow> raw_history list
    \<Rightarrow> (nat, demo_world) offchain_host" where
  "demo_host online vs ns =
     \<lparr>mainchain = demo_mainchain online vs ns, is_validator = (\<lambda>w. True), local_storage_get = (\<lambda>k w. None),
      storage_mutate = (\<lambda>k f w. case f (Inr (dw_last w)) of
          Some v \<Rightarrow> (Mutated v, w\<lparr>dw_last := Some v\<rparr>) | None \<Rightarrow> (ValueFunctionFailed, w)),
      local_keys = (\<lambda>w. [[9], [1]]), generic_public = (\<lambda>k. k),
      send_unsigned_transaction = (\<lambda>ks f g w. ([True], w\<lparr>dw_pool := dw_pool w @ [g (f (hd ks)) (hd ks)]\<rparr>)),
      near_mainnet = [77], near_testnet = [84]\<rparr>"

definition demo_world0 :: demo_world where
  "demo_world0 = \<lparr>dw_last = None, dw_requests = [], dw_pool = []\<rparr>"

definition demo_anchored :: "(nat, u128, demo_ext) runtime" where
  "demo_anchored = demo_state\<lparr>app := demo_app0\<lparr>anchor_contract := str_bytes ''o.testnet''\<rparr>\<rparr>"

definition demo_new_validator :: "nat validator" where
  "demo_new_validator = \<lparr>validator_id_in_appchain = 2, validator_total_stake = 500\<rparr>"

lemmas demo_host_simps = demo_host_def demo_mainchain_def demo_world0_def

lemma demo_pool_ok: "pool_ok demo_config (demo_host online vs ns) dw_pool"
  by (auto simp: pool_ok_def demo_host_simps preserves_def demo_config_def demo_app_config_def split: option.splits if_splits)

lemma demo_storage_ok: "storage_ok demo_config (demo_host online vs ns) (\<lambda>w. Inr (dw_last w))"
  by (auto simp: storage_ok_def demo_host_simps split: option.splits dest: next_send_Some)

definition asked :: "rust_string \<Rightarrow> string \<Rightarrow> demo_world \<Rightarrow> demo_world" where
  "asked url method w = w\<lparr>dw_requests := dw_requests w @ [\<lparr>request_method = Post, request_url = url,
     request_body = [str_bytes method],
     request_header = (str_bytes ''Content-Type'', str_bytes ''application/json'')\<rparr>]\<rparr>"

lemma asked_simps [simp]: "dw_pool (asked url m w) = dw_pool w" "dw_last (asked url m w) = dw_last w"
  by (simp_all add: asked_def)

lemma demo_query:
  "query_mainchain (demo_mainchain online vs ns) url (str_bytes ''o.testnet'') method args w =
     (if online url then Ok default_response (asked url method w) else Err IoError (asked url method w))"
  by (simp add: query_mainchain_def demo_mainchain_def op_simps from_utf8_def utf8_valid_ascii str_bytes_def
      query_body_def builder_defs Let_def nth_append asked_def)

lemma demo_codecs: "codecs_ok demo_config (demo_mainchain online vs ns) 2"
  by (simp add: codecs_ok_def demo_config_def demo_mainchain_def Let_def)

lemma demo_validator_list:
  "get_validator_list_of (demo_mainchain online [validator_text demo_config demo_new_validator] ns) url
     (str_bytes ''o.testnet'') i w =
     (if online url then Ok [UpdateValidatorSet \<lparr>set_id = i, validators = [demo_new_validator]\<rparr>]
        (asked url ''get_validator_list_of'' w)
      else Err IoError (asked url ''get_validator_list_of'' w))"
proof -
  have "deserialize_validator (demo_mainchain online [validator_text demo_config demo_new_validator] ns)
      (validator_text demo_config demo_new_validator) = Parsed demo_new_validator"
    by (rule deserialize_validator_text) (simp add: demo_codecs demo_new_validator_def)
  moreover have "json_validators (demo_mainchain online vs ns) b = (vs, True)" for vs b
    by (simp add: demo_mainchain_def)
  ultimately show ?thesis
    by (simp add: get_validator_list_of_def bind_def demo_query parsed_or_def ret_def)
qed

lemma demo_active: "is_active_validator demo_config key_type [1] demo_anchored = Some 1"
  "is_active_validator demo_config key_type [9] demo_anchored = None"
  by (simp_all add: is_active_validator_def session_is_active_validator_def demo_anchored_def demo_simps)

text \<open>What validator 1 sends at block 20.\<close>

definition demo_sent :: "(bytes, nat) observations_payload" where
  "demo_sent = \<lparr>payload_public = [1], payload_key_data = [1], payload_block_number = 20,
     payload_observations = [UpdateValidatorSet \<lparr>set_id = 1, validators = [demo_new_validator]\<rparr>]\<rparr>"

lemma demo_worker_run:
  "offchain_worker demo_config (demo_host (\<lambda>u. True) [validator_text demo_config demo_new_validator] [])
     demo_anchored 20 demo_world0 =
   Ok () ((asked [84] ''get_validator_list_of'' (demo_world0\<lparr>dw_last := Some 20\<rparr>))\<lparr>dw_pool := [SubmitObservations demo_sent [1]]\<rparr>)"
proof -
  let ?h = "demo_host (\<lambda>u. True) [validator_text demo_config demo_new_validator] []"
  let ?w = "asked [84] ''get_validator_list_of'' (demo_world0\<lparr>dw_last := Some 20\<rparr>)"
  have h: "is_validator ?h = (\<lambda>w. True)" "mainchain ?h = demo_mainchain (\<lambda>u. True) [validator_text demo_config demo_new_validator] []"
    "near_testnet ?h = [84]" "local_storage_get ?h = (\<lambda>k w. None)"
    "send_unsigned_transaction ?h = (\<lambda>ks f g w. ([True], w\<lparr>dw_pool := dw_pool w @ [g (f (hd ks)) (hd ks)]\<rparr>))"
    by (simp_all add: demo_host_def)
  have s: "is_activated (app demo_anchored)" "anchor_contract (app demo_anchored) = str_bytes ''o.testnet''"
    "next_set_id (app demo_anchored) = 1" by (simp_all add: demo_anchored_def demo_app0_def)
  have send: "should_send demo_config ?h 20 demo_world0 = Ok True (demo_world0\<lparr>dw_last := Some 20\<rparr>)"
    by (simp add: should_send_def demo_host_simps next_send_def)
  have id: "get_validator_id demo_config ?h demo_anchored w = Some ([1], [1], 1)" for w
    by (simp add: get_validator_id_def demo_host_def demo_active)
  have url: "get_mainchain_rpc_endpoint ?h True w = [84]" for w
    by (simp add: get_mainchain_rpc_endpoint_def near_rpc_endpoint_def h from_utf8_def)
  have anchor: "last (str_bytes ''o.testnet'') = 116" "str_bytes ''o.testnet'' \<noteq> []" by (simp_all add: str_bytes_def)
  show "offchain_worker demo_config ?h demo_anchored 20 demo_world0 =
      Ok () (?w\<lparr>dw_pool := [SubmitObservations demo_sent [1]]\<rparr>)"
    by (simp add: offchain_worker_def Let_def bind_def gets_def h s send id url anchor near_rpc_endpoint_def
        observing_mainchain_def retried_def catch_def demo_validator_list ret_def send_observations_def)
      (simp add: demo_world0_def demo_sent_def)
qed

section \<open>Properties\<close>

text \<open>
  C11. With a pool that adds what is sent to it and nothing else, a run of the offchain worker adds at most
  one call to the pool: a submit_observations for the current block whose signature the chain verifies, with
  a key of an active validator, sent only by an active validator's node of an activated chain, and with a
  non-empty payload in which a validator set stands alone and has the set id the chain expects next.
\<close>

theorem worker_sends_what_it_observed:
  assumes "pool_ok c h pool" and "offchain_worker c h s now w = Ok () w'"
  shows "pool w' = pool w \<or> (\<exists>p sig v. pool w' = pool w @ [SubmitObservations p sig] \<and>
    verify_payload (app_cfg c) p sig \<and>
    is_validator h w \<and> is_activated (app s) \<and> payload_block_number p = now \<and>
    is_active_validator c key_type (payload_key_data p) s = Some v \<and>
    payload_public p = generic_public h (payload_key_data p) \<and> payload_observations p \<noteq> [] \<and>
    (\<forall>o' \<in> set (payload_observations p). get_observation_type o' = UpdateValidatorSetType \<longrightarrow>
       payload_observations p = [o'] \<and> index_accepted c o' s))"
  using offchain_worker_sent [OF assms]
  unfolding sent_def payload_observed_def by fastforce

theorem worker_sends_what_it_observed_witness:
  "\<exists>w' p sig. offchain_worker demo_config (demo_host (\<lambda>u. True) [validator_text demo_config demo_new_validator] [])
      demo_anchored 20 demo_world0 = Ok () w' \<and> dw_pool w' = [SubmitObservations p sig] \<and>
    payload_observations p = [UpdateValidatorSet \<lparr>set_id = 1, validators = [demo_new_validator]\<rparr>] \<and>
    payload_block_number p = 20"
  using worker_sends_what_it_observed [OF demo_pool_ok demo_worker_run] demo_worker_run
  by (auto simp: demo_world0_def demo_sent_def)

text \<open>
  C25. Over any sequence of runs, between which the rest of the host leaves the worker's stored block number
  alone, the blocks at which the worker is allowed to send are pairwise at least GracePeriod apart, as long
  as block + GracePeriod fits u32.
\<close>

theorem worker_respects_grace_period:
  assumes "storage_ok c h stored" and "quiet_between c stored runs"
  shows "sorted_wrt (\<lambda>a b. unat a + unat (grace_period (app_cfg c)) \<le> unat b) (sends_at c h runs w)"
  using assms by (rule sends_spaced)

theorem worker_respects_grace_period_witness:
  "sends_at demo_config (demo_host (\<lambda>u. True) [] []) [(5, id), (9, id), (15, id), (16, id)] demo_world0 = [5, 15] \<and>
   sorted_wrt (\<lambda>a b. unat a + 10 \<le> unat b)
     (sends_at demo_config (demo_host (\<lambda>u. True) [] []) [(5, id), (9, id), (15, id), (16, id)] demo_world0)"
proof
  show "sends_at demo_config (demo_host (\<lambda>u. True) [] []) [(5, id), (9, id), (15, id), (16, id)] demo_world0 = [5, 15]"
    by (simp add: should_send_def demo_host_simps next_send_def demo_config_def demo_app_config_def)
  have "quiet_between demo_config (\<lambda>w. Inr (dw_last w)) [(5, id), (9, id), (15, id), (16, id)]"
    by (simp add: quiet_between_def demo_config_def demo_app_config_def)
  from worker_respects_grace_period [OF demo_storage_ok this]
  show "sorted_wrt (\<lambda>a b. unat a + 10 \<le> unat b)
     (sends_at demo_config (demo_host (\<lambda>u. True) [] []) [(5, id), (9, id), (15, id), (16, id)] demo_world0)"
    by (simp add: demo_config_def demo_app_config_def)
qed

text \<open>
  C26. When the query of the first endpoint fails and the failsafe endpoint answers, observing the mainchain
  still fails with the error of the first query, and nothing is sent.
\<close>

theorem failsafe_answer_is_discarded:
  assumes "get_validator_list_of (mainchain h) endpoint anchor (next_set_id (app s)) w = Err e w1"
    and "get_validator_list_of (mainchain h) secondary anchor (next_set_id (app s)) w1 = Ok obs w2"
  shows "observing_mainchain c h s now endpoint secondary anchor public key_data v w =
    Err ''Failed to get_validator_list_of'' w2"
  using assms by (simp add: observing_mainchain_def Let_def bind_def retried_Err)

theorem failsafe_answer_is_discarded_witness:
  "\<exists>w1 w2. get_validator_list_of (demo_mainchain (\<lambda>u. u = [84]) [validator_text demo_config demo_new_validator] [])
        [84] (str_bytes ''o.testnet'') 1 w1 = Ok [UpdateValidatorSet \<lparr>set_id = 1, validators = [demo_new_validator]\<rparr>] w2 \<and>
     observing_mainchain demo_config (demo_host (\<lambda>u. u = [84]) [validator_text demo_config demo_new_validator] [])
       demo_anchored 20 [99] [84] (str_bytes ''o.testnet'') [1] [1] 1 demo_world0 =
       Err ''Failed to get_validator_list_of'' w2"
proof -
  let ?h = "demo_host (\<lambda>u. u = [84]) [validator_text demo_config demo_new_validator] []"
  let ?w = "asked [99] ''get_validator_list_of'' demo_world0"
  have h: "mainchain ?h = demo_mainchain (\<lambda>u. u = [84]) [validator_text demo_config demo_new_validator] []"
    by (simp add: demo_host_def)
  have s: "next_set_id (app demo_anchored) = 1" by (simp add: demo_anchored_def demo_app0_def)
  show ?thesis
    using failsafe_answer_is_discarded [of ?h "[99]" "str_bytes ''o.testnet''" demo_anchored demo_world0 IoError ?w "[84]"]
    by (intro exI [of _ ?w] exI [of _ "asked [84] ''get_validator_list_of'' ?w"])
      (simp add: h s demo_validator_list)
qed

text \<open>
  C24. An answer of the mainchain that writes validators as 0x-prefixed hex of the encoded account and
  decimal stake is read back as exactly these validators, in one observation under the asked set id, and as
  no observation when there are none.
\<close>

theorem validator_set_read_back:
  assumes "query_mainchain h url anchor ''get_validator_list_of'' (encode_get_validator_args h i) w = Ok json w'"
    and "json_validators h (rr_result (response_result json)) = (map (validator_text c) vs, True)"
    and "\<And>v. v \<in> set vs \<Longrightarrow> codecs_ok c h (validator_id_in_appchain v)"
  shows "get_validator_list_of h url anchor i w =
    Ok (if vs = [] then [] else [UpdateValidatorSet \<lparr>set_id = i, validators = vs\<rparr>]) w'"
proof -
  have "deserialize_items (deserialize_validator h) (map (validator_text c) vs, True) = Parsed vs"
    using validators_text_Parsed [OF assms(3)] by (simp add: deserialize_items_Parsed)
  then show ?thesis
    using assms(1,2) by (simp add: get_validator_list_of_def bind_def parsed_or_def ret_def)
qed

theorem validator_set_read_back_witness:
  "\<exists>w'. get_validator_list_of (demo_mainchain (\<lambda>u. True) [validator_text demo_config demo_new_validator] []) [84]
     (str_bytes ''o.testnet'') 7 demo_world0 = Ok [UpdateValidatorSet \<lparr>set_id = 7, validators = [demo_new_validator]\<rparr>] w'"
proof -
  let ?m = "demo_mainchain (\<lambda>u. True) [validator_text demo_config demo_new_validator] []"
  have "query_mainchain ?m [84] (str_bytes ''o.testnet'') ''get_validator_list_of'' (encode_get_validator_args ?m 7)
      demo_world0 = Ok default_response (asked [84] ''get_validator_list_of'' demo_world0)"
    by (simp add: demo_query)
  moreover have "json_validators ?m (rr_result (response_result default_response)) =
      (map (validator_text demo_config) [demo_new_validator], True)"
    by (simp add: demo_mainchain_def)
  moreover have "v \<in> set [demo_new_validator] \<Longrightarrow> codecs_ok demo_config ?m (validator_id_in_appchain v)" for v
    by (simp add: demo_new_validator_def demo_codecs)
  ultimately have "get_validator_list_of ?m [84] (str_bytes ''o.testnet'') 7 demo_world0 =
      Ok (if [demo_new_validator] = [] then [] else [UpdateValidatorSet \<lparr>set_id = 7, validators = [demo_new_validator]\<rparr>])
        (asked [84] ''get_validator_list_of'' demo_world0)"
    by (rule validator_set_read_back)
  then show ?thesis by simp
qed

text \<open>
  When base64 is injective, the encoded arguments of the queries determine the set id, and the start
  index and the limit: requests for different sets or ranges are different.
\<close>

theorem query_arguments_determine_request:
  assumes "inj (base64_encode h)"
  shows "(encode_get_validator_args h i = encode_get_validator_args h j \<longleftrightarrow> i = j) \<and>
    (encode_get_notification_args h i l = encode_get_notification_args h j m \<longleftrightarrow> i = j \<and> l = m)"
  by (simp add: validator_args_iff [OF assms] notification_args_iff [OF assms])

theorem query_arguments_determine_request_witness:
  "encode_get_notification_args (demo_mainchain (\<lambda>u. True) [] []) 1 12 \<noteq>
   encode_get_notification_args (demo_mainchain (\<lambda>u. True) [] []) 11 2"
  using query_arguments_determine_request [of "demo_mainchain (\<lambda>u. True) [] []" 1 11 12 2]
  by (simp add: demo_mainchain_def)

text \<open>
  C39. When the mainchain's list of validators contains, after well-formed entries, an account text shorter
  than two bytes, reading the list panics: the slice of the text is taken before any check.
\<close>

theorem short_account_panics_the_worker:
  assumes "query_mainchain h url anchor ''get_validator_list_of'' (encode_get_validator_args h i) w = Ok json w'"
    and "json_validators h (rr_result (response_result json)) = (map (validator_text c) vs @ r # rest, complete)"
    and "\<And>v. v \<in> set vs \<Longrightarrow> codecs_ok c h (validator_id_in_appchain v)"
    and "length (raw_validator_id r) < 2"
  shows "get_validator_list_of h url anchor i w = Panic"
proof -
  have "deserialize_validator h r = ParsePanic"
    using account_panics_iff [of h "raw_validator_id r"] assms(4) by (simp add: deserialize_validator_def)
  then show ?thesis
    using assms(1,2) deserialize_items_panics [OF validators_text_Parsed [OF assms(3)]]
    by (simp add: get_validator_list_of_def bind_def parsed_or_def panic_def)
qed

theorem short_account_panics_the_worker_witness:
  "get_validator_list_of (demo_mainchain (\<lambda>u. True) [\<lparr>raw_validator_id = [], raw_total_stake = [49]\<rparr>] []) [84]
     (str_bytes ''o.testnet'') 7 demo_world0 = Panic"
proof (rule short_account_panics_the_worker)
  let ?m = "demo_mainchain (\<lambda>u. True) [\<lparr>raw_validator_id = [], raw_total_stake = [49]\<rparr>] []"
  show "query_mainchain ?m [84] (str_bytes ''o.testnet'') ''get_validator_list_of'' (encode_get_validator_args ?m 7)
      demo_world0 = Ok default_response (asked [84] ''get_validator_list_of'' demo_world0)"
    by (simp add: demo_query)
  show "json_validators ?m (rr_result (response_result default_response)) =
      (map (validator_text demo_config) [] @ \<lparr>raw_validator_id = [], raw_total_stake = [49]\<rparr> # [], True)"
    by (simp add: demo_mainchain_def)
qed simp_all

end
