(* ===== verification/Worker_Returns.thy ===== *)
theory Worker_Returns
  imports Worker_Properties
begin

text \<open>
  When the offchain worker returns: its requests, its decoders and its transaction are all tried without a
  panic as long as the host's HTTP functions return and every account in an answer can be sliced.
\<close>

section \<open>Decoders\<close>

text \<open>\<open>&s[2..]\<close> is in bounds and starts at a character.\<close>

definition sliceable :: "rust_string \<Rightarrow> bool" where
  "sliceable s \<longleftrightarrow> 2 \<le> length s \<and> (2 < length s \<longrightarrow> \<not> continuation_byte (s ! 2))"

lemma sliceable_iff: "sliceable s \<longleftrightarrow> account_deserialize_from_hex_str h s \<noteq> ParsePanic"
  by (auto simp: sliceable_def account_panics_iff)

text \<open>Text that starts with two characters of ASCII, such as the prefix of a hexadecimal number.\<close>

lemma continuation_not_first: "continuation_byte a \<Longrightarrow> \<not> utf8_valid (a # s)"
  by (auto simp: continuation_byte_def word_le_nat_alt)

lemma utf8_sliceable:
  assumes "utf8_valid (a # b # s)" and "a \<le> 0x7F" and "b \<le> 0x7F"
  shows "sliceable (a # b # s)"
proof (cases s)
  case (Cons d ds)
  then have "utf8_valid (d # ds)" using assms by simp
  then show ?thesis using Cons continuation_not_first [of d ds] by (auto simp: sliceable_def)
qed (simp add: sliceable_def)

fun raw_receiver_of :: "raw_notification \<Rightarrow> rust_string" where
  "raw_receiver_of (RawLockAsset i t sender receiver amount) = receiver"
| "raw_receiver_of (RawBurn i sender receiver amount) = receiver"
| "raw_receiver_of (RawBurnNft i sender receiver class item) = receiver"

lemma deserialize_from_str_returns: "deserialize_from_str s \<noteq> ParsePanic"
  by (simp add: deserialize_from_str_def split: option.split)

lemma deserialize_returns:
  "sliceable (raw_validator_id r) \<Longrightarrow> deserialize_validator h r \<noteq> ParsePanic"
  "sliceable (raw_receiver_of (raw_notification n)) \<Longrightarrow> deserialize_history h n \<noteq> ParsePanic"
proof -
  show "sliceable (raw_validator_id r) \<Longrightarrow> deserialize_validator h r \<noteq> ParsePanic"
    by (auto simp: deserialize_validator_def parsed_bind_Panic_iff deserialize_from_str_returns sliceable_iff [of _ h])
  have "sliceable (raw_receiver_of m) \<Longrightarrow> deserialize_notification h m \<noteq> ParsePanic" for m
    by (cases m) (auto simp: parsed_bind_Panic_iff deserialize_from_str_returns sliceable_iff [of _ h])
  then show "sliceable (raw_receiver_of (raw_notification n)) \<Longrightarrow> deserialize_history h n \<noteq> ParsePanic"
    by (auto simp: deserialize_history_def parsed_bind_Panic_iff deserialize_from_str_returns)
qed

lemma deserialize_items_returns:
  "(\<And>r. r \<in> set rs \<Longrightarrow> f r \<noteq> ParsePanic) \<Longrightarrow> deserialize_items f (rs, complete) \<noteq> ParsePanic"
  by (induction rs) (auto simp: parsed_bind_Panic_iff)

section \<open>Queries\<close>

text \<open>The host's HTTP functions return, and every account in an answer can be sliced.\<close>

definition answers_ok :: "('a, 'w) mainchain_host \<Rightarrow> bool" where
  "answers_ok m \<longleftrightarrow>
     (\<forall>r d w. http_send m r d w \<noteq> Panic) \<and> (\<forall>n d w. http_try_wait m n d w \<noteq> Panic) \<and>
     (\<forall>b. \<forall>r \<in> set (fst (json_validators m b)). sliceable (raw_validator_id r)) \<and>
     (\<forall>b. \<forall>n \<in> set (fst (json_notifications m b)). sliceable (raw_receiver_of (raw_notification n)))"

lemma query_returns:
  "answers_ok m \<Longrightarrow> query_mainchain m url anchor method args w \<noteq> Panic"
  by (auto simp: query_mainchain_def answers_ok_def op_inv Let_def split: sum.splits)

lemma queries_return:
  assumes "answers_ok m"
  shows "get_validator_list_of m url anchor i w \<noteq> Panic"
    and "get_appchain_notification_histories m url anchor j l w \<noteq> Panic"
proof -
  have "deserialize_items (deserialize_validator m) (json_validators m b) \<noteq> ParsePanic"
    "deserialize_items (deserialize_history m) (json_notifications m b) \<noteq> ParsePanic" for b
    using assms deserialize_items_returns [of "fst (json_validators m b)" "deserialize_validator m" "snd (json_validators m b)"]
      deserialize_items_returns [of "fst (json_notifications m b)" "deserialize_history m" "snd (json_notifications m b)"]
    by (auto simp: answers_ok_def deserialize_returns)
  then show "get_validator_list_of m url anchor i w \<noteq> Panic"
    "get_appchain_notification_histories m url anchor j l w \<noteq> Panic"
    using query_returns [OF assms]
    by (auto simp: get_validator_list_of_def get_appchain_notification_histories_def op_inv)
qed

lemma retried_returns:
  "(\<And>w. first w \<noteq> Panic) \<Longrightarrow> (\<And>w. second w \<noteq> Panic) \<Longrightarrow> retried first second e w \<noteq> Panic"
  by (auto simp: retried_def op_inv)

section \<open>The worker\<close>

lemma observing_mainchain_returns:
  assumes "answers_ok (mainchain h)"
  shows "observing_mainchain c h s now url url' anchor public key_data v w \<noteq> Panic"
proof -
  have tried: "retried (get_validator_list_of (mainchain h) url anchor i)
      (get_validator_list_of (mainchain h) url' anchor i) e u \<noteq> Panic"
    "retried (get_appchain_notification_histories (mainchain h) url anchor j l)
      (get_appchain_notification_histories (mainchain h) url' anchor j l) e u \<noteq> Panic" for i j l e u
    by (intro retried_returns queries_return [OF assms])+
  show ?thesis
    using tried
    by (auto simp: observing_mainchain_def Let_def op_inv split: prod.splits if_splits)
qed

section \<open>Properties\<close>

text \<open>
  C18. The offchain worker always returns Ok, whatever the mainchain answers and whatever errors its
  requests meet, as long as the host's HTTP functions return and every account in an answer has two bytes
  before a character boundary.
\<close>

theorem worker_always_returns:
  assumes "answers_ok (mainchain h)"
  shows "\<exists>w'. offchain_worker c h s now w = Ok () w'"
proof -
  obtain b w1 where send: "should_send c h now w = Ok b w1" using should_send_Ok [of c h now w] by auto
  have "\<exists>w'. catch (observing_mainchain c h s now url url' anchor public key_data v) (\<lambda>_. ret ()) (\<lambda>_. ret ()) w1 =
      (Ok () w' :: ('b, string, unit) outcome)" for url url' anchor public key_data v
    using observing_mainchain_returns [OF assms, of c s now url url' anchor public key_data v w1]
    by (cases "observing_mainchain c h s now url url' anchor public key_data v w1") (simp_all add: catch_def ret_def)
  then show ?thesis
    using send by (auto simp: offchain_worker_def Let_def bind_def gets_def ret_def split: option.split)
qed

theorem worker_always_returns_witness:
  "\<exists>w'. offchain_worker demo_config (demo_host (\<lambda>u. True)
      [\<lparr>raw_validator_id = str_bytes ''0xzz'', raw_total_stake = str_bytes ''none''\<rparr>] []) demo_anchored 20 demo_world0 = Ok () w'"
proof (rule worker_always_returns)
  have "continuation_byte b \<Longrightarrow> b \<noteq> of_char CHR ''z''" for b by (auto simp: continuation_byte_def)
  then show "answers_ok (mainchain (demo_host (\<lambda>u. True)
      [\<lparr>raw_validator_id = str_bytes ''0xzz'', raw_total_stake = str_bytes ''none''\<rparr>] []))"
    by (auto simp: answers_ok_def demo_host_simps sliceable_def str_bytes_def)
qed

end
