(* ===== verification/Appchain_Properties.thy ===== *)
theory Appchain_Properties
  imports Appchain_Safety
begin

text \<open>
  The properties of the appchain pallet, and a concrete state with three validators at which they are
  applied.
\<close>

section \<open>A concrete state\<close>

definition demo_burn :: "u32 \<Rightarrow> nat observation" where
  "demo_burn i = Burn \<lparr>be_index = i, be_sender_id = [97], be_receiver = 3, be_amount = 10\<rparr>"

lemma demo_burn_simps [simp]:
  "get_observation_type (demo_burn i) = BurnType" "observation_index (demo_burn i) = i"
  "is_notification (demo_burn i)" "demo_burn i = demo_burn j \<longleftrightarrow> i = j"
  by (simp_all add: demo_burn_def is_notification_def)

definition demo_set :: "nat validator_set" where
  "demo_set = \<lparr>set_id = 1, validators = [\<lparr>validator_id_in_appchain = 2, validator_total_stake = 500\<rparr>]\<rparr>"

text \<open>Era 0 of three validators, of which the first has three quarters of the stake, as planning and starting session 0 leave it.\<close>

definition demo_genesis :: "(nat, u128, demo_ext) runtime" where
  "demo_genesis = demo_state\<lparr>app := demo_app0\<lparr>planned_validators := [(1, 300), (2, 50), (3, 50)]\<rparr>\<rparr>"

definition demo_votes :: "(nat, u128, demo_ext) runtime" where
  "demo_votes = demo_genesis\<lparr>lpos := demo_lpos0\<lparr>current_era := Some 0,
     active_era := Some \<lparr>era_number = 0, era_set_id = 0, era_start = None\<rparr>,
     eras_start_session_index := [0 \<mapsto> 0],
     eras_stakers := (\<lambda>e. []) (0 := [(1, 300), (2, 50), (3, 50)]),
     eras_total_stake := (\<lambda>e. 0) (0 := 400), bonded_eras := [(0, 0)]\<rparr>,
     events := [LposEvent TriggerNewEra]\<rparr>"

lemma demo_votes_run:
  "\<exists>r s1 y. plan_session demo_config 0 demo_genesis = Ok r s1 \<and> start_session demo_config 0 s1 = Ok y demo_votes"
  by (simp add: plan_session_def new_session_def try_trigger_new_era_def start_session_def start_era_def
      trigger_new_era_def store_stakers_info_def store_staker_def op_simps demo_simps Let_def demo_genesis_def
      demo_votes_def checked_sub_def saturating_add_def checked_add_def)

lemma demo_votes_reachable: "lpos_reachable demo_config demo_votes" "app_reachable c demo_votes"
proof -
  obtain r s1 y where s: "plan_session demo_config 0 demo_genesis = Ok r s1"
    "start_session demo_config 0 s1 = Ok y demo_votes" using demo_votes_run by blast
  have "lpos_reachable demo_config demo_genesis" by (rule lpos_start) (simp add: demo_simps demo_genesis_def)
  then have "lpos_reachable demo_config s1"
    by (rule lpos_plan [OF _ _ _ s(1)]) (simp_all add: demo_simps demo_genesis_def)
  then show "lpos_reachable demo_config demo_votes" by (rule lpos_session_start [OF _ s(2)])
  show "app_reachable c demo_votes" by (rule app_start) (simp_all add: demo_votes_def demo_genesis_def demo_simps)
qed

lemma demo_votes_stakes: "active_total_stake demo_votes = Some 400"
  "active_stake_of demo_votes v = (if v = 1 then 300 else if v = 2 \<or> v = 3 then 50 else 0)"
  by (simp_all add: demo_votes_def active_total_stake_def active_stake_of_def eras_stakers_get_def)

lemma demo_votes_app: "app demo_votes = demo_app0\<lparr>planned_validators := [(1, 300), (2, 50), (3, 50)]\<rparr>"
  by (simp add: demo_votes_def demo_genesis_def)

lemma demo_unlock:
  "10 < bal (ext s) 0 \<Longrightarrow> bridge_request demo_config (demo_burn i) s =
     Ok () (s\<lparr>ext := (ext s)\<lparr>bal := (bal (ext s))(0 := bal (ext s) 0 - 10, 3 := bal (ext s) 3 + 10)\<rparr>,
       events := events s @ [BridgeEvent (Unlocked [97] 3 10 i)]\<rparr>)"
  by (simp add: demo_burn_def unlock_def do_unlock_def op_simps demo_transfer_def demo_config_def demo_bridge_config_def Let_def fun_upd_twist)

lemma demo_execute:
  assumes "10 < bal (ext s) 0" and "next_notification_id (app s) \<noteq> - 1"
  shows "execute_observation demo_config i (demo_burn i) s = Ok () (put_history i Success ((advance s)\<lparr>
     ext := (ext s)\<lparr>bal := (bal (ext s))(0 := bal (ext s) 0 - 10, 3 := bal (ext s) 3 + 10)\<rparr>,
       events := events s @ [BridgeEvent (Unlocked [97] 3 10 i)]\<rparr>))"
  using assms demo_unlock [of "advance s" i]
  by (simp add: execute_notification) (simp add: advance_def)


lemma demo_submit:
  assumes "lpos s = lpos demo_votes" and "next_notification_id (app s) \<le> i" "i < next_notification_id (app s) + 10"
    and "length (observations (app s) BurnType i) < 100" and "length (observing (app s) (demo_burn i)) < 5"
    and "votes_after v (observing (app s) (demo_burn i)) \<in> {[1], [1, 2]}"
    and "10 < bal (ext s) 0" and "next_notification_id (app s) \<noteq> - 1"
  shows "quorum v (demo_burn i) s"
    and "\<exists>obs. noted_observations (demo_burn i) s = Some obs \<and> submit_observation demo_config v (demo_burn i) s = Ok ()
    (put_history i Success ((advance (cast_vote v (demo_burn i) obs s))\<lparr>
     ext := (ext s)\<lparr>bal := (bal (ext s))(0 := bal (ext s) 0 - 10, 3 := bal (ext s) 3 + 10)\<rparr>,
       events := events s @ [BridgeEvent (Unlocked [97] 3 10 i)]\<rparr>))"
proof -
  have tot: "active_total_stake s = Some 400"
    using active_total_cong [OF assms(1)] demo_votes_stakes(1) by simp
  have stake: "vote_stake v (demo_burn i) s \<in> {300, 350}"
    using assms(6) active_stake_cong [OF assms(1)] by (auto simp: vote_stake_def demo_votes_stakes)
  then show "quorum v (demo_burn i) s" using tot by (auto simp: quorum_def)
  have "index_accepted demo_config (demo_burn i) s"
    using assms(2,3) by (simp add: index_accepted_def demo_config_def demo_app_config_def)
  moreover obtain obs where "noted_observations (demo_burn i) s = Some obs"
    using assms(4) by (cases "demo_burn i \<in> set (observations (app s) BurnType i)")
      (auto simp: noted_observations_def Let_def)
  moreover have "vote_fits demo_config v (demo_burn i) s"
    using assms(5) by (simp add: vote_fits_def demo_config_def demo_app_config_def)
  ultimately show "\<exists>obs. noted_observations (demo_burn i) s = Some obs \<and> submit_observation demo_config v (demo_burn i) s = Ok ()
    (put_history i Success ((advance (cast_vote v (demo_burn i) obs s))\<lparr>
     ext := (ext s)\<lparr>bal := (bal (ext s))(0 := bal (ext s) 0 - 10, 3 := bal (ext s) 3 + 10)\<rparr>,
       events := events s @ [BridgeEvent (Unlocked [97] 3 10 i)]\<rparr>))"
    using tot stake assms(7,8) demo_execute [of "cast_vote v (demo_burn i) obs s" i]
    by (auto simp: submit_observation_eq)
qed

text \<open>Validator 1 submits two notifications ahead of the next one.\<close>

definition demo_payload :: "(bytes, nat) observations_payload" where
  "demo_payload = \<lparr>payload_public = [1], payload_key_data = [1], payload_block_number = 1,
     payload_observations = [demo_burn 1, demo_burn 2]\<rparr>"

lemma recorded_votes_keep_id:
  "next_notification_id (app (s\<lparr>app := (app s)\<lparr>observations := a, observing := b\<rparr>\<rparr>)) = next_notification_id (app s)"
  by simp

lemma demo_two_executed:
  "\<exists>s1 s2. submit_observation demo_config 1 (demo_burn 1) demo_votes = Ok () s1 \<and>
     submit_observation demo_config 1 (demo_burn 2) s1 = Ok () s2 \<and>
     next_notification_id (app s1) = 1 \<and> lpos s1 = lpos demo_votes \<and> bal (ext s1) = (bal demo_ext0)(0 := 990, 3 := 1010) \<and>
     observing (app s1) = (\<lambda>o'. if o' = demo_burn 1 then [1] else []) \<and>
     length (observations (app s1) BurnType 1) < 100 \<and>
     lpos s2 = lpos demo_votes \<and> next_notification_id (app s2) = 2 \<and>
     observing (app s2) = (\<lambda>o'. if o' = demo_burn 1 \<or> o' = demo_burn 2 then [1] else [])"
proof -
  have app: "next_notification_id (app demo_votes) = 0" "observing (app demo_votes) = (\<lambda>o'. [])"
    "observations (app demo_votes) = (\<lambda>t i. [])" "ext demo_votes = demo_ext0"
    by (simp_all add: demo_votes_app demo_app0_def) (simp add: demo_votes_def demo_genesis_def demo_state_def)
  obtain obs where 1: "noted_observations (demo_burn 1) demo_votes = Some obs"
    "submit_observation demo_config 1 (demo_burn 1) demo_votes = Ok ()
      (put_history 1 Success ((advance (cast_vote 1 (demo_burn 1) obs demo_votes))\<lparr>
       ext := (ext demo_votes)\<lparr>bal := (bal (ext demo_votes))(0 := bal (ext demo_votes) 0 - 10, 3 := bal (ext demo_votes) 3 + 10)\<rparr>,
       events := events demo_votes @ [BridgeEvent (Unlocked [97] 3 10 1)]\<rparr>))" (is "_ = Ok () ?s1")
    using demo_submit(2) [of demo_votes 1 1] by (auto simp: app votes_after_def demo_ext0_def)
  have obs: "length (obs BurnType j) \<le> 1" for j
    using 1(1) by (auto simp: noted_observations_def app)
  have s1: "next_notification_id (app ?s1) = 1" "lpos ?s1 = lpos demo_votes" "observations (app ?s1) = obs"
    "observing (app ?s1) = (\<lambda>o'. if o' = demo_burn 1 then [1] else [])" "ext ?s1 = demo_ext0\<lparr>bal := (bal demo_ext0)(0 := 990, 3 := 1010)\<rparr>"
    by (auto simp: put_history_def advance_def app votes_after_def cast_vote_def demo_ext0_def fun_eq_iff)
  have room: "length (obs BurnType j) < 100" for j using obs [of j] by simp
  obtain obs2 where 2: "submit_observation demo_config 1 (demo_burn 2) ?s1 = Ok ()
      (put_history 2 Success ((advance (cast_vote 1 (demo_burn 2) obs2 ?s1))\<lparr>
       ext := (ext ?s1)\<lparr>bal := (bal (ext ?s1))(0 := bal (ext ?s1) 0 - 10, 3 := bal (ext ?s1) 3 + 10)\<rparr>,
       events := events ?s1 @ [BridgeEvent (Unlocked [97] 3 10 2)]\<rparr>))" (is "_ = Ok () ?s2")
    using demo_submit(2) [of ?s1 2 1] unfolding s1 by (auto simp: room votes_after_def demo_ext0_def)
  have "lpos ?s2 = lpos ?s1" "next_notification_id (app ?s2) = 2"
    "observing (app ?s2) = (observing (app ?s1))(demo_burn 2 := [1])"
    unfolding put_history_def advance_def by (simp_all add: votes_after_def app fun_eq_iff)
  then show ?thesis using 1(2) 2 s1 room by (intro exI [of _ ?s1] exI [of _ ?s2]) auto
qed

lemma demo_two_reachable:
  "\<exists>s. lpos_reachable demo_config s \<and> app_reachable demo_config s \<and> lpos s = lpos demo_votes \<and>
     observing (app s) = (\<lambda>o'. if o' = demo_burn 1 \<or> o' = demo_burn 2 then [1] else [])"
proof -
  obtain s1 s2 where s: "submit_observation demo_config 1 (demo_burn 1) demo_votes = Ok () s1"
    "submit_observation demo_config 1 (demo_burn 2) s1 = Ok () s2" "lpos s2 = lpos demo_votes"
    "observing (app s2) = (\<lambda>o'. if o' = demo_burn 1 \<or> o' = demo_burn 2 then [1] else [])"
    using demo_two_executed by blast
  have "is_active_validator demo_config key_type (payload_key_data demo_payload) demo_votes = Some 1"
    by (simp add: is_active_validator_def session_is_active_validator_def demo_payload_def demo_votes_def
        demo_genesis_def demo_simps)
  then have "submit_observations demo_config NoOrigin demo_payload [] demo_votes = Ok () s2"
    using s(1,2) by (simp add: submit_observations_def op_simps for_each_votes demo_payload_def)
  then have "app_reachable demo_config s2" by (rule app_submit [OF demo_votes_reachable(2)])
  moreover have "lpos_reachable demo_config s2" by (rule others [OF demo_votes_reachable(1) s(3)])
  ultimately show ?thesis using s(3,4) by blast
qed

section \<open>Properties\<close>

text \<open>
  C1. In any reachable state, while three times the active total stake fits u128, an accepted vote of a
  validator for an observation runs the observation exactly when the voters recorded for it, the new one
  included and each counted once, hold more than two thirds of the active total stake; otherwise it changes
  nothing except the two vote tables.
\<close>

theorem executes_only_with_two_thirds:
  assumes "lpos_reachable c s" and "app_reachable c s"
    and "active_total_stake s = Some tot" and "3 * unat tot < 2 ^ 128"
    and "submit_observation c v o' s = Ok u s'"
  shows "(if 2 * unat tot < 3 * stake_sum (active_stake_of s) (votes_after v (observing (app s) o'))
     then \<exists>obs. execute_observation c (observation_index o') o' (cast_vote v o' obs s) = Ok () s'
     else \<exists>obs. s' = s\<lparr>app := (app s)\<lparr>observations := obs,
       observing := (observing (app s))(o' := votes_after v (observing (app s) o'))\<rparr>\<rparr>) \<and>
    distinct (votes_after v (observing (app s) o'))"
proof -
  have inv: "votes_inv c s" "stakes_inv (lpos s)"
    by (rule app_reachable_inv [OF assms(2)], rule lpos_reachable_inv [OF assms(1)])
  then have "distinct (votes_after v (observing (app s) o'))" by (simp add: votes_inv_def votes_after_def)
  then show ?thesis
    using assms(5) unfolding quorum_iff [OF inv(2,1) assms(3,4), symmetric]
    by (elim submit_observation_Ok) (auto simp: cast_vote_def split: if_splits)
qed

theorem executes_only_with_two_thirds_witness:
  "\<exists>s' obs. submit_observation demo_config 2 (demo_burn 0) demo_votes = Ok () s' \<and>
     s' = demo_votes\<lparr>app := (app demo_votes)\<lparr>observations := obs, observing := (\<lambda>o'. if o' = demo_burn 0 then [2] else [])\<rparr>\<rparr>"
proof -
  have stake: "vote_stake 2 (demo_burn 0) demo_votes = 50"
    by (simp add: vote_stake_def votes_after_def demo_votes_stakes demo_votes_app demo_app0_def)
  have "\<exists>s'. submit_observation demo_config 2 (demo_burn 0) demo_votes = Ok () s'"
    by (simp add: submit_observation_eq index_accepted_def noted_observations_def vote_fits_def demo_votes_stakes stake
        demo_votes_app demo_app0_def demo_config_def demo_app_config_def Let_def)
  then obtain s' where s': "submit_observation demo_config 2 (demo_burn 0) demo_votes = Ok () s'" ..
  have sum: "stake_sum (active_stake_of demo_votes) (votes_after 2 (observing (app demo_votes) (demo_burn 0))) = 50"
    by (simp add: stake_sum_def votes_after_def demo_votes_stakes demo_votes_app demo_app0_def)
  have "\<exists>obs. s' = demo_votes\<lparr>app := (app demo_votes)\<lparr>observations := obs,
       observing := (observing (app demo_votes))(demo_burn 0 := votes_after 2 (observing (app demo_votes) (demo_burn 0)))\<rparr>\<rparr>"
    using executes_only_with_two_thirds [OF demo_votes_reachable demo_votes_stakes(1) _ s'] sum by simp
  then show ?thesis
    using s' by (auto simp: votes_after_def demo_votes_app demo_app0_def fun_upd_def)
qed

text \<open>
  C9. In reachable states of one era (with the same active stakes, three times their total below 2^128), if
  two accepted votes each have an effect beyond being recorded, which is to say that their observations are
  executed, then the validators that voted for both observations hold more than a third of the active total
  stake.
\<close>

theorem executed_observations_share_a_third:
  assumes "lpos_reachable c s" and "app_reachable c s" and "lpos_reachable c t" and "app_reachable c t"
    and "active_total_stake s = Some tot" and "active_total_stake t = Some tot" and "active_stake_of t = active_stake_of s"
    and "3 * unat tot < 2 ^ 128"
    and "submit_observation c v o1 s = Ok u1 s1"
    and "s1 \<noteq> s\<lparr>app := (app s)\<lparr>observations := observations (app s1), observing := observing (app s1)\<rparr>\<rparr>"
    and "submit_observation c w o2 t = Ok u2 t1"
    and "t1 \<noteq> t\<lparr>app := (app t)\<lparr>observations := observations (app t1), observing := observing (app t1)\<rparr>\<rparr>"
  shows "unat tot < 3 * stake_sum (active_stake_of s)
    (filter (\<lambda>x. x \<in> set (observing (app t1) o2)) (observing (app s1) o1))"
proof -
  have inv: "votes_inv c s" "votes_inv c t" "stakes_inv (lpos s)" "stakes_inv (lpos t)"
    using assms(1-4) by (simp_all add: app_reachable_inv lpos_reachable_inv)
  have voters: "observing (app s1) o1 = votes_after v (observing (app s) o1)"
    "observing (app t1) o2 = votes_after w (observing (app t) o2)"
    by (simp_all add: vote_recorded [OF assms(9)] vote_recorded [OF assms(11)])
  have "distinct (observing (app s1) o1)" "distinct (observing (app t1) o2)"
    unfolding voters using inv(1,2) by (simp_all add: votes_inv_def votes_after_def)
  moreover have "2 * unat tot < 3 * stake_sum (active_stake_of s) (observing (app s1) o1)"
    unfolding voters quorum_iff [OF inv(3,1) assms(5,8), symmetric] by (rule effect_needs_quorum [OF assms(9,10)])
  moreover have "2 * unat tot < 3 * stake_sum (active_stake_of s) (observing (app t1) o2)"
    unfolding voters assms(7) [symmetric] quorum_iff [OF inv(4,2) assms(6,8), symmetric]
    by (rule effect_needs_quorum [OF assms(11,12)])
  ultimately show ?thesis by (rule lpi.quorums_intersect [OF inv(3) assms(5)])
qed

theorem executed_observations_share_a_third_witness:
  "\<exists>s1 s2. submit_observation demo_config 1 (demo_burn 1) demo_votes = Ok () s1 \<and>
     submit_observation demo_config 1 (demo_burn 2) s1 = Ok () s2 \<and> 400 < 3 * stake_sum (active_stake_of demo_votes)
       (filter (\<lambda>x. x \<in> set (observing (app s2) (demo_burn 2))) (observing (app s1) (demo_burn 1)))"
proof -
  obtain s1 s2 where s: "submit_observation demo_config 1 (demo_burn 1) demo_votes = Ok () s1"
    "submit_observation demo_config 1 (demo_burn 2) s1 = Ok () s2" "lpos s1 = lpos demo_votes"
    "next_notification_id (app s1) = 1" "next_notification_id (app s2) = 2"
    using demo_two_executed by blast
  have "is_active_validator demo_config key_type (payload_key_data demo_payload) demo_votes = Some 1"
    by (simp add: is_active_validator_def session_is_active_validator_def demo_payload_def demo_votes_def
        demo_genesis_def demo_simps)
  then have "submit_observations demo_config NoOrigin (demo_payload\<lparr>payload_observations := [demo_burn 1]\<rparr>) [] demo_votes = Ok () s1"
    using s(1) by (simp add: submit_observations_def op_simps for_each_votes demo_payload_def)
  then have reach: "app_reachable demo_config s1" "lpos_reachable demo_config s1"
    by (rule app_submit [OF demo_votes_reachable(2)]) (rule others [OF demo_votes_reachable(1) s(3)])
  have next0: "next_notification_id (app demo_votes) = 0" by (simp add: demo_votes_app demo_app0_def)
  have effects: "s1 \<noteq> demo_votes\<lparr>app := (app demo_votes)\<lparr>observations := a, observing := b\<rparr>\<rparr>"
    "s2 \<noteq> s1\<lparr>app := (app s1)\<lparr>observations := a, observing := b\<rparr>\<rparr>" for a b
    using s(4,5) next0 recorded_votes_keep_id [where s = demo_votes and a = a and b = b]
      recorded_votes_keep_id [where s = s1 and a = a and b = b] by auto
  have "unat (400 :: u128) < 3 * stake_sum (active_stake_of demo_votes)
       (filter (\<lambda>x. x \<in> set (observing (app s2) (demo_burn 2))) (observing (app s1) (demo_burn 1)))"
    using executed_observations_share_a_third [OF demo_votes_reachable reach(2,1) demo_votes_stakes(1) _ _ _ s(1) effects(1) s(2) effects(2)]
      active_total_cong [OF s(3)] active_stake_cong [OF s(3)] demo_votes_stakes(1) by simp
  then show ?thesis using s(1,2) by (intro exI [of _ s1] exI [of _ s2]) simp
qed

text \<open>
  C34. In every reachable state a validator appears at most once among the voters of an observation, voters
  and competing observations stay within MaxValidators and 100, every observation is filed under its own
  type and index, and each one that has voters is filed.
\<close>

theorem validators_vote_once:
  assumes "app_reachable c s"
  shows "distinct (observing (app s) o') \<and> length (observing (app s) o') \<le> unat (max_validators (app_cfg c)) \<and>
    distinct (observations (app s) t i) \<and> length (observations (app s) t i) \<le> unat max_observations \<and>
    (\<forall>p \<in> set (observations (app s) t i). get_observation_type p = t \<and> observation_index p = i) \<and>
    (observing (app s) o' \<noteq> [] \<longrightarrow> o' \<in> set (observations (app s) (get_observation_type o') (observation_index o')))"
  using app_reachable_inv [OF assms] unfolding votes_inv_def max_observations_def by simp

theorem validators_vote_once_witness:
  "\<exists>s :: (nat, u128, demo_ext) runtime. observing (app s) (demo_burn 1) = [1] \<and> length (observations (app s) BurnType 1) \<le> 100 \<and>
     demo_burn 1 \<in> set (observations (app s) BurnType 1)"
proof -
  obtain s where s: "app_reachable demo_config s"
    "observing (app s) = (\<lambda>o'. if o' = demo_burn 1 \<or> o' = demo_burn 2 then [1] else [])"
    using demo_two_reachable by blast
  show ?thesis
    using validators_vote_once [OF s(1), of "demo_burn 1" BurnType 1] s(2)
    by (intro exI [of _ s]) (simp add: max_observations_def)
qed

text \<open>
  C13. A notification executed when its index is the next expected one advances the expected index by one,
  and no later sequence of votes makes any notification with that index acceptable again: every further vote
  for it fails with InvalidNotificationId.
\<close>

theorem executed_in_order_never_again:
  assumes "get_observation_type o' \<noteq> UpdateValidatorSetType"
    and "observation_index o' = next_notification_id (app s)" and "quorum v o' s"
    and "submit_observation c v o' s = Ok u s1" and "vote_run c votes s1 = Some s2"
    and "get_observation_type p \<noteq> UpdateValidatorSetType" and "observation_index p = observation_index o'"
  shows "submit_observation c w p s2 = Err (AppchainError InvalidNotificationId) s2 \<and>
    next_notification_id (app s1) = next_notification_id (app s) + 1"
proof -
  have "unat (next_notification_id (app s1)) = Suc (unat (next_notification_id (app s)))"
    using next_id_step [OF assms(4)] assms(1,3) by (simp add: is_notification_def)
  moreover have "unat (next_notification_id (app s1)) \<le> unat (next_notification_id (app s2))"
    by (rule next_id_grows [OF assms(5)])
  moreover have "next_notification_id (app s1) = next_notification_id (app s) + 1"
    using assms(4) by (rule submit_observation_Ok)
      (use execute_Ok assms(1,3) in \<open>fastforce simp: is_notification_def\<close>)
  ultimately show ?thesis
    using old_index_refused [of p s2 c w] assms(2,6,7) by (simp add: is_notification_def)
qed

theorem executed_in_order_never_again_witness:
  "\<exists>s1. submit_observation demo_config 1 (demo_burn 0) demo_votes = Ok () s1 \<and>
     submit_observation demo_config 2 (demo_burn 0) s1 = Err (AppchainError InvalidNotificationId) s1"
proof -
  have app: "next_notification_id (app demo_votes) = 0" "observing (app demo_votes) = (\<lambda>o'. [])"
    "observations (app demo_votes) = (\<lambda>t i. [])" "ext demo_votes = demo_ext0"
    by (simp_all add: demo_votes_app demo_app0_def) (simp add: demo_votes_def demo_genesis_def demo_state_def)
  have q: "quorum 1 (demo_burn 0) demo_votes"
    by (rule demo_submit(1)) (simp_all add: app votes_after_def demo_ext0_def)
  obtain s1 where s1: "submit_observation demo_config 1 (demo_burn 0) demo_votes = Ok () s1"
    using demo_submit(2) [of demo_votes 0 1] by (auto simp: app votes_after_def demo_ext0_def)
  have "vote_run demo_config [] s1 = Some s1" by simp
  from executed_in_order_never_again [OF _ _ q s1 this, of "demo_burn 0" 2] show ?thesis
    using s1 by (simp add: app)
qed

text \<open>
  C20. A notification that reaches two thirds while its index is ahead of the next expected one is executed
  but only advances the expected index by one: its own index is still accepted afterwards, so that one more
  vote executes it again (the witness pays it out twice), and the notification whose turn it was is refused
  with InvalidNotificationId.
\<close>

theorem out_of_order_is_executed_again:
  assumes "get_observation_type o' \<noteq> UpdateValidatorSetType"
    and "next_notification_id (app s) < observation_index o'"
    and "unat (next_notification_id (app s)) + unat (request_event_limit (app_cfg c)) + 1 < 2 ^ 32"
    and "quorum v o' s" and "submit_observation c v o' s = Ok u s1"
  shows "index_accepted c o' s1 \<and>
    (\<forall>p w. get_observation_type p \<noteq> UpdateValidatorSetType \<longrightarrow> observation_index p = next_notification_id (app s) \<longrightarrow>
       submit_observation c w p s1 = Err (AppchainError InvalidNotificationId) s1)"
proof -
  let ?n = "next_notification_id (app s)" and ?l = "request_event_limit (app_cfg c)"
  have n1: "unat (next_notification_id (app s1)) = Suc (unat ?n)"
    using next_id_step [OF assms(5)] assms(1,4) by (simp add: is_notification_def)
  have "index_accepted c o' s" using assms(5) by (elim submit_observation_Ok)
  then have "observation_index o' < ?n + ?l" using assms(1) by (simp add: index_accepted_def)
  moreover have "unat (?n + ?l) = unat ?n + unat ?l" "unat (next_notification_id (app s1) + ?l) = Suc (unat ?n) + unat ?l"
    using assms(3) n1 by (simp_all add: unat_word_ariths)
  ultimately have "index_accepted c o' s1"
    using assms(1,2) n1 by (simp add: index_accepted_def word_less_nat_alt word_le_nat_alt)
  moreover have "submit_observation c w p s1 = Err (AppchainError InvalidNotificationId) s1"
    if "get_observation_type p \<noteq> UpdateValidatorSetType" "observation_index p = ?n" for p w
    using that n1 by (intro old_index_refused) (simp_all add: is_notification_def)
  ultimately show ?thesis by blast
qed

theorem out_of_order_is_executed_again_witness:
  "\<exists>s1 s2. submit_observation demo_config 1 (demo_burn 1) demo_votes = Ok () s1 \<and>
     index_accepted demo_config (demo_burn 1) s1 \<and> submit_observation demo_config 2 (demo_burn 1) s1 = Ok () s2 \<and>
     bal (ext s2) 3 = bal (ext demo_votes) 3 + 20 \<and>
     submit_observation demo_config 1 (demo_burn 0) s1 = Err (AppchainError InvalidNotificationId) s1"
proof -
  obtain s1 where s1: "submit_observation demo_config 1 (demo_burn 1) demo_votes = Ok () s1"
    "next_notification_id (app s1) = 1" "lpos s1 = lpos demo_votes" "bal (ext s1) = (bal demo_ext0)(0 := 990, 3 := 1010)"
    "observing (app s1) = (\<lambda>o'. if o' = demo_burn 1 then [1] else [])" "length (observations (app s1) BurnType 1) < 100"
    using demo_two_executed by blast
  have app: "next_notification_id (app demo_votes) = 0" "observing (app demo_votes) = (\<lambda>o'. [])"
    "observations (app demo_votes) = (\<lambda>t i. [])" "ext demo_votes = demo_ext0"
    by (simp_all add: demo_votes_app demo_app0_def) (simp add: demo_votes_def demo_genesis_def demo_state_def)
  have q: "quorum 1 (demo_burn 1) demo_votes"
    by (rule demo_submit(1)) (simp_all add: app votes_after_def demo_ext0_def)
  have again: "index_accepted demo_config (demo_burn 1) s1 \<and>
      submit_observation demo_config 1 (demo_burn 0) s1 = Err (AppchainError InvalidNotificationId) s1"
    using out_of_order_is_executed_again [OF _ _ _ q s1(1)]
    by (auto simp: app demo_config_def demo_app_config_def)
  obtain s2 where "submit_observation demo_config 2 (demo_burn 1) s1 = Ok () s2" "bal (ext s2) 3 = 1020"
    using demo_submit(2) [OF s1(3), of 1 2]
    by (auto simp: s1 votes_after_def demo_ext0_def put_history_def advance_def)
  moreover have "bal (ext demo_votes) 3 = 1000" by (simp add: app demo_ext0_def)
  ultimately show ?thesis using s1(1) again by auto
qed

text \<open>
  C30. An executed notification makes exactly the bridge call its variant asks for, on the state with the
  vote recorded and the expected index advanced; the history of its index then holds Success if that call
  succeeded, and otherwise the failure result of its variant together with the variant's failure event.
\<close>

theorem executed_notification_is_recorded:
  assumes "get_observation_type o' \<noteq> UpdateValidatorSetType" and "quorum v o' s"
    and "submit_observation c v o' s = Ok u s'"
  shows "\<exists>obs. let t = cast_vote v o' obs s; t' = t\<lparr>app := (app t)\<lparr>next_notification_id := next_notification_id (app s) + 1\<rparr>\<rparr> in
    case bridge_request c o' t' of
      Ok _ w \<Rightarrow> s' = w\<lparr>app := (app w)\<lparr>notification_history :=
          (notification_history (app s))(observation_index o' := Some Success)\<rparr>\<rparr>
    | Err _ w \<Rightarrow> s' = w\<lparr>events := events w @ [AppchainEvent (failure_event o')],
        app := (app w)\<lparr>notification_history :=
          (notification_history (app s))(observation_index o' := Some (failure_result o'))\<rparr>\<rparr>
    | Panic \<Rightarrow> False" (is "\<exists>obs. ?P obs")
proof -
  have n: "is_notification o'" using assms(1) by (simp add: is_notification_def)
  obtain obs where exec: "execute_observation c (observation_index o') o' (cast_vote v o' obs s) = Ok () s'"
    using assms(2,3) by (elim submit_observation_Ok) auto
  have adv: "advance (cast_vote v o' obs s) =
      (cast_vote v o' obs s)\<lparr>app := (app (cast_vote v o' obs s))\<lparr>next_notification_id := next_notification_id (app s) + 1\<rparr>\<rparr>"
    by (simp add: advance_def)
  have "?P obs"
  proof (cases "bridge_request c o' (advance (cast_vote v o' obs s))")
    case (Ok x w)
    have "app w = app (advance (cast_vote v o' obs s))" by (rule bridge_request_keeps) (rule disjI1 [OF Ok])
    then have "notification_history (app w) = notification_history (app s)" by (simp add: advance_def)
    then show ?thesis
      using exec Ok unfolding execute_notification [OF n] Let_def adv [symmetric]
      by (simp add: put_history_def split: if_splits)
  next
    case (Err e w)
    have "app w = app (advance (cast_vote v o' obs s))" by (rule bridge_request_keeps) (rule disjI2 [OF Err])
    then have "notification_history (app w) = notification_history (app s)" by (simp add: advance_def)
    then show ?thesis
      using exec Err unfolding execute_notification [OF n] Let_def adv [symmetric]
      by (simp add: put_history_def split: if_splits)
  qed (use exec in \<open>simp add: execute_notification [OF n] split: if_splits\<close>)
  then show ?thesis by (rule exI [where P = ?P])
qed

theorem executed_notification_is_recorded_witness:
  "\<exists>s'. submit_observation demo_config 1 (demo_burn 0) demo_votes = Ok () s' \<and>
     notification_history (app s') 0 = Some Success"
proof -
  have app: "next_notification_id (app demo_votes) = 0" "observing (app demo_votes) = (\<lambda>o'. [])"
    "observations (app demo_votes) = (\<lambda>t i. [])" "ext demo_votes = demo_ext0"
    by (simp_all add: demo_votes_app demo_app0_def) (simp add: demo_votes_def demo_genesis_def demo_state_def)
  have q: "quorum 1 (demo_burn 0) demo_votes"
    by (rule demo_submit(1)) (simp_all add: app votes_after_def demo_ext0_def)
  obtain s' where s': "submit_observation demo_config 1 (demo_burn 0) demo_votes = Ok () s'"
    using demo_submit(2) [of demo_votes 0 1] by (auto simp: app votes_after_def demo_ext0_def)
  have money: "10 < bal (ext (cast_vote 1 (demo_burn 0) obs demo_votes\<lparr>app := a\<rparr>)) 0" for obs a
    by (simp add: app demo_ext0_def)
  show ?thesis
    using executed_notification_is_recorded [OF _ q s'] s' demo_unlock [OF money] by (auto simp: Let_def)
qed

text \<open>
  C29. When a vote completes the two thirds for a validator set, its set id was the next one, the planned
  validators become the accounts and stakes of the set, the event announces them under the old id, the next
  id grows by one, notifications and balances are untouched, and a vote for that set id is refused
  afterwards.
\<close>

theorem validator_set_update:
  assumes "quorum v (UpdateValidatorSet vs) s" and "submit_observation c v (UpdateValidatorSet vs) s = Ok u s'"
  shows "set_id vs = next_set_id (app s) \<and> unat (next_set_id (app s')) = Suc (unat (next_set_id (app s))) \<and>
    planned_validators (app s') = map (\<lambda>w. (validator_id_in_appchain w, validator_total_stake w)) (validators vs) \<and>
    events s' = events s @ [AppchainEvent (NewPlannedValidators (set_id vs) (planned_validators (app s')))] \<and>
    next_notification_id (app s') = next_notification_id (app s) \<and> ext s' = ext s \<and>
    (\<forall>w ws. set_id ws = set_id vs \<longrightarrow>
       submit_observation c w (UpdateValidatorSet ws) s' = Err (AppchainError WrongSetId) s')"
  using assms(2)
proof (rule submit_observation_Ok)
  fix obs assume idx: "index_accepted c (UpdateValidatorSet vs) s"
    and exec: "if quorum v (UpdateValidatorSet vs) s
      then execute_observation c (observation_index (UpdateValidatorSet vs)) (UpdateValidatorSet vs)
          (cast_vote v (UpdateValidatorSet vs) obs s) = Ok () s'
      else s' = cast_vote v (UpdateValidatorSet vs) obs s"
  have id: "set_id vs = next_set_id (app s)" using idx by (simp add: index_accepted_def)
  have s': "next_set_id (app s) \<noteq> - 1" "next_set_id (app s') = next_set_id (app s) + 1"
    "planned_validators (app s') = map (\<lambda>w. (validator_id_in_appchain w, validator_total_stake w)) (validators vs)"
    "events s' = events s @ [AppchainEvent (NewPlannedValidators (set_id vs) (planned_validators (app s')))]"
    "next_notification_id (app s') = next_notification_id (app s)" "ext s' = ext s"
    using exec assms(1) id
    by (auto simp: execute_validator_set simp del: execute_observation.simps split: if_splits)
  have "submit_observation c w (UpdateValidatorSet ws) s' = Err (AppchainError WrongSetId) s'"
    if "set_id ws = set_id vs" for w ws
    using that id s'(2) by (simp add: submit_observation_eq index_accepted_def index_error_def)
  then show ?thesis using s' id unat_succ [OF s'(1)] by simp
qed

theorem validator_set_update_witness:
  "\<exists>s'. submit_observation demo_config 1 (UpdateValidatorSet demo_set) demo_votes = Ok () s' \<and>
     planned_validators (app s') = [(2, 500)] \<and> unat (next_set_id (app s')) = 2"
proof -
  let ?o = "UpdateValidatorSet demo_set"
  have stake: "vote_stake 1 ?o demo_votes = 300"
    by (simp add: vote_stake_def votes_after_def demo_votes_stakes demo_votes_app demo_app0_def)
  then have q: "quorum 1 ?o demo_votes" by (simp add: quorum_def demo_votes_stakes)
  have "\<exists>s'. submit_observation demo_config 1 ?o demo_votes = Ok () s'"
    using stake
    by (simp add: submit_observation_eq index_accepted_def noted_observations_def vote_fits_def demo_votes_stakes
        execute_validator_set demo_votes_app demo_app0_def demo_set_def demo_config_def demo_app_config_def Let_def
        del: execute_observation.simps)
  then obtain s' where s': "submit_observation demo_config 1 ?o demo_votes = Ok () s'" ..
  show ?thesis
    using validator_set_update [OF q s'] s' by (simp add: demo_set_def demo_votes_app demo_app0_def)
qed

text \<open>
  submit_observations accepts only unsigned origins and payloads whose key belongs to an active
  validator, and then submits the payload's observations in order as votes of that validator; refused ones
  are skipped and do not fail the call.
\<close>

theorem submit_observations_outcome:
  "submit_observations c org p sig s =
     (if org \<noteq> NoOrigin then Err BadOrigin s
      else case is_active_validator c key_type (payload_key_data p) s of
        None \<Rightarrow> Err (AppchainError NotValidator) s
      | Some v \<Rightarrow> (case vote_run c (map (Pair v) (payload_observations p)) s of
          Some t \<Rightarrow> Ok () t | None \<Rightarrow> Panic))"
  by (cases org) (auto simp: submit_observations_def op_simps for_each_votes split: option.split)

text \<open>
  The transaction pool accepts an unsigned call exactly when it is submit_observations with a valid
  signature and a block number that is not in the future, and it provides the tag of the signer's account,
  with longevity 5 and the configured priority.
\<close>

theorem validate_unsigned_accepts:
  "validate_unsigned c m s = Inr t \<longleftrightarrow>
     (\<exists>p sig. m = SubmitObservations p sig \<and> verify_payload (app_cfg c) p sig \<and>
        payload_block_number p \<le> block_number s \<and>
        t = \<lparr>tag_prefix = str_bytes ''OctopusAppchain'', provides = public_into_account (app_cfg c) (payload_public p),
           priority = unsigned_priority (app_cfg c), longevity = 5, propagate = True\<rparr>)"
  by (cases m) (auto simp: validate_transaction_parameters_def Let_def)

end
