(* ===== verification/Appchain_Liveness.thy ===== *)
theory Appchain_Liveness
  imports Appchain_Properties
begin

text \<open>
  When a notification takes effect: as soon as validators with more than two thirds of the active
  stake have voted for the notification whose turn it is, it is executed, and only once.
\<close>

section \<open>A vote for the notification whose turn it is\<close>

definition voters_after :: "'a list \<Rightarrow> 'a list \<Rightarrow> 'a list" where
  "voters_after vs ws = fold votes_after vs ws"

lemma voters_after_simps [simp]:
  "voters_after [] ws = ws" "voters_after (v # vs) ws = voters_after vs (votes_after v ws)"
  by (simp_all add: voters_after_def)

lemma length_voters_after: "length ws \<le> length (voters_after vs ws)"
proof (induction vs arbitrary: ws)
  case (Cons v vs)
  have "length ws \<le> length (votes_after v ws)" by (simp add: votes_after_def)
  also have "\<dots> \<le> length (voters_after vs (votes_after v ws))" by (rule Cons.IH)
  finally show ?case by simp
qed simp

text \<open>It is this notification's turn, and there is room for the votes.\<close>

definition its_turn :: "('a, 'b, 'x) config \<Rightarrow> 'a observation \<Rightarrow> ('a, 'b, 'x) runtime \<Rightarrow> bool" where
  "its_turn c o' s \<longleftrightarrow> is_notification o' \<and> observation_index o' = next_notification_id (app s) \<and>
     0 < request_event_limit (app_cfg c) \<and>
     unat (next_notification_id (app s)) + unat (request_event_limit (app_cfg c)) < 2 ^ 32 \<and>
     noted_observations o' s \<noteq> None"

lemma its_turn_accepted:
  assumes "its_turn c o' s"
  shows "index_accepted c o' s" and "next_notification_id (app s) \<noteq> - 1"
proof -
  let ?n = "next_notification_id (app s)" and ?l = "request_event_limit (app_cfg c)"
  have "unat (?n + ?l) = unat ?n + unat ?l" "0 < unat ?l"
    using assms by (simp_all add: its_turn_def unat_word_ariths unat_gt_0 word_gt_0)
  then show "index_accepted c o' s"
    using assms by (simp add: its_turn_def index_accepted_def is_notification_def word_less_nat_alt)
  show "?n \<noteq> - 1"
    using unat_succ_eq [of ?n] \<open>0 < unat ?l\<close> assms by (auto simp: its_turn_def)
qed

lemma noted_after_cast:
  assumes "noted_observations o' s = Some obs"
  shows "noted_observations o' (cast_vote v o' obs s) \<noteq> None"
proof -
  have "observations (app (cast_vote v o' obs s)) = obs" by (simp add: cast_vote_def)
  then show ?thesis
    using assms by (auto simp: noted_observations_def Let_def split: if_splits)
qed

lemma execute_notification_Ok:
  assumes "is_notification o'" "next_notification_id (app s) \<noteq> - 1" "outside_returns (bridge_cfg c)"
  shows "\<exists>t. execute_observation c i o' s = Ok () t"
  using assms bridge_request_returns [OF assms(3), of o' "advance s"]
  by (auto simp: execute_notification split: outcome.splits)

lemma vote_when_its_turn:
  assumes turn: "its_turn c o' s" and fits: "vote_fits c v o' s"
    and tot: "active_total_stake s = Some tot" and out: "outside_returns (bridge_cfg c)"
  shows "(quorum v o' s \<and> (\<exists>t. submit_observation c v o' s = Ok () t)) \<or>
    (\<not> quorum v o' s \<and> (\<exists>obs. noted_observations o' s = Some obs \<and>
       submit_observation c v o' s = Ok () (cast_vote v o' obs s)))"
proof -
  obtain obs where obs: "noted_observations o' s = Some obs" using turn by (auto simp: its_turn_def)
  have "is_notification o'" using turn by (simp add: its_turn_def)
  then have "\<exists>t. execute_observation c (observation_index o') o' (cast_vote v o' obs s) = Ok () t"
    using its_turn_accepted(2) [OF turn] out by (intro execute_notification_Ok) simp_all
  then show ?thesis
    using its_turn_accepted(1) [OF turn] fits tot obs
    by (auto simp: submit_observation_eq quorum_def)
qed

lemma refused_votes:
  assumes "is_notification o'" "unat (observation_index o') < unat (next_notification_id (app s))"
  shows "vote_run c (map (\<lambda>v. (v, o')) vs) s = Some s"
  by (induction vs) (simp_all add: old_index_refused [OF assms])

text \<open>What a quorum has done: the index advanced by one, and the result is recorded.\<close>

definition executed_once :: "'a observation \<Rightarrow> ('a, 'b, 'x) runtime \<Rightarrow> ('a, 'b, 'x) runtime \<Rightarrow> bool" where
  "executed_once o' s s' \<longleftrightarrow> next_notification_id (app s') = next_notification_id (app s) + 1 \<and>
     (\<exists>r \<in> {Success, failure_result o'}.
        notification_history (app s') = (notification_history (app s))(observation_index o' := Some r))"

lemma quorum_executes:
  assumes "is_notification o'" "quorum v o' s" "submit_observation c v o' s = Ok () t"
  shows "executed_once o' s t"
  using assms(3)
proof (rule submit_observation_Ok)
  fix obs assume "if quorum v o' s
    then execute_observation c (observation_index o') o' (cast_vote v o' obs s) = Ok () t else t = cast_vote v o' obs s"
  then show ?thesis
    using execute_Ok [of c "observation_index o'" o' "cast_vote v o' obs s" "()" t] assms(1,2)
    by (simp add: executed_once_def)
qed

lemma quorum_is_reached:
  assumes "vs \<noteq> []" and "its_turn c o' s" and "votes_inv c s" and "stakes_inv (lpos s)"
    and "length (voters_after vs (observing (app s) o')) \<le> unat (max_validators (app_cfg c))"
    and "active_total_stake s = Some tot" and "3 * unat tot < 2 ^ 128" and "outside_returns (bridge_cfg c)"
    and "2 * unat tot < 3 * stake_sum (active_stake_of s) (voters_after vs (observing (app s) o'))"
  shows "\<exists>s'. vote_run c (map (\<lambda>v. (v, o')) vs) s = Some s' \<and> executed_once o' s s'"
  using assms
proof (induction vs arbitrary: s)
  case (Cons v vs)
  note turn = Cons.prems(2) and tot = Cons.prems(6)
  have n: "is_notification o'" using turn by (simp add: its_turn_def)
  have "length (votes_after v (observing (app s) o')) \<le> unat (max_validators (app_cfg c))"
    using Cons.prems(5) length_voters_after [of "votes_after v (observing (app s) o')" vs] by simp
  then have fits: "vote_fits c v o' s" by (auto simp: vote_fits_def votes_after_def split: if_splits)
  note q = quorum_iff [OF Cons.prems(4,3) tot Cons.prems(7), of v o']
  from vote_when_its_turn [OF turn fits tot Cons.prems(8)] show ?case
  proof (elim disjE conjE exE)
    fix t assume "quorum v o' s" and t: "submit_observation c v o' s = Ok () t"
    then have once: "executed_once o' s t" by (intro quorum_executes [OF n])
    then have "next_notification_id (app t) = next_notification_id (app s) + 1" by (simp add: executed_once_def)
    then have "unat (observation_index o') < unat (next_notification_id (app t))"
      using turn unat_succ [OF its_turn_accepted(2) [OF turn]] by (simp add: its_turn_def)
    from refused_votes [OF n this, of c vs] t once show ?thesis by simp
  next
    fix obs assume nq: "\<not> quorum v o' s" and obs: "noted_observations o' s = Some obs"
      and t: "submit_observation c v o' s = Ok () (cast_vote v o' obs s)" (is "_ = Ok () ?t")
    have "vs \<noteq> []" using nq q Cons.prems(9) by auto
    moreover have "its_turn c o' ?t" using turn noted_after_cast [OF obs] by (simp add: its_turn_def)
    moreover have "votes_inv c ?t" by (rule votes_inv_cast [OF Cons.prems(3) obs fits])
    moreover have "active_total_stake ?t = Some tot" "active_stake_of ?t = active_stake_of s"
      using tot active_total_cong [of ?t s] active_stake_cong [of ?t s] by simp_all
    ultimately have "\<exists>s'. vote_run c (map (\<lambda>v. (v, o')) vs) ?t = Some s' \<and> executed_once o' ?t s'"
      using Cons.prems by (intro Cons.IH) simp_all
    with t show ?thesis by (simp add: executed_once_def)
  qed
qed simp

section \<open>Properties\<close>

text \<open>
  C8. When validators with more than two thirds of the active stake, at most MaxValidators voters in all,
  vote for the notification whose turn it is, in any order and among earlier votes for it, it is executed
  and its result recorded exactly once, although votes follow that reach the quorum again. This needs room
  among the 100 observations of its type and index, unless it is already filed, a non-zero RequestEventLimit
  whose sum with the index fits u32, three times the stake below 2^128, and outside pallets that do not
  panic.
\<close>

theorem two_thirds_execute_the_next_notification:
  assumes "lpos_reachable c s" and "app_reachable c s"
    and "active_total_stake s = Some tot" and "3 * unat tot < 2 ^ 128" and "outside_returns (bridge_cfg c)"
    and "get_observation_type o' \<noteq> UpdateValidatorSetType" and "observation_index o' = next_notification_id (app s)"
    and "0 < request_event_limit (app_cfg c)"
    and "unat (next_notification_id (app s)) + unat (request_event_limit (app_cfg c)) < 2 ^ 32"
    and "o' \<in> set (observations (app s) (get_observation_type o') (observation_index o')) \<or>
      length (observations (app s) (get_observation_type o') (observation_index o')) < unat max_observations"
    and "vs \<noteq> []"
    and "length (voters_after vs (observing (app s) o')) \<le> unat (max_validators (app_cfg c))"
    and "2 * unat tot < 3 * stake_sum (active_stake_of s) (voters_after vs (observing (app s) o'))"
  shows "\<exists>s'. vote_run c (map (\<lambda>v. (v, o')) vs) s = Some s' \<and>
    next_notification_id (app s') = next_notification_id (app s) + 1 \<and>
    (\<exists>r \<in> {Success, failure_result o'}.
       notification_history (app s') = (notification_history (app s))(observation_index o' := Some r))"
proof -
  have "its_turn c o' s"
    using assms(6-10) by (auto simp: its_turn_def is_notification_def noted_observations_def Let_def max_observations_def)
  from quorum_is_reached [OF assms(11) this app_reachable_inv [OF assms(2)] lpos_reachable_inv [OF assms(1)]
      assms(12,3-5,13)]
  show ?thesis unfolding executed_once_def .
qed

theorem two_thirds_execute_the_next_notification_witness:
  "\<exists>s'. vote_run demo_config [(2, demo_burn 0), (1, demo_burn 0), (3, demo_burn 0)] demo_votes = Some s' \<and>
    next_notification_id (app s') = 1 \<and> notification_history (app s') 0 \<noteq> None"
proof -
  have app: "next_notification_id (app demo_votes) = 0" "observing (app demo_votes) = (\<lambda>o'. [])"
    "observations (app demo_votes) = (\<lambda>t i. [])"
    by (simp_all add: demo_votes_app demo_app0_def)
  have cfg: "request_event_limit (app_cfg demo_config) = 10" "max_validators (app_cfg demo_config) = 5"
    by (simp_all add: demo_config_def demo_app_config_def)
  note out = demo_outside_returns
  have voters: "voters_after [2, 1, 3] (observing (app demo_votes) (demo_burn 0)) = [2, 1, 3]"
    by (simp add: app votes_after_def)
  show ?thesis
    using two_thirds_execute_the_next_notification [OF demo_votes_reachable demo_votes_stakes(1) _ out,
      of "demo_burn 0" "[2, 1, 3]"]
    unfolding voters by (auto simp: cfg app max_observations_def stake_sum_def demo_votes_stakes simp del: vote_run.simps)
qed

section \<open>A full list of observations\<close>








end
