(* ===== verification/Worker_To_Chain.thy ===== *)
theory Worker_To_Chain
  imports Worker_Properties Appchain_Liveness
begin

text \<open>
  From the offchain worker to the chain: what a worker puts into the transaction pool is a valid
  transaction, its dispatch succeeds, and it counts as the validator's votes.
\<close>

section \<open>Votes stay\<close>

lemma vote_run_append:
  "vote_run c (xs @ ys) s = (case vote_run c xs s of None \<Rightarrow> None | Some t \<Rightarrow> vote_run c ys t)"
  by (induction c xs s rule: vote_run.induct) (auto split: outcome.split)

lemma votes_stay:
  assumes "vote_run c vs s = Some t" and "v \<in> set (observing (app s) o')"
  shows "v \<in> set (observing (app t) o')"
  using assms by (rule vote_run_induct) (auto simp: vote_recorded votes_after_def)

text \<open>
  Every observation of a payload is voted for, unless it is refused at the state that the votes before it
  have led to.
\<close>

definition votes_counted :: "('a, 'b, 'x) config \<Rightarrow> 'a \<Rightarrow> 'a observation list \<Rightarrow> ('a, 'b, 'x) runtime
    \<Rightarrow> ('a, 'b, 'x) runtime \<Rightarrow> bool" where
  "votes_counted c v os s t \<longleftrightarrow> (\<forall>pre o' post. os = pre @ o' # post \<longrightarrow>
     (\<exists>s1. vote_run c (map (Pair v) pre) s = Some s1 \<and>
       ((\<exists>e. submit_observation c v o' s1 = Err e s1) \<or> v \<in> set (observing (app t) o'))))"

lemma vote_counts:
  assumes "vote_run c (map (Pair v) os) s = Some t"
  shows "votes_counted c v os s t"
  unfolding votes_counted_def
proof (intro allI impI)
  fix pre o' post assume "os = pre @ o' # post"
  then obtain s1 where s1: "vote_run c (map (Pair v) pre) s = Some s1"
    "vote_run c (map (Pair v) (o' # post)) s1 = Some t"
    using assms by (auto simp: vote_run_append simp del: vote_run.simps split: option.splits)
  show "\<exists>s1. vote_run c (map (Pair v) pre) s = Some s1 \<and>
      ((\<exists>e. submit_observation c v o' s1 = Err e s1) \<or> v \<in> set (observing (app t) o'))"
  proof (cases "submit_observation c v o' s1")
    case (Ok u s2)
    then have "vote_run c (map (Pair v) post) s2 = Some t" using s1(2) by simp
    moreover have "v \<in> set (observing (app s2) o')" by (simp add: vote_recorded [OF Ok] votes_after_def)
    ultimately have "v \<in> set (observing (app t) o')" by (rule votes_stay)
    then show ?thesis using s1(1) by simp
  next
    case (Err e s2)
    then show ?thesis using s1(1) submit_observation_Err [OF Err] by simp
  qed (use s1(2) in simp)
qed

text \<open>A vote for a validator set is accepted when its set id is the next one and there is room for it.\<close>

definition set_vote_fits :: "('a, 'b, 'x) config \<Rightarrow> 'a \<Rightarrow> 'a observation \<Rightarrow> ('a, 'b, 'x) runtime \<Rightarrow> bool" where
  "set_vote_fits c v o' s \<longleftrightarrow> noted_observations o' s \<noteq> None \<and> vote_fits c v o' s \<and>
     active_total_stake s \<noteq> None \<and> next_set_id (app s) \<noteq> - 1"

lemma set_vote_accepted:
  assumes "get_observation_type o' = UpdateValidatorSetType" and "observation_index o' = next_set_id (app s)"
    and "set_vote_fits c v o' s"
  shows "\<exists>t. submit_observation c v o' s = Ok () t"
proof -
  obtain vs where "o' = UpdateValidatorSet vs" using assms(1) by (cases o') simp_all
  then show ?thesis
    using assms
    by (auto simp: submit_observation_eq index_accepted_def set_vote_fits_def execute_validator_set
        simp del: execute_observation.simps)
qed

section \<open>Properties\<close>

text \<open>
  C10. With a pool that adds what is sent to it and outside pallets that do not panic, the call that a run
  of the offchain worker adds to the pool is accepted by the validation of unsigned transactions in any
  state whose block number is not smaller and in which the same keys are active, and its dispatch succeeds
  there: every observation in it has the validator among its voters afterwards or was refused in its turn;
  and a validator set, if the next set id is still the one the worker saw and there is room for the vote, is
  not refused.
\<close>

theorem worker_votes_count_on_chain:
  assumes "pool_ok c h pool" and "offchain_worker c h s now w = Ok () w'" and "pool w' \<noteq> pool w"
    and "now \<le> block_number t"
    and "\<And>k. is_active_validator c key_type k t = is_active_validator c key_type k s"
    and "outside_returns (bridge_cfg c)"
  shows "\<exists>p sig v t'. pool w' = pool w @ [SubmitObservations p sig] \<and>
    (\<exists>x. validate_unsigned c (SubmitObservations p sig) t = Inr x) \<and>
    is_active_validator c key_type (payload_key_data p) t = Some v \<and>
    appchain_dispatch c NoOrigin (SubmitObservations p sig) t = Ok () t' \<and>
    votes_counted c v (payload_observations p) t t' \<and>
    (\<forall>o' \<in> set (payload_observations p). get_observation_type o' = UpdateValidatorSetType \<longrightarrow>
       next_set_id (app t) = next_set_id (app s) \<longrightarrow> set_vote_fits c v o' t \<longrightarrow> v \<in> set (observing (app t') o'))"
proof -
  from offchain_worker_sent [OF assms(1,2)] assms(3)
  obtain k v p sig where v: "is_active_validator c key_type k s = Some v" "payload_key_data p = k"
    and p: "payload_block_number p = now" "payload_observed c s (payload_observations p)"
      "verify_payload (app_cfg c) p sig" "pool w' = pool w @ [SubmitObservations p sig]"
    unfolding sent_def by (elim disjE conjE exE) auto
  obtain t' where t': "vote_run c (map (Pair v) (payload_observations p)) t = Some t'"
    using vote_run_returns [OF assms(6)] by blast
  have active: "is_active_validator c key_type (payload_key_data p) t = Some v" using v assms(5) by simp
  have valid: "\<exists>x. validate_unsigned c (SubmitObservations p sig) t = Inr x"
    using p assms(4) by (simp add: validate_transaction_parameters_def Let_def)
  have run: "appchain_dispatch c NoOrigin (SubmitObservations p sig) t = Ok () t'"
    using active t' by (simp add: submit_observations_def op_simps for_each_votes)
  have count: "votes_counted c v (payload_observations p) t t'"
    using t' by (rule vote_counts)
  have "v \<in> set (observing (app t') o')"
    if o': "o' \<in> set (payload_observations p)" "get_observation_type o' = UpdateValidatorSetType"
      "next_set_id (app t) = next_set_id (app s)" "set_vote_fits c v o' t" for o'
  proof -
    have "payload_observations p = [] @ o' # []" "observation_index o' = next_set_id (app t)"
      using p(2) o'(1-3) by (auto simp: payload_observed_def index_accepted_def)
    then show ?thesis
      using count set_vote_accepted [OF o'(2) _ o'(4)] unfolding votes_counted_def by fastforce
  qed
  then show ?thesis
    using p(4) valid active run count
    by (intro exI [of _ p] exI [of _ sig] exI [of _ v] exI [of _ t'] conjI ballI impI)
qed

text \<open>A block later, with three validators in power.\<close>

definition demo_later :: "(nat, u128, demo_ext) runtime" where
  "demo_later = demo_anchored\<lparr>lpos := lpos demo_votes, block_number := 21\<rparr>"

lemma demo_later_simps:
  "app demo_later = demo_app0\<lparr>anchor_contract := str_bytes ''o.testnet''\<rparr>" "block_number demo_later = 21"
  "next_set_id (app demo_later) = next_set_id (app demo_anchored)" "lpos demo_later = lpos demo_votes"
  "is_active_validator demo_config key_type k demo_later = is_active_validator demo_config key_type k demo_anchored"
  by (simp_all add: demo_later_def demo_anchored_def is_active_validator_def session_is_active_validator_def demo_simps)

theorem worker_votes_count_on_chain_witness:
  "\<exists>sig v t'. appchain_dispatch demo_config NoOrigin (SubmitObservations demo_sent sig) demo_later = Ok () t' \<and>
     v \<in> set (observing (app t') (UpdateValidatorSet \<lparr>set_id = 1, validators = [demo_new_validator]\<rparr>))"
proof -
  let ?o = "UpdateValidatorSet \<lparr>set_id = 1, validators = [demo_new_validator]\<rparr>"
  have "noted_observations ?o demo_later \<noteq> None" "vote_fits demo_config v ?o demo_later" for v
    by (simp_all add: noted_observations_def vote_fits_def demo_later_simps demo_app0_def demo_config_def demo_app_config_def)
  moreover have "active_total_stake demo_later \<noteq> None"
    using active_total_cong [OF demo_later_simps(4)] demo_votes_stakes(1) by simp
  ultimately have fits: "set_vote_fits demo_config v ?o demo_later" for v
    by (simp add: set_vote_fits_def demo_later_simps demo_app0_def)
  from worker_votes_count_on_chain [OF demo_pool_ok demo_worker_run _ _ demo_later_simps(5) demo_outside_returns]
  obtain p sig v t' where "p = demo_sent"
    "appchain_dispatch demo_config NoOrigin (SubmitObservations p sig) demo_later = Ok () t'"
    "\<forall>o' \<in> set (payload_observations p). get_observation_type o' = UpdateValidatorSetType \<longrightarrow>
       set_vote_fits demo_config v o' demo_later \<longrightarrow> v \<in> set (observing (app t') o')"
    by (auto simp: demo_later_simps(2,3) demo_world0_def)
  then show ?thesis
    using fits by (intro exI [of _ sig] exI [of _ v] exI [of _ t'])
      (simp_all add: demo_sent_def)
qed

end
