(* ===== verification/Bridge_Impls.thy ===== *)
theory Bridge_Impls
  imports Bridge_Transfers
begin

text \<open>
  The implementations a runtime can choose for the bridge's associated types (\<open>bridge/src/impls.rs\<close>):
  placeholders for chains without assets or items, and two convertors of items to NEP-171 metadata.
\<close>

section \<open>No items\<close>

definition no_uniques_owner :: "u128 \<Rightarrow> u128 \<Rightarrow> 'a option" where
  "no_uniques_owner collection item = None"

definition no_uniques_transfer :: "u128 \<Rightarrow> u128 \<Rightarrow> 'a \<Rightarrow> ('x, dispatch_error, unit) op" where
  "no_uniques_transfer collection item destination = fail (Other ''NoUniquesImpl'')"

section \<open>No assets\<close>

text \<open>The consequences the code names.\<close>

datatype deposit_consequence = CannotCreate
datatype withdraw_consequence = UnknownAsset

definition no_assets_total_issuance :: "asset_id \<Rightarrow> u128" where
  "no_assets_total_issuance asset = 0"

definition no_assets_minimum_balance :: "asset_id \<Rightarrow> u128" where
  "no_assets_minimum_balance asset = 0"

definition no_assets_balance :: "asset_id \<Rightarrow> 'a \<Rightarrow> u128" where
  "no_assets_balance asset who = 0"

definition no_assets_reducible_balance :: "asset_id \<Rightarrow> 'a \<Rightarrow> bool \<Rightarrow> u128" where
  "no_assets_reducible_balance asset who keep_alive = 0"

definition no_assets_can_deposit :: "asset_id \<Rightarrow> 'a \<Rightarrow> u128 \<Rightarrow> bool \<Rightarrow> deposit_consequence" where
  "no_assets_can_deposit asset who amount mint = CannotCreate"

definition no_assets_can_withdraw :: "asset_id \<Rightarrow> 'a \<Rightarrow> u128 \<Rightarrow> withdraw_consequence" where
  "no_assets_can_withdraw asset who amount = UnknownAsset"

definition no_assets_asset_exists :: "asset_id \<Rightarrow> bool" where
  "no_assets_asset_exists asset = False"

definition no_assets_mint_into :: "asset_id \<Rightarrow> 'a \<Rightarrow> u128 \<Rightarrow> ('x, dispatch_error, unit) op" where
  "no_assets_mint_into asset who amount = fail (Other ''NoAssetsImpl'')"

definition no_assets_burn_from :: "asset_id \<Rightarrow> 'a \<Rightarrow> u128 \<Rightarrow> ('x, dispatch_error, u128) op" where
  "no_assets_burn_from asset who amount = fail (Other ''NoAssetsImpl'')"

text \<open>The bridge of a chain with neither.\<close>

definition without_assets :: "('a, 'b, 'x) bridge_config \<Rightarrow> ('a, 'b, 'x) bridge_config" where
  "without_assets c = c\<lparr>fungibles_mint_into := no_assets_mint_into, fungibles_burn_from := no_assets_burn_from,
     nonfungibles_transfer := no_uniques_transfer\<rparr>"

section \<open>Convertors\<close>

text \<open>The attributes of items, which the pallet behind \<open>nonfungibles::Inspect\<close> stores.\<close>

record 'x attributes =
  collection_attribute :: "u128 \<Rightarrow> bytes \<Rightarrow> 'x \<Rightarrow> bytes option"
  item_attribute :: "u128 \<Rightarrow> u128 \<Rightarrow> bytes \<Rightarrow> 'x \<Rightarrow> bytes option"

definition example_convertor :: "'x attributes \<Rightarrow> u128 \<Rightarrow> u128 \<Rightarrow> 'x \<Rightarrow> nep171_token_metadata option" where
  "example_convertor n collection item x =
     (let data0 = (case collection_attribute n collection [] x of Some d \<Rightarrow> d | None \<Rightarrow> []);
          data1 = (case item_attribute n collection item [] x of Some d \<Rightarrow> data0 @ d | None \<Rightarrow> data0);
          data = (if data1 = [] then str_bytes ''example hash'' else data1)
      in Some (default_nep171_token_metadata
           \<lparr>title := Some (str_bytes ''example nft title''),
            description := Some (str_bytes ''example nft description''),
            media := Some (str_bytes ''example nft media''), media_hash := Some data\<rparr>))"

record rmrk_base_metadata =
  rmrk_name :: rust_string
  rmrk_description :: rust_string
  rmrk_types :: rust_string
  rmrk_locale :: rust_string
  rmrk_license :: rust_string
  rmrk_license_uri :: rust_string
  rmrk_media_uri :: rust_string
  rmrk_thumbnail_uri :: rust_string
  rmrk_external_uri :: rust_string

text \<open>
  \<open>serde_json\<close> is outside code: \<open>parse_rmrk\<close> reads the derived \<open>Deserialize\<close> form of the record, and
  \<open>json_object\<close> prints \<open>json!\<close> of an object with string members.
\<close>

record rmrk_json =
  parse_rmrk :: "bytes \<Rightarrow> rmrk_base_metadata option"
  json_object :: "(string \<times> rust_string) list \<Rightarrow> rust_string"

text \<open>\<open>(s.len() != 0).then_some(s)\<close>.\<close>

definition non_empty :: "rust_string \<Rightarrow> rust_string option" where
  "non_empty s = (if length s \<noteq> 0 then Some s else None)"

definition rmrk_extra :: "rmrk_base_metadata \<Rightarrow> (string \<times> rust_string) list" where
  "rmrk_extra r =
     [(''types'', rmrk_types r), (''locale'', rmrk_locale r), (''license'', rmrk_license r),
      (''licenseUri'', rmrk_license_uri r), (''thumbnailUri'', rmrk_thumbnail_uri r),
      (''externalUri'', rmrk_external_uri r)]"

definition rmrk_convertor :: "'x attributes \<Rightarrow> rmrk_json \<Rightarrow> u128 \<Rightarrow> u128 \<Rightarrow> 'x \<Rightarrow> nep171_token_metadata option" where
  "rmrk_convertor n j collection item x =
     (let data = (case item_attribute n collection item [] x of Some d \<Rightarrow> d | None \<Rightarrow> []) in
      if data = [] then None
      else case parse_rmrk j data of None \<Rightarrow> None
      | Some r \<Rightarrow> Some (default_nep171_token_metadata
          \<lparr>title := non_empty (rmrk_name r), description := non_empty (rmrk_description r),
           media := non_empty (rmrk_media_uri r), extra := Some (json_object j (rmrk_extra r))\<rparr>))"

section \<open>A bridge without assets\<close>

lemma without_assets_simps [simp]:
  "fungibles_mint_into (without_assets c) = no_assets_mint_into"
  "fungibles_burn_from (without_assets c) = no_assets_burn_from"
  "nonfungibles_transfer (without_assets c) = no_uniques_transfer"
  "currency_transfer (without_assets c) = currency_transfer c"
  "bridge_account (without_assets c) = bridge_account c"
  by (simp_all add: without_assets_def)

lemma burn_without_assets:
  assumes "bridge_cfg c = without_assets b"
  shows "\<nexists>y t. do_burn_nep141 c i w r a s = Ok y t" and "\<nexists>y t. do_lock_nonfungible c k n w r s = Ok y t"
  by (auto simp: do_burn_nep141_def do_lock_nonfungible_def op_inv assms no_assets_burn_from_def no_uniques_transfer_def
      Let_def)

lemma mint_without_assets:
  assumes "bridge_cfg c = without_assets b"
  shows "mint_nep141 c t w r a n s = (case try_get_asset_id s t of
      Inl _ \<Rightarrow> Err (BridgeError NoTokenId) s | Inr _ \<Rightarrow> Err (Other ''NoAssetsImpl'') s)"
    and "unlock_nonfungible c k i w r n s = Err (Other ''NoUniquesImpl'') s"
  by (auto simp: mint_nep141_def do_mint_nep141_def unlock_nonfungible_def do_unlock_nonfungible_def op_simps assms
      no_assets_mint_into_def no_uniques_transfer_def split: sum.split)

lemma outside_returns_without_assets: "outside_returns b \<Longrightarrow> outside_returns (without_assets b)"
  by (simp add: outside_returns_def no_assets_mint_into_def no_assets_burn_from_def no_uniques_transfer_def
      without_assets_def)

text \<open>A transactional call that neither returns nor panics leaves the state alone.\<close>

lemma transactional_fails:
  assumes "\<nexists>y t. m s = Ok y t" and "transactional m s \<noteq> Panic"
  shows "\<exists>e. transactional m s = Err e s"
  using assms by (cases "m s") (auto simp: transactional_def)

section \<open>Properties\<close>

text \<open>
  On a chain built with the placeholder assets and items, burning, minting, locking and unlocking of
  assets and items always fail, and leave the whole state, the collected fee included, unchanged.
\<close>

theorem transfers_without_assets_cost_nothing:
  assumes "bridge_cfg c = without_assets b" and "outside_returns b" and "bridge_ok (bridge s)"
  shows "(\<exists>e. burn_nep141 c org i r a s = Err e s) \<and> (\<exists>e. lock_nonfungible c org k n r s = Err e s) \<and>
    (\<exists>e. mint_nep141 c t w v d q s = Err e s) \<and> (\<exists>e. unlock_nonfungible c k n w v q s = Err e s)"
proof (intro conjI)
  have ok: "outside_returns (bridge_cfg c)" by (simp add: assms outside_returns_without_assets)
  show "\<exists>e. burn_nep141 c org i r a s = Err e s"
    using bridge_dispatch_returns [OF ok assms(3), of org "CallBurnNep141 i r a"] burn_without_assets [OF assms(1)]
    unfolding burn_nep141_def bridge_dispatch.simps
    by (intro transactional_fails) (auto simp: op_inv ensure_activated_def)
  show "\<exists>e. lock_nonfungible c org k n r s = Err e s"
    using bridge_dispatch_returns [OF ok assms(3), of org "CallLockNonfungible k n r"] burn_without_assets [OF assms(1)]
    unfolding lock_nonfungible_def bridge_dispatch.simps
    by (intro transactional_fails) (auto simp: op_inv ensure_activated_def)
qed (auto simp: mint_without_assets [OF assms(1)] split: sum.split)

theorem transfers_without_assets_cost_nothing_witness:
  "\<exists>e. burn_nep141 (demo_config\<lparr>bridge_cfg := without_assets demo_bridge_config\<rparr>) (Signed 1) 5 [97] 3 demo_state
     = Err e demo_state"
  by (rule transfers_without_assets_cost_nothing [THEN conjunct1])
    (auto simp: demo_simps outside_returns_def bridge_ok_def token_map_ok_def default_for_coef_def Let_def
      split: option.splits if_splits)

text \<open>
  With the RMRK convertor, an item without attribute or whose attribute does not parse as RMRK metadata
  is refused with ConvertorNotImplement before a fee is taken: the state is unchanged.
\<close>

theorem unconvertible_item_is_not_locked:
  assumes "convert_into_nep171_metadata (bridge_cfg c) = rmrk_convertor n j"
    and "\<And>d. item_attribute n k i [] (ext s) = Some d \<Longrightarrow> d = [] \<or> parse_rmrk j d = None"
    and "is_activated (app s)" and "utf8_valid r"
  shows "lock_nonfungible c (Signed w) k i r s = Err (BridgeError ConvertorNotImplement) s"
proof -
  have "rmrk_convertor n j k i (ext s) = None"
    using assms(2) by (cases "item_attribute n k i [] (ext s)") (auto simp: rmrk_convertor_def Let_def)
  then show ?thesis
    by (simp add: lock_nonfungible_def do_lock_nonfungible_def op_simps ensure_activated_def assms(1,3,4) from_utf8_def)
qed

theorem unconvertible_item_is_not_locked_witness:
  "lock_nonfungible (demo_config\<lparr>bridge_cfg := demo_bridge_config\<lparr>convert_into_nep171_metadata :=
      rmrk_convertor \<lparr>collection_attribute = (\<lambda>k b x. None), item_attribute = (\<lambda>k i b x. if i = 1 then Some [] else None)\<rparr>
        \<lparr>parse_rmrk = (\<lambda>d. None), json_object = (\<lambda>m. [])\<rparr>\<rparr>\<rparr>) (Signed 1) 7 1 [97] demo_state
     = Err (BridgeError ConvertorNotImplement) demo_state"
  by (rule unconvertible_item_is_not_locked) (auto simp: demo_state_def demo_app0_def split: if_splits)

end
