(* ===== verification/Runtime_Runs.thy ===== *)
theory Runtime_Runs
  imports Appchain_Safety Lpos_Sessions
begin

text \<open>
  The four pallets in one runtime: the calls that transactions make, the hooks that the chain runs in
  every block, and the rotation of the sessions. The states of the composed chain are states of each
  pallet's own transition system, so that what is proved about a pallet on its own holds for the chain.
\<close>

section \<open>Calls and hooks\<close>

datatype lpos_call = SetHistoryDepth era_index u32 | ForceSetEraPayout u128

fun lpos_dispatch :: "'a origin \<Rightarrow> lpos_call \<Rightarrow> ('a, 'b, 'x, unit) call" where
  "lpos_dispatch org (SetHistoryDepth d n) = set_history_depth org d n"
| "lpos_dispatch org (ForceSetEraPayout p) = force_set_era_payout org p"

datatype ('a, 'b) runtime_call =
    LposCall lpos_call
  | BridgeCall "('a, 'b) bridge_call"
  | AppchainCall "'a appchain_call"

fun dispatch :: "('a, 'b, 'x) config \<Rightarrow> 'a origin \<Rightarrow> ('a, 'b) runtime_call \<Rightarrow> ('a, 'b, 'x, unit) call" where
  "dispatch c org (LposCall m) = lpos_dispatch org m"
| "dispatch c org (BridgeCall m) = bridge_dispatch c org m"
| "dispatch c org (AppchainCall m) = appchain_dispatch c org m"

definition lpos_on_initialize :: "('a, 'b, 'x) config \<Rightarrow> ('a, 'b, 'x, weight) call" where
  "lpos_on_initialize c = ret (db_reads_writes c 1 0)"

text \<open>The start of the block \<open>now\<close>.\<close>

definition start_block :: "('a, 'b, 'x) config \<Rightarrow> u32 \<Rightarrow> ('a, 'b, 'x, weight) call" where
  "start_block c now =
     bind (modify (\<lambda>s. s\<lparr>block_number := now\<rparr>)) (\<lambda>_.
     bind (lpos_on_initialize c) (\<lambda>_.
     on_initialize c now))"

text \<open>An offence handler outside these pallets writes its own storage only.\<close>

definition outside_handler :: "(('a, 'b, 'x) runtime, 'e, unit) op \<Rightarrow> bool" where
  "outside_handler inner \<longleftrightarrow>
     (\<forall>s u e t. inner s = Ok u t \<or> inner s = Err e t \<longrightarrow> (\<exists>x. t = s\<lparr>ext := x\<rparr>))"

text \<open>
  One step of the chain between two rotations. A failed call leaves what it wrote before the error;
  the depth of the history stays below \<open>u32::MAX\<close>, where \<open>history_depth() + 1\<close> wraps around.
\<close>

inductive chain_step :: "('a, 'b, 'x) config \<Rightarrow> ('a, 'b, 'x) runtime \<Rightarrow> ('a, 'b, 'x) runtime \<Rightarrow> bool" for c where
  call_succeeds: "dispatch c org m s = Ok u t \<Longrightarrow> (\<And>n. m \<noteq> LposCall (SetHistoryDepth (- 1) n)) \<Longrightarrow> chain_step c s t"
| call_fails: "dispatch c org m s = Err e t \<Longrightarrow> chain_step c s t"
| block_starts: "start_block c now s = Ok w t \<Longrightarrow> chain_step c s t"
| block_ends: "on_finalize c s = Ok u t \<Longrightarrow> chain_step c s t"
| author_noted: "note_author a s = Ok u t \<Longrightarrow> chain_step c s t"
| offence_reported: "outside_handler (inner :: ('a, 'b, 'x, unit) call) \<Longrightarrow>
    report_offence inner k i ids s = Ok u t \<Longrightarrow> chain_step c s t"
| outside_step: "chain_step c s (s\<lparr>ext := x\<rparr>)"

section \<open>What the calls of one pallet leave alone\<close>

lemmas appchain_call_defs = submit_observations_def force_set_is_activated_def force_set_next_set_id_def
  force_set_planned_validators_def force_set_next_notification_id_def

lemma bridge_dispatch_frame: "preserves (\<lambda>s. (lpos s, app s) = v) (bridge_dispatch c org m)"
  by (cases m; simp only: bridge_dispatch.simps bridge_call_defs Let_def; (intro preserves_rules; simp))

lemma submit_observation_frame: "preserves (\<lambda>s. (lpos s, um s, bridge s) = v) (submit_observation c w o')"
proof (rule preservesI)
  fix s u t assume v: "(lpos s, um s, bridge s) = v" and run: "submit_observation c w o' s = Ok u t"
  from run show "(lpos t, um t, bridge t) = v"
  proof (rule submit_observation_Ok)
    fix obs assume "if quorum w o' s
      then execute_observation c (observation_index o') o' (cast_vote w o' obs s) = Ok () t else t = cast_vote w o' obs s"
    then show ?thesis
      using v execute_Ok [of c "observation_index o'" o' "cast_vote w o' obs s" "()" t] by (auto split: if_splits)
  qed
qed (auto dest: submit_observation_Err)

lemma appchain_dispatch_frame: "preserves (\<lambda>s. (lpos s, um s, bridge s) = v) (appchain_dispatch c org m)"
  by (cases m; simp only: appchain_dispatch.simps appchain_call_defs;
      (intro preserves_rules submit_observation_frame; simp))

lemma lpos_hooks_frame:
  "preserves (\<lambda>s. (bridge s, app s) = v) (lpos_dispatch org m)"
  "preserves (\<lambda>s. (bridge s, app s) = v) (on_finalize c)"
  "preserves (\<lambda>s. (bridge s, app s) = v) (note_author a)"
  "preserves (\<lambda>s. (bridge s, app s) = v) (plan_session c i)"
  "preserves (\<lambda>s. (bridge s, app s) = v) (start_session c i)"
  "preserves (\<lambda>s. (bridge s, app s) = v) (finish_session c i)"
  by (cases m) (simp_all only: lpos_dispatch.simps set_history_depth_def force_set_era_payout_def on_finalize_def
      note_author_def plan_session_def new_session_def try_trigger_new_era_def start_session_def start_era_def
      finish_session_def end_session_def end_era_def Let_def, (intro preserves_rules; simp split: option.split)+)

lemma start_block_frame: "preserves (\<lambda>s. (lpos s, bridge s, app s) = v) (start_block c now)"
  unfolding start_block_def lpos_on_initialize_def on_initialize_def commit_def Let_def
  by (intro preserves_rules; simp)

section \<open>The message queue sees submissions and commitments only\<close>

text \<open>
  What a submission of a payload keeps, what a commitment keeps and what depends on nothing else, every
  operation of the runtime keeps. \<open>W\<close> is what is known of a message that is submitted: at least that its
  payload is the serialization of a value of its type.
\<close>

fun payload_type_of :: "payload \<Rightarrow> payload_type option" where
  "payload_type_of (LockPayload p) = Some Lock"
| "payload_type_of (BurnAssetPayload p) = Some BurnAsset"
| "payload_type_of (PlanNewEraPayload p) = Some PlanNewEra"
| "payload_type_of (EraPayoutPayload p) = Some EraPayout"
| "payload_type_of (LockNftPayload p) = Some LockNft"
| "payload_type_of (MetadataOnly m) = None"

locale message_invariant =
  fixes c :: "('a, 'b, 'x) config" and P :: "('a, 'b, 'x) runtime \<Rightarrow> bool" and W :: "payload_type \<Rightarrow> bytes \<Rightarrow> bool"
  assumes typed: "try_to_vec c v = Some p \<Longrightarrow> payload_type_of v = Some ty \<Longrightarrow> W ty p"
    and P_submit: "W ty p \<Longrightarrow> preserves P (submit c w ty p)"
    and P_on_initialize: "preserves P (on_initialize c now)"
    and P_frame: "P s \<Longrightarrow> um t = um s \<Longrightarrow> um_events t = um_events s \<Longrightarrow> P t"
begin

text \<open>A payload that is serialized and then sent.\<close>

lemma P_serialize:
  assumes "\<And>p. try_to_vec c v = Some p \<Longrightarrow> preserves P (f p)"
  shows "preserves P (bind (ok_or (try_to_vec c v) e) f)" and "preserves P (bind (unwrap (try_to_vec c v)) f)"
proof -
  have "bind (ok_or (try_to_vec c v) e) f = (case try_to_vec c v of Some p \<Rightarrow> f p | None \<Rightarrow> fail e)"
    by (rule ext) (simp add: op_simps split: option.split)
  moreover have "bind (unwrap (try_to_vec c v)) f = (case try_to_vec c v of Some p \<Rightarrow> f p | None \<Rightarrow> panic)"
    by (rule ext) (simp add: op_simps split: option.split)
  ultimately show "preserves P (bind (ok_or (try_to_vec c v) e) f)" "preserves P (bind (unwrap (try_to_vec c v)) f)"
    using assms by (auto intro: preserves_fail preserves_panic split: option.split)
qed

lemma P_send: "try_to_vec c v = Some p \<Longrightarrow> payload_type_of v = Some ty \<Longrightarrow> preserves P (submit c w ty p)"
  by (rule P_submit [OF typed])

lemma P_writes:
  "P s \<Longrightarrow> P (s\<lparr>bridge := b\<rparr>)" "P s \<Longrightarrow> P (s\<lparr>lpos := l\<rparr>)"
  "P s \<Longrightarrow> P (s\<lparr>app := a\<rparr>)" "P s \<Longrightarrow> P (s\<lparr>ext := x\<rparr>)"
  "P s \<Longrightarrow> P (s\<lparr>block_number := n\<rparr>)"
  "P s \<Longrightarrow> \<not> is_um_event e \<Longrightarrow> P (s\<lparr>events := events s @ [e]\<rparr>)"
  by (erule P_frame; simp add: um_events_def)+

lemma P_bridge: "preserves P (bridge_dispatch c org m)"
  by (cases m; simp only: bridge_dispatch.simps bridge_call_defs Let_def;
      (rule P_serialize P_send preserves_rules | assumption | simp add: P_writes)+)

lemma P_request: "preserves P (bridge_request c o')"
  by (cases o'; simp only: bridge_request.simps unlock_def mint_nep141_def unlock_nonfungible_def do_unlock_def
      do_mint_nep141_def do_unlock_nonfungible_def; (intro preserves_rules; simp add: P_writes))

lemma P_hooks:
  "preserves P (lpos_dispatch org m)"
  "preserves P (on_finalize c)"
  "preserves P (note_author a)"
  "preserves P (plan_session c i)"
  "preserves P (start_session c i)"
  "preserves P (finish_session c i)"
  "preserves P (start_block c now)"
  by (cases m) (simp_all only: lpos_dispatch.simps set_history_depth_def force_set_era_payout_def on_finalize_def
      note_author_def plan_session_def new_session_def try_trigger_new_era_def start_session_def start_era_def
      finish_session_def end_session_def end_era_def start_block_def lpos_on_initialize_def Let_def,
      (rule P_serialize P_send P_on_initialize preserves_rules
        | assumption | simp add: P_writes split: option.split)+)

lemma P_history: "preserves P (set_notification_history i r)"
  unfolding set_notification_history_def by (intro preserves_rules; simp add: P_writes)

lemma P_execute: "preserves P (execute_observation c i o')"
  by (cases o'; simp only: execute_observation.simps increase_next_notification_id_def increase_next_set_id_def
      unlock_def mint_nep141_def unlock_nonfungible_def do_unlock_def
      do_mint_nep141_def do_unlock_nonfungible_def Let_def;
      (intro P_history preserves_rules; simp add: P_writes))

lemma P_submit_observation: "preserves P (submit_observation c v o')"
proof (rule preservesI)
  fix s u t assume s: "P s" and "submit_observation c v o' s = Ok u t"
  from this(2) show "P t"
  proof (rule submit_observation_Ok)
    fix obs assume q: "if quorum v o' s
      then execute_observation c (observation_index o') o' (cast_vote v o' obs s) = Ok () t else t = cast_vote v o' obs s"
    have "P (cast_vote v o' obs s)" unfolding cast_vote_def by (rule P_writes(3) [OF s])
    then show ?thesis using q preserves_Ok [OF P_execute] by (auto split: if_splits)
  qed
qed (auto dest: submit_observation_Err)

lemma P_appchain: "preserves P (appchain_dispatch c org m)"
  by (cases m; simp only: appchain_dispatch.simps appchain_call_defs;
      (intro preserves_rules P_submit_observation; simp add: P_writes))

lemma P_offence:
  assumes "outside_handler inner" and "P s" and "report_offence inner k i ids s = Ok u t"
  shows "P t"
  using assms(2,3) assms(1) [unfolded outside_handler_def, THEN spec [of _ s]]
  by (fastforce simp: report_offence_def op_inv P_writes split: if_splits)

lemma P_chain_step: "chain_step c s t \<Longrightarrow> P s \<Longrightarrow> P t"
proof (induction rule: chain_step.induct)
  case (call_succeeds org m s u t)
  then show ?case
    by (cases m) (auto dest: preserves_Ok [OF P_bridge] preserves_Ok [OF P_appchain]
        preserves_Ok [OF P_hooks(1)])
next
  case (call_fails org m s e t)
  then show ?case
    by (cases m) (auto dest: preserves_Err [OF P_bridge] preserves_Err [OF P_appchain]
        preserves_Err [OF P_hooks(1)])
qed (auto dest: preserves_Ok [OF P_hooks(7)] preserves_Ok [OF P_hooks(2)]
    preserves_Ok [OF P_hooks(3)] intro: P_offence P_writes)

end

text \<open>What every step of \<open>upward-messages\<close> keeps, whatever is submitted.\<close>

locale um_invariant =
  fixes c :: "('a, 'b, 'x) config" and P :: "('a, 'b, 'x) runtime \<Rightarrow> bool"
  assumes kept: "P s \<Longrightarrow> um_step c s t \<Longrightarrow> P t"
begin

lemma kept_on_initialize: "preserves P (on_initialize c now)"
proof (rule preservesI)
  fix s e t assume "P s" "on_initialize c now s = Err e t"
  then show "P t" by (auto simp: on_initialize_eq commit_eq split: if_splits)
qed (auto intro: kept um_step.new_block)

lemma kept_submit: "preserves P (submit c w t p)"
  by (rule preservesI) (auto intro: kept um_step.accepted um_step.refused)

lemma kept_elsewhere: "P s \<Longrightarrow> um t = um s \<Longrightarrow> um_events t = um_events s \<Longrightarrow> P t"
  by (rule kept) (auto intro: um_step.elsewhere)

end

sublocale um_invariant \<subseteq> message_invariant c P "\<lambda>_ _. True"
  by unfold_locales (auto intro: kept_submit kept_on_initialize kept_elsewhere)

interpretation umr: um_invariant c "um_reachable c" for c
  by unfold_locales (rule um_reachable.step)

interpretation ums: um_invariant c "\<lambda>t. (um_step c)\<^sup>*\<^sup>* s t" for c s
  by unfold_locales (rule rtranclp.rtrancl_into_rtrancl)

section \<open>Votes\<close>

lemma app_reachable_call:
  assumes "app_reachable c s" and "appchain_dispatch c org m s = Ok u t"
  shows "app_reachable c t"
proof (cases m)
  case (SubmitObservations p sig)
  then show ?thesis using assms by (auto intro: app_submit)
qed (use assms in \<open>auto simp: appchain_call_defs op_inv intro: app_others\<close>)

lemma appchain_dispatch_Err: "appchain_dispatch c org m s = Err e t \<Longrightarrow> t = s"
proof (cases m)
  case (SubmitObservations p sig)
  assume "appchain_dispatch c org m s = Err e t"
  then show ?thesis
    by (auto simp: SubmitObservations submit_observations_def op_inv for_each_votes split: option.splits)
qed (auto simp: appchain_call_defs op_inv)

text \<open>A step that does not touch the appchain's storage.\<close>

lemma app_reachable_frame: "app_reachable c s \<Longrightarrow> app t = app s \<Longrightarrow> app_reachable c t"
  by (rule app_others) simp_all

text \<open>What a call of the other pallets leaves alone.\<close>

lemma preserves_after:
  "preserves (\<lambda>s. f s = f s0) m \<Longrightarrow> m s0 = Ok u t \<or> m s0 = Err e t \<Longrightarrow> f t = f s0"
  by (auto dest: preserves_Ok preserves_Err)

lemma dispatch_frame:
  assumes "dispatch c org m s = Ok u t \<or> dispatch c org m s = Err e t"
  shows "case m of BridgeCall _ \<Rightarrow> lpos t = lpos s \<and> app t = app s | LposCall _ \<Rightarrow> bridge t = bridge s \<and> app t = app s
    | AppchainCall _ \<Rightarrow> lpos t = lpos s \<and> bridge t = bridge s"
proof (cases m)
  case (BridgeCall b)
  then show ?thesis
    using preserves_after [OF bridge_dispatch_frame assms [unfolded BridgeCall dispatch.simps]] by simp
next
  case (LposCall l)
  then show ?thesis
    using preserves_after [OF lpos_hooks_frame(1) assms [unfolded LposCall dispatch.simps]] by simp
next
  case (AppchainCall a)
  then show ?thesis
    using preserves_after [OF appchain_dispatch_frame assms [unfolded AppchainCall dispatch.simps]] by simp
qed

lemma app_reachable_chain_step: "chain_step c s t \<Longrightarrow> app_reachable c s \<Longrightarrow> app_reachable c t"
proof (induction rule: chain_step.induct)
  case (call_succeeds org m s u t)
  show ?case
  proof (cases m)
    case (AppchainCall a)
    then show ?thesis using call_succeeds(1,3) by (auto intro: app_reachable_call)
  qed (use dispatch_frame [OF disjI1 [OF call_succeeds(1)]] app_reachable_frame [OF call_succeeds(3), of t] in simp_all)
next
  case (call_fails org m s e t)
  have "app t = app s"
    using call_fails(1) dispatch_frame [OF disjI2 [OF call_fails(1)]] by (cases m) (auto dest: appchain_dispatch_Err)
  with call_fails(2) show ?case by (rule app_reachable_frame)
next
  case (offence_reported inner k i ids s u t)
  then have "app t = app s"
    using offence_reported(1) [unfolded outside_handler_def, THEN spec [of _ s]]
    by (fastforce simp: report_offence_def op_inv split: if_splits)
  with offence_reported(3) show ?case by (rule app_reachable_frame)
next
  case (block_starts now s w t)
  then show ?case using preserves_Ok [OF start_block_frame block_starts(1) refl] by (auto intro: app_reachable_frame)
next
  case (block_ends s u t)
  then show ?case using preserves_Ok [OF lpos_hooks_frame(2) block_ends(1) refl] by (auto intro: app_reachable_frame)
next
  case (author_noted a s u t)
  then show ?case using preserves_Ok [OF lpos_hooks_frame(3) author_noted(1) refl] by (auto intro: app_reachable_frame)
next
  case (outside_step s x)
  then show ?case by (auto intro: app_reachable_frame)
qed

section \<open>Eras and stakes\<close>

lemma lpos_dispatch_Err: "lpos_dispatch org m s = Err e t \<Longrightarrow> t = s"
  by (cases m) (auto simp: set_history_depth_def force_set_era_payout_def op_inv split: option.splits)

text \<open>What a step does to the storage of lpos: one of its calls, or nothing.\<close>

lemma chain_step_lpos:
  assumes "chain_step c s t"
  shows "lpos t = lpos s \<or>
    (\<exists>org d n u. d \<noteq> - 1 \<and> set_history_depth org d n s = Ok u t) \<or>
    (\<exists>org p u. force_set_era_payout org p s = Ok u t) \<or> (\<exists>u. on_finalize c s = Ok u t) \<or>
    (\<exists>a u. note_author a s = Ok u t) \<or>
    (\<exists>inner k i ids u. outside_handler (inner :: ('a, 'b, 'x, unit) call) \<and> report_offence inner k i ids s = Ok u t)"
    (is "?frame \<or> ?depth \<or> ?payout \<or> ?final \<or> ?author \<or> ?offence")
  using assms
proof cases
  case (call_succeeds org m u)
  show ?thesis
  proof (cases m)
    case (LposCall l)
    show ?thesis
    proof (cases l)
      case (SetHistoryDepth d n)
      then have "d \<noteq> - 1" using call_succeeds(2) [of n] LposCall by simp
      then show ?thesis using call_succeeds(1) LposCall SetHistoryDepth by auto
    qed (use call_succeeds(1) LposCall in auto)
  qed (use dispatch_frame [OF disjI1 [OF call_succeeds(1)]] in simp_all)
next
  case (call_fails org m e)
  then show ?thesis
    using dispatch_frame [OF disjI2 [OF call_fails]] by (cases m) (auto dest: lpos_dispatch_Err)
next
  case (block_starts now w)
  then show ?thesis using preserves_Ok [OF start_block_frame block_starts refl] by simp
next
  case (block_ends u)
  then have ?final by (rule exI)
  then show ?thesis by (simp only: simp_thms)
next
  case (author_noted a u)
  then have ?author by (intro exI)
  then show ?thesis by (simp only: simp_thms)
next
  case (offence_reported inner k i ids u)
  then have ?offence by (intro exI conjI)
  then show ?thesis by (intro disjI2)
next
  case (outside_step x)
  then have ?frame by simp
  then show ?thesis by (rule disjI1)
qed

lemma lpos_reachable_chain_step:
  assumes "chain_step c s t" and "lpos_reachable c s"
  shows "lpos_reachable c t"
  using chain_step_lpos [OF assms(1)]
proof (elim disjE exE conjE)
  fix inner :: "('a, 'b, 'c, unit) call" and k i ids u
  assume inner: "outside_handler inner" and "report_offence inner k i ids s = Ok u t"
  have "lpos w = lpos v" if "inner v = Ok z w" for v z w
    using inner that unfolding outside_handler_def by fastforce
  from lpos_report [OF assms(2) this \<open>report_offence inner k i ids s = Ok u t\<close>] show ?thesis .
qed (use assms(2) in \<open>auto intro: lpos_reachable.intros\<close>)

lemma era_view_hooks:
  "preserves (\<lambda>s. era_view (lpos s) = v) (force_set_era_payout org p)"
  "preserves (\<lambda>s. era_view (lpos s) = v) (on_finalize c)"
  "preserves (\<lambda>s. era_view (lpos s) = v) (note_author a)"
  by (rule preservesI; auto simp: force_set_era_payout_def on_finalize_def note_author_def reward_by_ids_def era_view_def
      op_inv split: option.splits if_splits)+

lemma era_view_offences: "era_view (fold (count_offence k) ids l) = era_view l"
  by (induction ids arbitrary: l) (auto simp: count_offence_def era_view_def)

lemma offence_lpos:
  assumes "outside_handler inner" and "report_offence inner k i ids s = Ok u t"
  shows "lpos t = lpos s \<or> lpos t = fold (count_offence k) ids (lpos s)"
  using assms(2) assms(1) [unfolded outside_handler_def, THEN spec [of _ s]]
  by (fastforce simp: report_offence_def op_inv split: if_splits)

lemma session_at_chain_step:
  assumes "chain_step c s t" and "session_at c i s"
  shows "session_at c i t"
  using chain_step_lpos [OF assms(1)]
proof (elim disjE exE conjE)
  fix org d n u assume "d \<noteq> - 1" "set_history_depth org d n s = Ok u t"
  with assms(2) show ?thesis by (rule new_history_depth)
next
  fix inner :: "('a, 'b, 'c, unit) call" and k j ids u
  assume "outside_handler inner" "report_offence inner k j ids s = Ok u t"
  then have "era_view (lpos t) = era_view (lpos s)" using offence_lpos era_view_offences by metis
  with assms(2) show ?thesis by (rule other_calls)
qed (use assms(2) in \<open>auto intro: other_calls dest: preserves_Ok [OF era_view_hooks(1) _ refl]
      preserves_Ok [OF era_view_hooks(2) _ refl] preserves_Ok [OF era_view_hooks(3) _ refl]\<close>)

section \<open>The bridge\<close>

lemma bridge_ok_chain_step:
  assumes "storage_order (token_order (bridge_cfg c))" and "chain_step c s t" and "bridge_ok (bridge s)"
  shows "bridge_ok (bridge t)"
  using assms(2)
proof cases
  case (call_succeeds org m u)
  show ?thesis
  proof (cases m)
    case (BridgeCall b)
    then show ?thesis using call_succeeds(1) preserves_Ok [OF bridge_ok_dispatch [OF assms(1)] _ assms(3)] by simp
  qed (use dispatch_frame [OF disjI1 [OF call_succeeds(1)]] assms(3) in simp_all)
next
  case (call_fails org m e)
  show ?thesis
  proof (cases m)
    case (BridgeCall b)
    then show ?thesis using call_fails preserves_Err [OF bridge_ok_dispatch [OF assms(1)] _ assms(3)] by simp
  qed (use dispatch_frame [OF disjI2 [OF call_fails(1)]] assms(3) in simp_all)
next
  case (block_starts now w)
  then show ?thesis using preserves_Ok [OF start_block_frame block_starts refl] assms(3) by simp
next
  case (block_ends u)
  then show ?thesis using preserves_Ok [OF lpos_hooks_frame(2) block_ends refl] assms(3) by simp
next
  case (author_noted a u)
  then show ?thesis using preserves_Ok [OF lpos_hooks_frame(3) author_noted refl] assms(3) by simp
next
  case (offence_reported inner k i ids u)
  then have "bridge t = bridge s"
    using offence_reported(1) [unfolded outside_handler_def, THEN spec [of _ s]]
    by (fastforce simp: report_offence_def op_inv split: if_splits)
  then show ?thesis using assms(3) by simp
next
  case (outside_step x)
  then show ?thesis using assms(3) by simp
qed

end
