(* ===== verification/Chain.thy ===== *)
theory Chain
  imports Runtime_Runs
begin

text \<open>
  The chain from genesis on: sessions rotate in the order of the session pallet, and any steps of the
  runtime happen between two rotations.
\<close>

section \<open>Genesis\<close>

text \<open>The \<open>GenesisConfig\<close>s of the four pallets.\<close>

record 'a genesis_config =
  genesis_interval :: u32
  genesis_premined_amount :: u128
  genesis_asset_ids :: "(rust_string \<times> asset_id) list"
  genesis_history_depth :: u32
  genesis_era_payout :: u128
  genesis_anchor_contract :: rust_string
  genesis_validators :: "('a \<times> u128) list"

definition runtime_genesis :: "('a, 'b, 'x) config \<Rightarrow> 'a genesis_config \<Rightarrow> ('a, 'b, 'x, unit) call" where
  "runtime_genesis c g =
     bind (um_genesis_build (genesis_interval g)) (\<lambda>_.
     bind (bridge_genesis_build c (genesis_premined_amount g) (genesis_asset_ids g)) (\<lambda>_.
     bind (lpos_genesis_build (genesis_history_depth g) (genesis_era_payout g)) (\<lambda>_.
     appchain_genesis_build (genesis_anchor_contract g) (genesis_validators g))))"

text \<open>The storage before genesis: what the properties use of the storage items' defaults.\<close>

definition fresh_storage :: "('a, 'b, 'x) runtime \<Rightarrow> bool" where
  "fresh_storage s \<longleftrightarrow> um s = um_empty \<and> events s = [] \<and>
     era_view (lpos s) = (None, None, Map.empty, [], history_depth (lpos s)) \<and> eras_stakers (lpos s) = (\<lambda>e. []) \<and>
     eras_validator_reward (lpos s) = Map.empty \<and>
     asset_id_by_token_id (bridge s) = [] \<and> crosschain_transfer_fee (bridge s) = Map.empty \<and>
     coef (bridge s) = default_for_coef \<and>
     observing (app s) = (\<lambda>o'. []) \<and> observations (app s) = (\<lambda>t i. [])"

text \<open>A genesis configuration without duplicate assets, whose stakes fit \<open>u128\<close>.\<close>

definition genesis_ok :: "'a genesis_config \<Rightarrow> bool" where
  "genesis_ok g \<longleftrightarrow> distinct (map fst (genesis_asset_ids g)) \<and> distinct (map snd (genesis_asset_ids g)) \<and>
     genesis_history_depth g \<noteq> 0 \<and> genesis_history_depth g \<noteq> - 1 \<and> stakes_sum (genesis_validators g) < 2 ^ 128"

lemma insert_asset_ids:
  "for_each (\<lambda>(t, i). modify_bridge (insert_asset_id t i)) ids s =
     Ok () (s\<lparr>bridge := fold (\<lambda>(t, i). insert_asset_id t i) ids (bridge s)\<rparr>)"
  by (induction ids arbitrary: s) (auto simp: op_simps ret_def)

lemma AList_update_fresh: "k \<notin> fst ` set m \<Longrightarrow> AList.update k v m = m @ [(k, v)]"
  by (induction m) auto

lemma fold_insert_asset_ids:
  "distinct (map fst ids) \<Longrightarrow> fst ` set ids \<inter> fst ` set (asset_id_by_token_id b) = {} \<Longrightarrow>
   fold (\<lambda>(t, i). insert_asset_id t i) ids b = b\<lparr>asset_id_by_token_id := asset_id_by_token_id b @ ids\<rparr>"
  by (induction ids arbitrary: b) (auto simp: insert_asset_id_def AList_update_fresh)

lemma runtime_genesis_Ok:
  assumes "fresh_storage s" and "genesis_ok g" and "runtime_genesis c g s = Ok u t"
  shows "um t = um_empty\<lparr>interval := genesis_interval g\<rparr>" and "events t = []"
    and "era_view (lpos t) = (None, None, Map.empty, [], genesis_history_depth g)"
    and "eras_stakers (lpos t) = (\<lambda>e. [])" and "bridge_ok (bridge t)"
    and "observing (app t) = (\<lambda>o'. [])" "observations (app t) = (\<lambda>t i. [])"
    and "planned_validators (app t) = genesis_validators g" and "eras_validator_reward (lpos t) = Map.empty"
  using assms
  by (auto simp: fresh_storage_def genesis_ok_def runtime_genesis_def um_genesis_build_def bridge_genesis_build_def
      lpos_genesis_build_def appchain_genesis_build_def op_inv insert_asset_ids fold_insert_asset_ids era_view_def
      bridge_ok_def token_map_ok_def default_for_coef_def modify_def split: if_splits)

section \<open>Sessions\<close>

text \<open>What the session pallet calls at the end of session \<open>i\<close>.\<close>

definition end_and_start :: "('a, 'b, 'x) config \<Rightarrow> nat \<Rightarrow> ('a, 'b, 'x, unit) call" where
  "end_and_start c i = bind (finish_session c (u32_of i)) (\<lambda>_. start_session c (u32_of (Suc i)))"

definition rotate_session :: "('a, 'b, 'x) config \<Rightarrow> nat \<Rightarrow> ('a, 'b, 'x, 'a list option) call" where
  "rotate_session c i = bind (end_and_start c i) (\<lambda>_. plan_session c (u32_of (Suc (Suc i))))"

lemma rotate_session_Ok:
  "rotate_session c i s = Ok r t \<longleftrightarrow>
     (\<exists>y1 s1 y2 s2. finish_session c (u32_of i) s = Ok y1 s1 \<and> start_session c (u32_of (Suc i)) s1 = Ok y2 s2 \<and>
        plan_session c (u32_of (Suc (Suc i))) s2 = Ok r t)"
  by (auto simp: rotate_session_def end_and_start_def bind_Ok_iff)

text \<open>\<open>chain_at c i s\<close>: \<open>s\<close> is a state of the chain in session \<open>i\<close>.\<close>

inductive chain_at :: "('a, 'b, 'x) config \<Rightarrow> nat \<Rightarrow> ('a, 'b, 'x) runtime \<Rightarrow> bool" for c where
  chain_genesis:
    "fresh_storage s \<Longrightarrow> genesis_ok g \<Longrightarrow> runtime_genesis c g s = Ok u s0 \<Longrightarrow>
     plan_session c 0 s0 = Ok r0 s1 \<Longrightarrow> plan_session c 1 s1 = Ok r1 s2 \<Longrightarrow> start_session c 0 s2 = Ok y s3 \<Longrightarrow>
     chain_at c 0 s3"
| chain_rotate:
    "chain_at c i s \<Longrightarrow> Suc (Suc i) < 2 ^ 32 \<Longrightarrow> stakes_sum (planned_validators (app s)) < 2 ^ 128 \<Longrightarrow>
     rotate_session c i s = Ok r t \<Longrightarrow> chain_at c (Suc i) t"
| chain_within: "chain_at c i s \<Longrightarrow> chain_step c s t \<Longrightarrow> chain_at c i t"

lemma era_not_last:
  assumes "Suc (Suc i) < 2 ^ 32" and "eras_planned S (Suc i) l"
  shows "current_era l \<noteq> Some (- 1)"
proof -
  have "Suc i div S \<le> Suc i" by (rule div_le_dividend)
  then have "Suc i div S + 1 < 2 ^ 32" using assms(1) by linarith
  then have "unat (u32_of (Suc i div S)) + 1 < 2 ^ 32" by (simp add: unat_u32_of)
  then have "u32_of (Suc i div S) \<noteq> - 1" using unat_succ_eq [of "u32_of (Suc i div S)"] by auto
  with assms(2) show ?thesis by (simp add: eras_planned_def)
qed

lemma chain_genesis_session:
  assumes S: "sessions c > 0" and s: "fresh_storage s" "genesis_ok g" "runtime_genesis c g s = Ok u s0"
    and run: "plan_session c 0 s0 = Ok r0 s1" "plan_session c 1 s1 = Ok r1 s2" "start_session c 0 s2 = Ok y s3"
  shows "um_reachable c s3" "lpos_reachable c s3" "app_reachable c s3" "session_at c 0 s3" "bridge_ok (bridge s3)"
proof -
  note g = runtime_genesis_Ok [OF s]
  note frames = preserves_Ok [OF lpos_hooks_frame(4) run(1) refl] preserves_Ok [OF lpos_hooks_frame(4) run(2) refl]
    preserves_Ok [OF lpos_hooks_frame(5) run(3) refl]
  have depth: "genesis_history_depth g \<noteq> 0" "genesis_history_depth g \<noteq> - 1" "stakes_sum (genesis_validators g) < 2 ^ 128"
    using s(2) by (simp_all add: genesis_ok_def)
  have "um_reachable c s0" using g(1,2) by (intro um_reachable.start) (simp_all add: um_events_def)
  then have "um_reachable c s1" by (rule preserves_Ok [OF umr.P_hooks(4) run(1)])
  then have "um_reachable c s2" by (rule preserves_Ok [OF umr.P_hooks(4) run(2)])
  then show "um_reachable c s3" by (rule preserves_Ok [OF umr.P_hooks(5) run(3)])
  have a0: "app_reachable c s0" using g(6,7) by (intro app_start) simp_all
  show "app_reachable c s3" by (rule app_reachable_frame [OF a0]) (use frames in simp)
  show "bridge_ok (bridge s3)" using g(5) frames by simp
  show "session_at c 0 s3" using g(3) depth by (intro session_at.genesis [OF _ _ _ run]) simp_all
  have l0: "lpos_reachable c s0" using g(4) by (intro lpos_start) simp
  have e0: "current_era (lpos s0) = None" using g(3) by (simp add: era_view_def)
  have p: "stakes_sum (planned_validators (app s1)) < 2 ^ 128" using frames g(8) depth by simp
  have l1: "lpos_reachable c s1" by (rule lpos_plan [OF l0 _ _ run(1)]) (use e0 g(8) depth in simp_all)
  have "current_era (lpos s1) = Some 0"
    using plan_session_Ok [OF run(1)] e0 by (auto simp: era_is_over_def next_planned_era_def)
  then have "lpos_reachable c s2" by (intro lpos_plan [OF l1 _ p run(2)]) simp
  then show "lpos_reachable c s3" by (rule lpos_session_start [OF _ run(3)])
qed

lemma rotation_planned:
  assumes at: "session_at c i s" and S: "sessions c > 0" and i: "Suc (Suc i) < 2 ^ 32"
    and run: "finish_session c (u32_of i) s = Ok y1 s1" "start_session c (u32_of (Suc i)) s1 = Ok y2 s2"
  shows "eras_planned (sessions c) (Suc i) (lpos s2)" and "current_era (lpos s2) \<noteq> Some (- 1)"
proof -
  have "eras_planned (sessions c) (Suc i) (lpos s1) \<and> eras_active (sessions c) i (lpos s1)"
    using session_at_inv [OF at S] preserves_Ok [OF finish_session_frame run(1) refl] era_view_eqD by metis
  then show "eras_planned (sessions c) (Suc i) (lpos s2)"
    using start_next_session [OF S _ _ _ run(2)] i by simp
  then show "current_era (lpos s2) \<noteq> Some (- 1)" by (rule era_not_last [OF i])
qed

lemma rotation_reachable:
  assumes at: "session_at c i s" and S: "sessions c > 0" and i: "Suc (Suc i) < 2 ^ 32"
    and l: "lpos_reachable c s" and vs: "stakes_sum (planned_validators (app s)) < 2 ^ 128"
    and run: "rotate_session c i s = Ok r t"
  shows "session_at c (Suc i) t" and "lpos_reachable c t" and "app t = app s" and "bridge t = bridge s"
    and "um_reachable c s \<Longrightarrow> um_reachable c t"
proof -
  obtain y1 s1 y2 s2 where run: "finish_session c (u32_of i) s = Ok y1 s1"
    "start_session c (u32_of (Suc i)) s1 = Ok y2 s2" "plan_session c (u32_of (Suc (Suc i))) s2 = Ok r t"
    using run by (auto simp: rotate_session_Ok)
  note frames = preserves_Ok [OF lpos_hooks_frame(6) run(1) refl] preserves_Ok [OF lpos_hooks_frame(5) run(2) refl]
    preserves_Ok [OF lpos_hooks_frame(4) run(3) refl]
  show "app t = app s" "bridge t = bridge s" using frames by simp_all
  show "session_at c (Suc i) t" by (rule session_at.rotate [OF at i run])
  have "lpos_reachable c s2" by (rule lpos_session_start [OF lpos_finish [OF l run(1)] run(2)])
  then show "lpos_reachable c t"
    using frames vs rotation_planned(2) [OF at S i run(1,2)] by (intro lpos_plan [OF _ _ _ run(3)]) simp_all
  show "um_reachable c t" if "um_reachable c s"
    by (rule preserves_Ok [OF umr.P_hooks(4) run(3) preserves_Ok [OF umr.P_hooks(5) run(2)
          preserves_Ok [OF umr.P_hooks(6) run(1) that]]])
qed

lemma chain_at_refines:
  assumes "storage_order (token_order (bridge_cfg c))" and S: "sessions c > 0" and "chain_at c i s"
  shows "um_reachable c s \<and> lpos_reachable c s \<and> app_reachable c s \<and> session_at c i s \<and> bridge_ok (bridge s)"
  using assms(3)
proof induction
  case (chain_genesis s g u s0 r0 s1 r1 s2 y s3)
  show ?case using chain_genesis_session [OF S chain_genesis] by simp
next
  case (chain_rotate i s r t)
  then have "session_at c i s" "lpos_reachable c s" by simp_all
  note rot = rotation_reachable [OF this(1) S chain_rotate(2) this(2) chain_rotate(3,4)]
  have "app_reachable c t" by (rule app_reachable_frame [OF _ rot(3)]) (simp add: chain_rotate.IH)
  then show ?case using rot chain_rotate.IH by simp
next
  case (chain_within i s t)
  then show ?case
    by (simp add: umr.P_chain_step [OF chain_within(2)] lpos_reachable_chain_step [OF chain_within(2)]
        app_reachable_chain_step [OF chain_within(2)] session_at_chain_step [OF chain_within(2)]
        bridge_ok_chain_step [OF assms(1) chain_within(2)])
qed

section \<open>A concrete chain\<close>

definition demo_chain_genesis :: "nat genesis_config" where
  "demo_chain_genesis =
     \<lparr>genesis_interval = 5, genesis_premined_amount = 1000, genesis_asset_ids = [([97], 1), ([98], 2)],
      genesis_history_depth = 84, genesis_era_payout = 0, genesis_anchor_contract = [],
      genesis_validators = [(1, 300), (2, 50), (3, 50)]\<rparr>"

definition demo_storage :: "(nat, u128, demo_ext) runtime" where
  "demo_storage = demo_state\<lparr>um := um_empty\<rparr>"

lemma demo_fresh: "fresh_storage demo_storage" "genesis_ok demo_chain_genesis"
  by (simp_all add: fresh_storage_def demo_storage_def demo_simps era_view_def genesis_ok_def demo_chain_genesis_def
      stakes_sum_def)

text \<open>What the chain knows of its eras and its bridge in session 0.\<close>

lemma demo_chain_run:
  "\<exists>s0 r0 s1 r1 s2 s3. runtime_genesis demo_config demo_chain_genesis demo_storage = Ok () s0 \<and>
     plan_session demo_config 0 s0 = Ok r0 s1 \<and> plan_session demo_config 1 s1 = Ok r1 s2 \<and>
     start_session demo_config 0 s2 = Ok () s3 \<and> lpos s3 = demo_lpos0\<lparr>current_era := Some 0,
       current_planned_session := 1, active_era := Some \<lparr>era_number = 0, era_set_id = 0, era_start = None\<rparr>,
       eras_start_session_index := [0 \<mapsto> 0],
       eras_stakers := (\<lambda>e. []) (0 := [(1, 300), (2, 50), (3, 50)]),
       eras_total_stake := (\<lambda>e. 0) (0 := 400), bonded_eras := [(0, 0)]\<rparr> \<and>
     app s3 = demo_app0\<lparr>planned_validators := [(1, 300), (2, 50), (3, 50)]\<rparr> \<and>
     asset_id_by_token_id (bridge s3) = [([97], 1), ([98], 2)] \<and> interval (um s3) = 5 \<and>
     crosschain_transfer_fee (bridge s3) = Map.empty \<and> nonce (um s3) = 1 \<and>
     message_queue (um s3) = [\<lparr>msg_nonce = 1, msg_payload_type = PlanNewEra, msg_payload = [1, 2, 3]\<rparr>]"
  by (simp add: runtime_genesis_def um_genesis_build_def bridge_genesis_build_def lpos_genesis_build_def
      appchain_genesis_build_def demo_chain_genesis_def demo_storage_def insert_asset_ids insert_asset_id_def
      plan_session_def new_session_def try_trigger_new_era_def start_session_def start_era_def
      trigger_new_era_def store_stakers_info_def store_staker_def op_simps demo_simps Let_def checked_sub_def
      saturating_sub_def saturating_add_def checked_add_def um_empty_def submit_eq accept_message_def too_large_def
      queue_full_def)

lemma demo_chain:
  "\<exists>s. chain_at demo_config 0 s \<and> lpos s = demo_lpos0\<lparr>current_era := Some 0,
       current_planned_session := 1, active_era := Some \<lparr>era_number = 0, era_set_id = 0, era_start = None\<rparr>,
       eras_start_session_index := [0 \<mapsto> 0],
       eras_stakers := (\<lambda>e. []) (0 := [(1, 300), (2, 50), (3, 50)]),
       eras_total_stake := (\<lambda>e. 0) (0 := 400), bonded_eras := [(0, 0)]\<rparr> \<and>
     app s = demo_app0\<lparr>planned_validators := [(1, 300), (2, 50), (3, 50)]\<rparr> \<and>
     asset_id_by_token_id (bridge s) = [([97], 1), ([98], 2)] \<and> interval (um s) = 5 \<and>
     crosschain_transfer_fee (bridge s) = Map.empty \<and> nonce (um s) = 1 \<and>
     message_queue (um s) = [\<lparr>msg_nonce = 1, msg_payload_type = PlanNewEra, msg_payload = [1, 2, 3]\<rparr>]"
  using demo_chain_run chain_genesis [OF demo_fresh] by blast

section \<open>Properties\<close>

text \<open>
  C6. Every state of the composed chain, built from the pallets' genesis configurations and advanced by
  session rotations, calls (failed ones included), block hooks and outside steps in any order, is a
  reachable state of each pallet's own transition system and keeps the bridge well-formed, so the invariants
  proved for the pallets hold together on the chain.
\<close>

theorem chain_refines_the_pallets:
  assumes "storage_order (token_order (bridge_cfg c))" and "sessions c > 0" and "chain_at c i s"
  shows "um_reachable c s \<and> lpos_reachable c s \<and> app_reachable c s \<and> session_at c i s \<and> bridge_ok (bridge s)"
  using assms by (rule chain_at_refines)

theorem chain_refines_the_pallets_witness:
  "\<exists>s. chain_at demo_config 0 s \<and> asset_id_by_token_id (bridge s) = [([97], 1), ([98], 2)] \<and>
     um_reachable demo_config s \<and> lpos_reachable demo_config s \<and> app_reachable demo_config s \<and>
     session_at demo_config 0 s \<and> bridge_ok (bridge s)"
proof -
  obtain s where s: "chain_at demo_config 0 s" "asset_id_by_token_id (bridge s) = [([97], 1), ([98], 2)]"
    using demo_chain by blast
  have "storage_order (token_order (bridge_cfg demo_config))" "sessions demo_config > 0"
    by (simp_all add: demo_simps storage_order_def)
  from chain_refines_the_pallets [OF this s(1)] s show ?thesis by (intro exI [of _ s]) simp
qed

end
