(* ===== verification/Upward_Liveness.thy ===== *)
theory Upward_Liveness
  imports UpwardMessages
begin

text \<open>
  When the messages reach the mainchain: every message in the queue is committed before the chain has
  produced as many blocks as the interval has.
\<close>

section \<open>Runs\<close>

lemma um_run_append:
  "um_run c (xs @ ys) s = (case um_run c xs s of None \<Rightarrow> None
     | Some (t, ms) \<Rightarrow> map_option (\<lambda>(u, ns). (u, ms @ ns)) (um_run c ys t))"
proof (induction c xs s rule: um_run.induct)
  case (1 c s)
  then show ?case by (simp add: option.map_ident case_prod_beta')
next
  case (2 c w t p cs s)
  then show ?case
    by (cases "submit c w t p s")
      (auto simp: option.map_comp comp_def case_prod_beta' split: option.splits)
next
  case (3 c now cs s)
  then show ?case by (cases "on_initialize c now s") auto
qed

text \<open>A run appends to the events and keeps the interval.\<close>

lemma um_run_extends:
  "um_run c cs s = Some (s', ms) \<Longrightarrow> interval (um s') = interval (um s) \<and> (\<exists>new. events s' = events s @ new)"
proof (induction c cs s arbitrary: ms rule: um_run.induct)
  case (2 c w t p cs s)
  show ?case
  proof (cases "submit c w t p s")
    case (Ok n u)
    with "2.prems" obtain ms' where run: "um_run c cs u = Some (s', ms')" by auto
    from Ok have "u = accept_message t p s" by (simp add: submit_Ok_iff)
    with "2.IH"(1) [OF Ok run] show ?thesis by auto
  next
    case (Err e u)
    with "2.prems" "2.IH"(2) [OF Err] submit_Err_unchanged [OF Err] show ?thesis by simp
  qed (use "2.prems" in simp)
next
  case (3 c now cs s)
  then obtain w u where u: "on_initialize c now s = Ok w u"
    by (auto simp: on_initialize_eq commit_eq split: if_splits)
  with "3.prems" have "um_run c cs u = Some (s', ms)" by simp
  from "3.IH"(1) [OF u this] show ?case
    using u by (auto simp: on_initialize_eq commit_eq committed_state_def Let_def split: if_splits)
qed simp

section \<open>Block numbers\<close>

fun new_blocks :: "'a um_call list \<Rightarrow> u32 list" where
  "new_blocks [] = []"
| "new_blocks (NewBlock now # cs) = now # new_blocks cs"
| "new_blocks (Submit w t p # cs) = new_blocks cs"

lemma new_blocks_split:
  "now \<in> set (new_blocks cs) \<Longrightarrow> \<exists>pre post. cs = pre @ NewBlock now # post"
proof (induction cs rule: new_blocks.induct)
  case (2 b cs)
  show ?case
  proof (cases "b = now")
    case True
    then show ?thesis by (intro exI [of _ "[]"] exI [of _ cs]) simp
  next
    case False
    with "2.prems" obtain pre post where "cs = pre @ NewBlock now # post" using "2.IH" by auto
    then show ?thesis by (intro exI [of _ "NewBlock b # pre"] exI [of _ post]) simp
  qed
next
  case (3 w t p cs)
  then obtain pre post where "cs = pre @ NewBlock now # post" by auto
  then show ?case by (intro exI [of _ "Submit w t p # pre"] exI [of _ post]) simp
qed simp

lemma multiple_in_range:
  fixes i :: nat
  assumes "0 < i" "i \<le> k"
  shows "\<exists>m. n \<le> m \<and> m < n + k \<and> m mod i = 0"
proof (intro exI conjI)
  let ?m = "(n + i - 1) div i * i"
  have "(n + i - 1) mod i < i" using assms by simp
  moreover have "?m + (n + i - 1) mod i = n + i - 1" by simp
  ultimately show "n \<le> ?m" "?m < n + k" using assms by linarith+
  show "?m mod i = 0" by simp
qed

lemma commits_in_range:
  fixes i :: u32
  assumes "i \<noteq> 0" "unat i \<le> k" "n + k \<le> 2 ^ 32"
  shows "\<exists>now \<in> set (map word_of_nat [n ..< n + k]). now mod i = 0"
proof -
  have "0 < unat i" using assms(1) by (simp add: unat_gt_0)
  from multiple_in_range [OF this assms(2), of n]
  obtain m where m: "n \<le> m" "m < n + k" "m mod unat i = 0" by (elim exE conjE)
  then have "unat (word_of_nat m :: u32) = m" using assms(3) by (simp add: unat_of_nat)
  with m(3) have "unat ((word_of_nat m :: u32) mod i) = 0" by (simp add: unat_mod)
  then have "(word_of_nat m :: u32) mod i = 0" by (simp add: unat_eq_zero)
  moreover have "word_of_nat m \<in> set (map word_of_nat [n ..< n + k])" using m by auto
  ultimately show ?thesis by (rule bexI)
qed

text \<open>After a block whose number is a multiple of the interval, all that was accepted is committed.\<close>

lemma commit_block:
  assumes "interval (um s) \<noteq> 0" and "now mod interval (um s) = 0"
  shows "\<exists>w t. on_initialize c now s = Ok w t \<and> message_queue (um t) = [] \<and>
    committed_in (events t) = committed_in (events s) @ message_queue (um s)"
  using assms by (auto simp: on_initialize_eq commit_eq committed_state_def Let_def)

lemma committed_by_block:
  assumes "interval (um s) \<noteq> 0" and "now mod interval (um s) = 0"
  shows "\<exists>s' ms new later. um_run c (pre @ NewBlock now # post) s = Some (s', ms) \<and>
    events s' = events s @ new \<and> committed_in new = message_queue (um s) @ later"
proof -
  from um_run_delivers [OF assms(1), of c pre] obtain t ms where t: "um_run c pre s = Some (t, ms)"
    "committed_in (events t) @ message_queue (um t) = committed_in (events s) @ message_queue (um s) @ ms" by blast
  from um_run_extends [OF t(1)] assms have i: "interval (um t) \<noteq> 0" "now mod interval (um t) = 0" by simp_all
  from commit_block [OF i, of c] obtain w u where u: "on_initialize c now t = Ok w u"
    "committed_in (events u) = committed_in (events t) @ message_queue (um t)" by blast
  have all: "um_run c (pre @ [NewBlock now]) s = Some (u, ms)" by (simp add: um_run_append t(1) u(1))
  from um_run_extends [OF all] assms(1) have "interval (um u) \<noteq> 0" by simp
  from um_run_delivers [OF this, of c post] obtain s' ms' where s': "um_run c post u = Some (s', ms')" by blast
  have run: "um_run c (pre @ NewBlock now # post) s = Some (s', ms @ ms')"
    using um_run_append [of c "pre @ [NewBlock now]" post s] by (simp add: all s')
  from um_run_extends [OF all] um_run_extends [OF s'] obtain e1 e2
    where e: "events u = events s @ e1" "events s' = events u @ e2" by blast
  have "committed_in e1 = message_queue (um s) @ ms" using t(2) u(2) e(1) by simp
  then have "committed_in (e1 @ e2) = message_queue (um s) @ ms @ committed_in e2" by simp
  moreover have "events s' = events s @ e1 @ e2" using e by simp
  ultimately show ?thesis using run by blast
qed

section \<open>Properties\<close>

text \<open>
  Whatever is submitted meanwhile, every message in the queue is committed, in order and ahead of the
  later ones, within as many consecutive blocks as the interval has.
\<close>

theorem queued_messages_are_committed_within_interval:
  assumes "interval (um s) \<noteq> 0" and "unat (interval (um s)) \<le> k"
    and "new_blocks cs = map word_of_nat [n ..< n + k]" and "n + k \<le> 2 ^ 32"
  shows "\<exists>s' ms new later. um_run c cs s = Some (s', ms) \<and> events s' = events s @ new \<and>
    committed_in new = message_queue (um s) @ later"
proof -
  from commits_in_range [OF assms(1,2,4)] obtain now
    where now: "now \<in> set (new_blocks cs)" "now mod interval (um s) = 0" unfolding assms(3) [symmetric] by (elim bexE)
  from new_blocks_split [OF now(1)] obtain pre post where "cs = pre @ NewBlock now # post" by (elim exE)
  then show ?thesis using committed_by_block [OF assms(1) now(2), of c pre post] by (simp only:)
qed

theorem queued_messages_are_committed_within_interval_witness:
  "\<exists>s. message_queue (um s) = [\<lparr>msg_nonce = 1, msg_payload_type = Lock, msg_payload = [7]\<rparr>] \<and> interval (um s) = 3 \<and>
     (\<exists>s' ms new later. um_run demo_config [NewBlock 7, Submit (Some 1) Lock [9], NewBlock 8, NewBlock 9] s = Some (s', ms) \<and>
       events s' = events s @ new \<and> committed_in new = message_queue (um s) @ later)"
proof (rule exI [of _ "demo_state\<lparr>um := demo_um0\<lparr>interval := 3, nonce := 1, message_queue :=
    [\<lparr>msg_nonce = 1, msg_payload_type = Lock, msg_payload = [7]\<rparr>]\<rparr>\<rparr>"],
    intro conjI queued_messages_are_committed_within_interval)
  show "new_blocks [NewBlock 7, Submit (Some 1) Lock [9], NewBlock 8, NewBlock 9] = map word_of_nat [7 ..< 7 + 3]"
    by (simp add: upt_rec)
qed simp_all

end
