(* ===== verification/Delivery.thy ===== *)
theory Delivery
  imports Chain Upward_Liveness
begin

text \<open>
  From a transfer to the mainchain: a message that an operation of any pallet puts into the queue is
  committed exactly once, within as many blocks as the interval has, whatever else the chain does in
  these blocks.
\<close>

section \<open>What the steps of the message queue keep\<close>

lemma committed_in_um_events [simp]: "committed_in (um_events s) = committed_in (events s)"
proof -
  have "committed_in (filter is_um_event es) = committed_in es" for es :: "('a, 'b) runtime_event list"
    by (induction es rule: committed_in.induct) simp_all
  then show ?thesis by (simp add: um_events_def)
qed

text \<open>All that was accepted so far, in the order of acceptance.\<close>

definition outbox :: "('a, 'b, 'x) runtime \<Rightarrow> message list" where
  "outbox s = committed_in (events s) @ message_queue (um s)"

definition outbox_extends :: "('a, 'b, 'x) runtime \<Rightarrow> ('a, 'b, 'x) runtime \<Rightarrow> bool" where
  "outbox_extends s t \<longleftrightarrow> interval (um t) = interval (um s) \<and> (\<exists>new. outbox t = outbox s @ new) \<and>
     (\<exists>new. committed_in (events t) = committed_in (events s) @ new)"

lemma outbox_extends_refl: "outbox_extends s s"
  by (simp add: outbox_extends_def)

lemma outbox_extends_trans: "outbox_extends s t \<Longrightarrow> outbox_extends t u \<Longrightarrow> outbox_extends s u"
  by (auto simp: outbox_extends_def)

lemma um_step_extends: "um_step c s t \<Longrightarrow> outbox_extends s t"
proof (induction rule: um_step.induct)
  case (accepted w t p s n s')
  then show ?case by (simp add: submit_Ok_iff outbox_extends_def outbox_def accept_message_def Let_def)
next
  case (refused w t p s e s')
  then have "s' = s" by (rule submit_Err_unchanged)
  then show ?case by (simp add: outbox_extends_refl)
next
  case (new_block now s wt s')
  then show ?case
    by (auto simp: on_initialize_eq commit_eq outbox_extends_def outbox_def committed_state_def Let_def split: if_splits)
next
  case (elsewhere s' s)
  then have "committed_in (events s') = committed_in (events s)" by (metis committed_in_um_events)
  with elsewhere show ?case by (simp add: outbox_extends_def outbox_def)
qed

lemma um_steps_extend: "(um_step c)\<^sup>*\<^sup>* s t \<Longrightarrow> outbox_extends s t"
  by (induction rule: rtranclp_induct) (auto intro: outbox_extends_refl outbox_extends_trans um_step_extends)

lemma um_steps_reachable: "(um_step c)\<^sup>*\<^sup>* s t \<Longrightarrow> um_reachable c s \<Longrightarrow> um_reachable c t"
  by (induction rule: rtranclp_induct) (auto intro: um_reachable.step)

text \<open>The hash in a commitment is the one of the messages in it.\<close>

definition commitments_hashed :: "('a, 'b, 'x) config \<Rightarrow> ('a, 'b, 'x) runtime \<Rightarrow> bool" where
  "commitments_hashed c s \<longleftrightarrow> (\<forall>h q. UmEvent (Committed h q) \<in> set (um_events s) \<longrightarrow>
     h = hash_bytes (um_cfg c) (encode_messages (um_cfg c) q))"

lemma um_reachable_hashed: "um_reachable c s \<Longrightarrow> commitments_hashed c s"
proof (induction rule: um_reachable.induct)
  case (step s s')
  from step.hyps(2) step.IH show ?case
  proof (induction rule: um_step.induct)
    case (accepted w t p s n s')
    then show ?case by (auto simp: submit_Ok_iff commitments_hashed_def accept_message_def um_events_def Let_def)
  next
    case (refused w t p s e s')
    then show ?case by (auto dest: submit_Err_unchanged)
  next
    case (new_block now s wt s')
    then show ?case
      by (auto simp: on_initialize_eq commit_eq commitments_hashed_def committed_state_def um_events_def Let_def
          split: if_splits)
  qed (simp add: commitments_hashed_def)
qed (simp add: commitments_hashed_def)

lemma committed_in_event: "m \<in> set (committed_in es) \<Longrightarrow> \<exists>h q. UmEvent (Committed h q) \<in> set es \<and> m \<in> set q"
  by (induction es rule: committed_in.induct) auto

section \<open>Blocks of the chain\<close>

text \<open>
  \<open>chain_blocks c bs s t\<close>: from \<open>s\<close> the chain comes to \<open>t\<close> while the blocks \<open>bs\<close> start, with any calls, hooks
  and rotations of the sessions in between.
\<close>

inductive chain_blocks :: "('a, 'b, 'x) config \<Rightarrow> u32 list \<Rightarrow> ('a, 'b, 'x) runtime \<Rightarrow> ('a, 'b, 'x) runtime \<Rightarrow> bool"
  for c where
  no_block: "chain_blocks c [] s s"
| next_block: "start_block c now s = Ok w t \<Longrightarrow> chain_blocks c bs t u \<Longrightarrow> chain_blocks c (now # bs) s u"
| in_block: "chain_step c s t \<Longrightarrow> chain_blocks c bs t u \<Longrightarrow> chain_blocks c bs s u"
| rotation: "rotate_session c i s = Ok r t \<Longrightarrow> chain_blocks c bs t u \<Longrightarrow> chain_blocks c bs s u"

lemma um_steps_rotate:
  assumes "rotate_session c i s = Ok r t"
  shows "(um_step c)\<^sup>*\<^sup>* s t"
proof -
  have "preserves (\<lambda>t. (um_step c)\<^sup>*\<^sup>* s t) (rotate_session c i)"
    unfolding rotate_session_def end_and_start_def by (intro preserves_rules ums.P_hooks)
  from preserves_Ok [OF this assms] show ?thesis by simp
qed

lemma um_steps_block: "start_block c now s = Ok w t \<Longrightarrow> (um_step c)\<^sup>*\<^sup>* s t"
  using preserves_Ok [OF ums.P_hooks(7)] by fastforce

lemma um_steps_chain: "chain_step c s t \<Longrightarrow> (um_step c)\<^sup>*\<^sup>* s t"
  using ums.P_chain_step by fastforce

lemma chain_blocks_um_steps: "chain_blocks c bs s t \<Longrightarrow> (um_step c)\<^sup>*\<^sup>* s t"
  by (induction rule: chain_blocks.induct)
    (auto dest: um_steps_block um_steps_chain um_steps_rotate)

text \<open>After a block whose number is a multiple of the interval, all that was accepted is committed.\<close>

lemma start_block_commits:
  assumes "start_block c now s = Ok w t" and "interval (um s) \<noteq> 0" and "now mod interval (um s) = 0"
  shows "committed_in (events t) = outbox s"
  using assms
  by (auto simp: start_block_def lpos_on_initialize_def op_inv on_initialize_eq commit_eq outbox_def
      committed_state_def Let_def modify_def split: if_splits)

lemma blocks_commit:
  assumes "chain_blocks c bs s t" and "now \<in> set bs" and "interval (um s) \<noteq> 0" and "now mod interval (um s) = 0"
  shows "\<exists>new. committed_in (events t) = outbox s @ new"
  using assms
proof (induction rule: chain_blocks.induct)
  case (next_block now' s w t bs u)
  have st: "outbox_extends s t" by (rule um_steps_extend [OF um_steps_block [OF next_block.hyps(1)]])
  show ?case
  proof (cases "now' = now")
    case True
    then have "committed_in (events t) = outbox s"
      using start_block_commits [OF next_block.hyps(1)] next_block.prems by simp
    moreover have "outbox_extends t u" by (rule um_steps_extend [OF chain_blocks_um_steps [OF next_block.hyps(2)]])
    ultimately show ?thesis by (auto simp: outbox_extends_def)
  next
    case False
    then have "\<exists>new. committed_in (events u) = outbox t @ new"
      using next_block.prems next_block.IH st by (simp add: outbox_extends_def)
    then show ?thesis using st by (auto simp: outbox_extends_def)
  qed
next
  case (in_block s t bs u)
  then show ?case using um_steps_extend [OF um_steps_chain [OF in_block.hyps(1)]] by (auto simp: outbox_extends_def)
next
  case (rotation i s r t bs u)
  then show ?case using um_steps_extend [OF um_steps_rotate [OF rotation.hyps(1)]] by (auto simp: outbox_extends_def)
qed simp

section \<open>Exactly once\<close>

lemma outbox_nonces_distinct:
  assumes "um_reachable c s"
  shows "distinct (map msg_nonce (outbox s))"
proof -
  from um_reachable_inv [OF assms] have "delivery_inv s" ..
  then have "map unat (map msg_nonce (outbox s)) = [1 ..< Suc (unat (nonce (um s)))]"
    by (simp add: delivery_inv_def outbox_def)
  then have "distinct (map unat (map msg_nonce (outbox s)))" by (simp only: distinct_upt)
  then show ?thesis unfolding distinct_map [of unat] ..
qed

lemma filter_distinct_key:
  "distinct (map f xs) \<Longrightarrow> x \<in> set xs \<Longrightarrow> filter (\<lambda>y. f y = f x) xs = [x]"
proof (induction xs)
  case (Cons y ys)
  have "filter (\<lambda>z. f z = f y) ys = []" using Cons.prems(1) by (auto simp: filter_empty_conv intro: rev_image_eqI)
  then show ?case using Cons by (cases "x = y") auto
qed simp

lemma accepted_is_committed_once:
  assumes "um_reachable c s" and "m \<in> set (outbox s)" and "interval (um s) \<noteq> 0"
    and "unat (interval (um s)) \<le> k" and "chain_blocks c (map word_of_nat [n ..< n + k]) s t" and "n + k \<le> 2 ^ 32"
  shows "filter (\<lambda>x. msg_nonce x = msg_nonce m) (outbox t) = [m]"
    and "\<exists>h q. UmEvent (Committed h q) \<in> set (events t) \<and> m \<in> set q \<and>
      h = hash_bytes (um_cfg c) (encode_messages (um_cfg c) q)"
proof -
  obtain now where "now \<in> set (map word_of_nat [n ..< n + k])" "now mod interval (um s) = 0"
    using commits_in_range [OF assms(3,4,6)] by (elim bexE)
  from blocks_commit [OF assms(5) this(1) assms(3) this(2)] assms(2)
  have m: "m \<in> set (committed_in (events t))" by auto
  have t: "um_reachable c t" by (rule um_steps_reachable [OF chain_blocks_um_steps [OF assms(5)] assms(1)])
  show "filter (\<lambda>x. msg_nonce x = msg_nonce m) (outbox t) = [m]"
    using m by (intro filter_distinct_key outbox_nonces_distinct [OF t]) (simp add: outbox_def)
  from committed_in_event [OF m] um_reachable_hashed [OF t]
  show "\<exists>h q. UmEvent (Committed h q) \<in> set (events t) \<and> m \<in> set q \<and>
      h = hash_bytes (um_cfg c) (encode_messages (um_cfg c) q)"
    by (fastforce simp: commitments_hashed_def um_events_def)
qed

section \<open>Properties\<close>

text \<open>
  C5. When lock succeeds in a state of the chain, then, whatever else the chain does in as many consecutive
  blocks as the commit interval has, the Lock message with the payload of that transfer is committed in them
  under the next nonce, in an event whose hash is the one of its messages, and is the only message that ever
  had this nonce.
\<close>

theorem locked_transfer_is_committed_once:
  assumes "storage_order (token_order (bridge_cfg c))" and "sessions c > 0" and "chain_at c i s"
    and "lock c org r a s = Ok u s1"
    and "interval (um s) \<noteq> 0" and "unat (interval (um s)) \<le> k"
    and "chain_blocks c (map word_of_nat [n ..< n + k]) s1 t" and "n + k \<le> 2 ^ 32"
  shows "\<exists>w fee aw fw p. org = Signed w \<and> stored_fee c Fungible (bridge s) = Some fee \<and>
    balance_into_u128 (bridge_cfg c) a = Some aw \<and> balance_into_u128 (bridge_cfg c) fee = Some fw \<and>
    try_to_vec c (LockPayload \<lparr>lock_sender = hex_format c (account_encode c w), lock_receiver_id = r,
      lock_amount = aw, lock_fee = fw\<rparr>) = Some p \<and>
    (let m = \<lparr>msg_nonce = nonce (um s) + 1, msg_payload_type = Lock, msg_payload = p\<rparr> in
      filter (\<lambda>x. msg_nonce x = nonce (um s) + 1) (outbox t) = [m] \<and>
      (\<exists>h q. UmEvent (Committed h q) \<in> set (events t) \<and> m \<in> set q \<and>
         h = hash_bytes (um_cfg c) (encode_messages (um_cfg c) q)))"
proof -
  have "chain_step c s s1" by (rule call_succeeds [of c org "BridgeCall (CallLock r a)"]) (use assms(4) in simp_all)
  then have "um_reachable c s1"
    using umr.P_chain_step chain_at_refines [OF assms(1-3)] by blast
  note once = accepted_is_committed_once [OF this _ _ _ assms(7,8)]
  obtain w where w: "org = Signed w" "do_lock c w r a s = Ok u s1"
    using assms(4) by (auto simp: lock_def ensure_activated_def op_inv)
  from w(2) show ?thesis
  proof (rule do_lock_Ok)
    fix fee aw fw x1 x2 p
    let ?m = "\<lparr>msg_nonce = nonce (um s) + 1, msg_payload_type = Lock, msg_payload = p\<rparr>"
    assume p: "stored_fee c Fungible (bridge s) = Some fee"
      "balance_into_u128 (bridge_cfg c) a = Some aw" "balance_into_u128 (bridge_cfg c) fee = Some fw"
      "try_to_vec c (LockPayload \<lparr>lock_sender = hex_format c (account_encode c w), lock_receiver_id = r,
         lock_amount = aw, lock_fee = fw\<rparr>) = Some p"
      and s1: "s1 = transferred Lock p (Locked w r a fee) x2 s"
    have "?m \<in> set (outbox s1)" "interval (um s1) = interval (um s)"
      by (simp_all add: s1 transferred_def outbox_def)
    with once [of ?m] assms(5,6) show ?thesis
      using w(1) p by (intro exI [of _ w] exI [of _ fee] exI [of _ aw] exI [of _ fw] exI [of _ p]) simp
  qed
qed

lemma blocks_exist:
  "interval (um s) \<noteq> 0 \<Longrightarrow> \<exists>t. chain_blocks c bs s t"
proof (induction bs arbitrary: s)
  case Nil
  show ?case by (rule exI, rule no_block)
next
  case (Cons now bs)
  obtain w u where u: "start_block c now s = Ok w u" "interval (um u) = interval (um s)"
    using on_initialize_Ok [of "s\<lparr>block_number := now\<rparr>" c now] Cons.prems
    by (auto simp: start_block_def lpos_on_initialize_def op_simps)
  then obtain t where "chain_blocks c bs u t" using Cons by fastforce
  with u(1) show ?case by (intro exI next_block)
qed

theorem locked_transfer_is_committed_once_witness:
  "\<exists>s s1 t. chain_at demo_config 0 s \<and> lock demo_config (Signed 1) [97] 5 s = Ok () s1 \<and>
     chain_blocks demo_config [3, 4, 5, 6, 7] s1 t \<and>
     filter (\<lambda>x. msg_nonce x = 2) (outbox t) = [\<lparr>msg_nonce = 2, msg_payload_type = Lock, msg_payload = [1, 2, 3]\<rparr>]"
proof -
  obtain s0 where s0: "chain_at demo_config 0 s0" "is_activated (app s0)" "interval (um s0) = 5"
    "crosschain_transfer_fee (bridge s0) = Map.empty" "nonce (um s0) = 1" "length (message_queue (um s0)) = 1"
    using demo_chain by (elim exE conjE) (simp add: demo_app0_def)
  let ?s = "s0\<lparr>ext := demo_ext0\<rparr>"
  have at: "chain_at demo_config 0 ?s" by (rule chain_within [OF s0(1) outside_step])
  have "\<exists>s1. lock demo_config (Signed 1) [97] 5 ?s = Ok () s1 \<and> interval (um s1) = 5"
    using s0(2-6) by (simp add: lock_def do_lock_def do_lock_fungible_transfer_fee_def op_simps demo_simps Let_def from_utf8_def utf8_valid_ascii
        ensure_activated_def stored_fee_def submit_eq queue_full_def too_large_def accept_message_def hex_format_def str_bytes_def)
  then obtain s1 where s1: "lock demo_config (Signed 1) [97] 5 ?s = Ok () s1" "interval (um s1) = 5" by (elim exE conjE)
  obtain t where t: "chain_blocks demo_config (map word_of_nat [3 ..< 3 + 5]) s1 t"
    using blocks_exist [of s1] s1(2) by auto
  have cfg: "storage_order (token_order (bridge_cfg demo_config))" "sessions demo_config > 0"
    by (simp_all add: demo_simps storage_order_def)
  have "filter (\<lambda>x. msg_nonce x = 2) (outbox t) = [\<lparr>msg_nonce = 2, msg_payload_type = Lock, msg_payload = [1, 2, 3]\<rparr>]"
    using locked_transfer_is_committed_once [OF cfg at s1(1) _ _ t] s0(3,5) by (auto simp: Let_def demo_config_def)
  moreover have "map word_of_nat [3 ..< 3 + 5] = [3, 4, 5, 6, 7 :: u32]" by (simp add: upt_rec)
  ultimately show ?thesis using at s1(1) t by (intro exI [of _ ?s] exI [of _ s1] exI [of _ t]) simp
qed

end
