(* ===== verification/Chain_Panics.thy ===== *)
theory Chain_Panics
  imports Chain
begin

text \<open>
  When the chain stops: a panic in a hook stops the production of blocks. The calls and hooks return as
  long as the outside pallets do and the era that ends has stakers; a history depth of zero takes them away.
\<close>

section \<open>Calls\<close>

lemma dispatch_returns:
  assumes "outside_returns (bridge_cfg c)" and "bridge_ok (bridge s)"
  shows "dispatch c org m s \<noteq> Panic"
proof (cases m)
  case (LposCall l)
  then show ?thesis
    by (cases l) (auto simp: set_history_depth_def force_set_era_payout_def op_inv split: option.splits)
next
  case (BridgeCall b)
  then show ?thesis using bridge_dispatch_returns [OF assms] by simp
next
  case (AppchainCall a)
  show ?thesis
  proof (cases a)
    case (SubmitObservations p sig)
    have "vote_run c (map (Pair v) (payload_observations p)) s \<noteq> None" for v
      using vote_run_returns [OF assms(1), of "map (Pair v) (payload_observations p)" s] by auto
    then show ?thesis
      by (auto simp: AppchainCall SubmitObservations submit_observations_def op_inv for_each_votes
          simp del: not_None_eq split: option.splits)
  qed (auto simp: AppchainCall appchain_call_defs op_inv)
qed

section \<open>Hooks\<close>

lemma start_block_Panic: "start_block c now s = Panic \<longleftrightarrow> interval (um s) = 0"
  by (simp add: start_block_def lpos_on_initialize_def op_simps on_initialize_eq commit_eq)

lemma hooks_return: "on_finalize c s \<noteq> Panic" "note_author a s \<noteq> Panic" "start_session c i s \<noteq> Panic"
  by (auto simp: on_finalize_def note_author_def start_session_def start_era_def op_inv Let_def
      split: option.splits if_splits list.splits prod.splits)

lemma plan_session_returns: "(\<And>p. try_to_vec c p \<noteq> None) \<Longrightarrow> plan_session c i s \<noteq> Panic"
  by (auto simp: plan_session_def new_session_def try_trigger_new_era_def op_inv Let_def submit_not_Panic
      split: option.splits if_splits)

lemma finish_session_returns:
  assumes "\<And>a. active_era (lpos s) = Some a \<Longrightarrow> get_exclude_validators c (era_number a) (lpos s) \<noteq> None"
  shows "\<exists>t. finish_session c i s = Ok () t"
proof -
  have "end_session c i s \<noteq> Panic"
    using assms by (auto simp: end_session_def end_era_def op_inv Let_def submit_not_Panic
      split: option.splits if_splits prod.splits)
  then show ?thesis by (cases "end_session c i s") (simp_all add: finish_session_def op_simps)
qed

lemma length_storage_iter:
  assumes "storage_order ord" and "distinct (map fst m)"
  shows "length (storage_iter ord m) = length m"
proof -
  have ks: "distinct (ord (map fst m))" "set (ord (map fst m)) = fst ` set m"
    using assms by (simp_all add: storage_order_def)
  have "length (case map_of m k of Some v \<Rightarrow> [(k, v)] | None \<Rightarrow> []) = 1" if "k \<in> set (ord (map fst m))" for k
    using that ks(2) by (cases "map_of m k") (force simp: map_of_eq_None_iff)+
  then have "length (storage_iter ord m) = sum_list (map (\<lambda>k. 1) (ord (map fst m)))"
    unfolding storage_iter_def length_concat map_map comp_def by (intro arg_cong [of _ _ sum_list] map_cong) simp_all
  also have "\<dots> = length (ord (map fst m))" by (simp add: sum_list_triv)
  also have "\<dots> = length m"
    using ks assms(2) distinct_card [of "ord (map fst m)"] distinct_card [of "map fst m"] by simp
  finally show ?thesis .
qed

text \<open>Every era with points has stakers, and not a multiple of \<open>2 ^ 32\<close> of them.\<close>

lemma excluded_returns:
  assumes "storage_order (staker_order (lpos_cfg c))" and "stakes_inv l"
    and "points_individual (eras_reward_points l e) = [] \<or> word_of_nat (length (eras_stakers l e)) \<noteq> (0 :: u32)"
  shows "get_exclude_validators c e l \<noteq> None"
  using assms(3) length_storage_iter [OF assms(1), of "eras_stakers l e"] assms(2)
  by (simp add: get_exclude_validators_None stakes_inv_def)

lemma rotate_session_returns:
  assumes "\<And>p. try_to_vec c p \<noteq> None"
    and "\<And>a. active_era (lpos s) = Some a \<Longrightarrow> get_exclude_validators c (era_number a) (lpos s) \<noteq> None"
  shows "rotate_session c i s \<noteq> Panic"
proof -
  obtain t where "finish_session c (u32_of i) s = Ok () t" using finish_session_returns [OF assms(2)] by blast
  then show ?thesis
    using hooks_return(3) plan_session_returns [OF assms(1)]
    by (auto simp: rotate_session_def end_and_start_def op_inv)
qed

section \<open>An era without its stakers\<close>

lemma storage_iter_Nil [simp]: "storage_iter ord [] = []"
proof -
  have "concat (map (\<lambda>k. []) ks) = []" for ks :: "'c list" by (induction ks) simp_all
  then show ?thesis by (simp add: storage_iter_def)
qed

lemma clear_eras_payout: "era_payout (clear_eras first_era last_era l) = era_payout l"
  unfolding clear_eras_def by (rule fold_invariant [where Q = "\<lambda>_. True"]) auto

lemma depth_zero_clears_active:
  assumes planned: "eras_planned S (Suc i) (lpos s)" and active: "eras_active S i (lpos s)"
    and S: "S > 0" "S dvd Suc i" and i: "Suc i < 2 ^ 32"
    and d: "history_depth (lpos s) \<noteq> 0" and run: "set_history_depth Root 0 n s = Ok u t"
  shows "eras_stakers (lpos t) (u32_of (i div S)) = []"
    and "eras_validator_reward (lpos t) (u32_of (i div S)) = None"
    and "eras_start_session_index (lpos t) (u32_of (i div S) + 1) = Some (u32_of (Suc i))"
    and "active_era (lpos t) = active_era (lpos s)" and "app t = app s" and "era_payout (lpos t) = era_payout (lpos s)"
proof -
  let ?a = "u32_of (i div S)" and ?cur = "u32_of (Suc (i div S))"
  have n: "Suc i = Suc (i div S) * S" "Suc i div S = Suc (i div S)"
    using div_step [OF S(1), of i] S(2) by simp_all
  have "Suc (i div S) \<le> Suc i" by (simp add: div_le_dividend)
  then have small: "Suc (i div S) < 2 ^ 32" using i by linarith
  then have nat: "unat ?a = i div S" "unat ?cur = Suc (i div S)" by (simp_all add: unat_u32_of)
  have cur: "current_era (lpos s) = Some ?cur" "eras_start_session_index (lpos s) ?cur = Some (u32_of (Suc i))"
    using planned n by (simp_all add: eras_planned_def)
  define first where "first = (case checked_sub ?cur (history_depth (lpos s)) of Some e \<Rightarrow> e | None \<Rightarrow> 0)"
  have "0 < unat (history_depth (lpos s))" using d by (simp add: unat_gt_0)
  then have first: "first \<le> ?a"
    using nat by (auto simp: first_def word_le_nat_alt dest!: unat_checked_sub split: option.splits)
  have t: "t = s\<lparr>lpos := (clear_eras first ?cur (lpos s))\<lparr>history_depth := 0\<rparr>\<rparr>"
    using run cur by (auto simp: set_history_depth_def op_inv Let_def first_def checked_sub_def)
  have "first \<le> ?a \<and> ?a < ?cur" using first nat by (simp add: word_less_nat_alt)
  then show "eras_stakers (lpos t) ?a = []" "eras_validator_reward (lpos t) ?a = None"
    by (simp_all add: t clear_eras_fields)
  show "eras_start_session_index (lpos t) (?a + 1) = Some (u32_of (Suc i))"
    using cur by (simp add: t clear_eras_fields flip: u32_of_Suc)
  show "active_era (lpos t) = active_era (lpos s)" by (simp add: t clear_eras_keeps(3) [OF le_refl])
  show "app t = app s" by (simp add: t)
  show "era_payout (lpos t) = era_payout (lpos s)" by (simp add: t clear_eras_payout)
qed

lemma finish_session_Panic:
  assumes "active_era (lpos s) = Some a" and "is_activated (app s)" "era_payout (lpos s) \<noteq> 0" "era_start a \<noteq> None"
    and "eras_validator_reward (lpos s) (era_number a) = None"
    and "eras_start_session_index (lpos s) (era_number a + 1) = Some (i + 1)"
    and "get_exclude_validators c (era_number a) (lpos s) = None"
  shows "finish_session c i s = Panic"
  using assms by (auto simp: finish_session_def end_session_def end_era_def op_simps Let_def)

section \<open>Properties\<close>

text \<open>
  C12. In any state of the chain, every call with any origin and arguments, the hooks of a block and the
  rotation of the sessions return without a panic, as long as the outside pallets return, Borsh serializes,
  the commit interval is not zero and no era with reward points is without stakers.
\<close>

theorem chain_never_panics:
  assumes "storage_order (token_order (bridge_cfg c))" "storage_order (staker_order (lpos_cfg c))"
    and "sessions c > 0" and "chain_at c i s"
    and "outside_returns (bridge_cfg c)" and "\<And>p. try_to_vec c p \<noteq> None" and "interval (um s) \<noteq> 0"
    and "\<And>e. points_individual (eras_reward_points (lpos s) e) = [] \<or> word_of_nat (length (eras_stakers (lpos s) e)) \<noteq> (0 :: u32)"
  shows "dispatch c org m s \<noteq> Panic \<and> start_block c now s \<noteq> Panic \<and> on_finalize c s \<noteq> Panic \<and>
    note_author a s \<noteq> Panic \<and> rotate_session c i s \<noteq> Panic"
proof -
  have ok: "bridge_ok (bridge s)" "stakes_inv (lpos s)"
    using chain_at_refines [OF assms(1,3,4)] lpos_reachable_inv by blast+
  have "get_exclude_validators c e (lpos s) \<noteq> None" for e
    by (rule excluded_returns [OF assms(2) ok(2) assms(8)])
  then show ?thesis
    using assms(6,7)
    by (intro conjI dispatch_returns [OF assms(5) ok(1)] rotate_session_returns hooks_return) (simp_all add: start_block_Panic)
qed

theorem chain_never_panics_witness:
  "\<exists>s. chain_at demo_config 0 s \<and> dispatch demo_config (Signed 1) (BridgeCall (CallLock [97] 5)) s \<noteq> Panic \<and>
     rotate_session demo_config 0 s \<noteq> Panic"
proof -
  obtain s where s: "chain_at demo_config 0 s" "interval (um s) = 5"
    "\<And>e. points_individual (eras_reward_points (lpos s) e) = []"
    using demo_chain by (elim exE conjE) (simp add: demo_lpos0_def default_era_reward_points_def)
  have cfg: "storage_order (token_order (bridge_cfg demo_config))" "storage_order (staker_order (lpos_cfg demo_config))"
    "sessions demo_config > 0" "try_to_vec demo_config p \<noteq> None" for p
    by (simp_all add: demo_simps storage_order_def)
  note out = demo_outside_returns
  from chain_never_panics [OF cfg(1-3) s(1) out cfg(4), of "Signed 1" "BridgeCall (CallLock [97] 5)"] s
  show ?thesis by (intro exI [of _ s]) simp
qed

text \<open>
  C19. When root sets the history depth to zero in the last session of an activated, paying era, the stakers
  of the era that is still active are deleted; as soon as another block is authored, ending the era divides
  by the number of its stakers, zero, and panics in the session hook, which stops the chain.
\<close>

theorem history_depth_zero_stops_the_chain:
  assumes "sessions c > 0" and "session_at c i s" and "sessions c dvd Suc i"
    and "active_era (lpos s) = Some a" and "era_start a \<noteq> None"
    and "is_activated (app s)" and "era_payout (lpos s) \<noteq> 0" and "history_depth (lpos s) \<noteq> 0"
    and "set_history_depth Root 0 n s = Ok u s1" and "note_author w s1 = Ok u' s2"
  shows "finish_session c (u32_of i) s2 = Panic"
proof -
  note inv = session_at_inv [OF assms(2,1)]
  have a: "era_number a = u32_of (i div sessions c)" using inv assms(4) by (simp add: eras_active_def)
  have "eras_planned (sessions c) (Suc i) (lpos s)" "eras_active (sessions c) i (lpos s)" "Suc i < 2 ^ 32"
    using inv by simp_all
  note s1 = depth_zero_clears_active [OF this(1,2) assms(1,3) this(3) assms(8,9), folded a]
  have s2: "s2 = s1\<lparr>lpos := reward_by_ids [(w, 1)] (lpos s1)\<rparr>" using assms(10) by (simp add: note_author_def op_inv)
  have active: "active_era (lpos s1) = Some a" using s1 assms(4) by simp
  have "points_individual (add_points (w, 1) p) \<noteq> []" for p :: "'a era_reward_points"
    by (cases "points_individual p") (auto simp: add_points_def)
  then have "get_exclude_validators c (era_number a) (lpos s2) = None"
    using s1(1) by (simp add: get_exclude_validators_None s2 reward_by_ids_def active)
  then show ?thesis
    using s1(2,3,5,6) assms(5-7)
    by (intro finish_session_Panic [of s2 a]) (simp_all add: s2 reward_by_ids_def u32_of_Suc active)
qed

lemma demo_second_session:
  "\<exists>t. session_at demo_config (Suc 0) t \<and> is_activated (app t) \<and> history_depth (lpos t) = 84 \<and>
     current_era (lpos t) = Some 1 \<and> active_era (lpos t) = Some \<lparr>era_number = 0, era_set_id = 0, era_start = None\<rparr>"
proof -
  obtain s where s: "chain_at demo_config 0 s" "lpos s = demo_lpos0\<lparr>current_era := Some 0,
       current_planned_session := 1, active_era := Some \<lparr>era_number = 0, era_set_id = 0, era_start = None\<rparr>,
       eras_start_session_index := [0 \<mapsto> 0],
       eras_stakers := (\<lambda>e. []) (0 := [(1, 300), (2, 50), (3, 50)]),
       eras_total_stake := (\<lambda>e. 0) (0 := 400), bonded_eras := [(0, 0)]\<rparr>"
    "app s = demo_app0\<lparr>planned_validators := [(1, 300), (2, 50), (3, 50)]\<rparr>"
    using demo_chain by (elim exE conjE)
  have "\<exists>r t. rotate_session demo_config 0 s = Ok r t \<and> is_activated (app t) \<and> history_depth (lpos t) = 84 \<and>
     current_era (lpos t) = Some 1 \<and> active_era (lpos t) = Some \<lparr>era_number = 0, era_set_id = 0, era_start = None\<rparr>"
    by (simp add: rotate_session_def end_and_start_def plan_session_def new_session_def try_trigger_new_era_def
        start_session_def start_era_def finish_session_def end_session_def end_era_def trigger_new_era_def
        store_stakers_info_def store_staker_def op_simps Let_def checked_sub_def saturating_sub_def
        saturating_add_def checked_add_def u32_of_def s(2,3) demo_lpos0_def demo_app0_def demo_config_def demo_lpos_config_def)
  then obtain r t where t: "rotate_session demo_config 0 s = Ok r t" "is_activated (app t)" "history_depth (lpos t) = 84"
     "current_era (lpos t) = Some 1" "active_era (lpos t) = Some \<lparr>era_number = 0, era_set_id = 0, era_start = None\<rparr>"
    by (elim exE conjE)
  have "chain_at demo_config (Suc 0) t"
    by (rule chain_rotate [OF s(1) _ _ t(1)]) (simp_all add: s(3) stakes_sum_def)
  moreover have "storage_order (token_order (bridge_cfg demo_config))" "sessions demo_config > 0"
    by (simp_all add: demo_simps storage_order_def)
  ultimately have "session_at demo_config (Suc 0) t" using chain_at_refines by blast
  with t show ?thesis by (intro exI [of _ t]) simp
qed

theorem history_depth_zero_stops_the_chain_witness:
  "\<exists>s s1 s2. session_at demo_config 1 s \<and> set_history_depth Root 0 0 s = Ok () s1 \<and> note_author 1 s1 = Ok () s2 \<and>
     finish_session demo_config 1 s2 = Panic"
proof -
  obtain t where t: "session_at demo_config (Suc 0) t" "is_activated (app t)" "history_depth (lpos t) = 84"
     "current_era (lpos t) = Some 1" "active_era (lpos t) = Some \<lparr>era_number = 0, era_set_id = 0, era_start = None\<rparr>"
    using demo_second_session by (elim exE conjE)
  let ?a = "\<lparr>era_number = 0, era_set_id = 0, era_start = Some 5\<rparr>"
  let ?s = "t\<lparr>lpos := (lpos t)\<lparr>active_era := Some ?a, era_payout := 7\<rparr>\<rparr>"
  have at: "session_at demo_config (Suc 0) ?s" by (rule other_calls [OF t(1)]) (simp add: era_view_def t(5))
  obtain s1 where s1: "set_history_depth Root 0 0 ?s = Ok () s1"
    by (simp add: set_history_depth_def op_simps t(4))
  obtain s2 where s2: "note_author 1 s1 = Ok () s2" by (simp add: note_author_def op_simps)
  have "sessions demo_config = 2" by (simp add: demo_simps)
  then have "finish_session demo_config (u32_of (Suc 0)) s2 = Panic"
    using t by (intro history_depth_zero_stops_the_chain [OF _ at _ _ _ _ _ _ s1 s2, of ?a]) simp_all
  with at s1 s2 show ?thesis by (intro exI [of _ ?s] exI [of _ s1] exI [of _ s2]) (simp add: u32_of_def)
qed

end
