(* ===== verification/Handover.thy ===== *)
theory Handover
  imports Chain_Panics
begin

text \<open>
  A validator set on its way from the mainchain into power: voted for by the validators, planned for
  the next era, and in charge, with exactly its stakes, from the first session of that era on.
\<close>

section \<open>The stakes of an era that is planned or active\<close>

definition era_stakes :: "era_index \<Rightarrow> 'a lpos_state \<Rightarrow> ('a \<times> u128) list \<times> u128" where
  "era_stakes e l = (eras_stakers l e, eras_total_stake l e)"

lemma era_stakes_view: "stakes_view l = stakes_view l' \<Longrightarrow> era_stakes e l = era_stakes e l'"
  by (simp add: stakes_view_def era_stakes_def)

lemma clear_eras_stakes: "last_era \<le> e \<Longrightarrow> era_stakes e (clear_eras first_era last_era l) = era_stakes e l"
  by (simp add: era_stakes_def clear_eras_fields leD)

lemma set_history_depth_stakes:
  assumes "set_history_depth org d n s = Ok u t" and "current_era (lpos s) = Some e"
  shows "era_stakes e (lpos t) = era_stakes e (lpos s)"
proof -
  define b where "b = (case checked_sub e d of Some x \<Rightarrow> x | None \<Rightarrow> 0)"
  have b: "b \<le> e" by (auto simp: b_def word_le_nat_alt dest!: unat_checked_sub split: option.splits)
  obtain a where "lpos t = (clear_eras a b (lpos s))\<lparr>history_depth := d\<rparr>"
    using assms by (auto simp: set_history_depth_def op_inv Let_def b_def)
  then show ?thesis using clear_eras_stakes [OF b, of a "lpos s"] by (simp add: era_stakes_def)
qed

lemma chain_step_stakes:
  assumes "chain_step c s t" and "current_era (lpos s) = Some e"
  shows "era_stakes e (lpos t) = era_stakes e (lpos s)"
  using chain_step_lpos [OF assms(1)]
proof (elim disjE exE conjE)
  fix org d n u assume "set_history_depth org d n s = Ok u t"
  then show ?thesis using assms(2) by (rule set_history_depth_stakes)
next
  fix inner :: "('a, 'b, 'c, unit) call" and k j ids u
  assume "outside_handler inner" "report_offence inner k j ids s = Ok u t"
  then have "stakes_view (lpos t) = stakes_view (lpos s)" using offence_lpos count_offences_view by metis
  then show ?thesis by (rule era_stakes_view)
qed (auto intro!: era_stakes_view dest: preserves_Ok [OF stakes_frame(3) _ refl]
    preserves_Ok [OF stakes_frame(4) _ refl] preserves_Ok [OF stakes_frame(5) _ refl])

section \<open>Sessions without a rotation\<close>

definition later_in_session :: "('a, 'b, 'x) config \<Rightarrow> ('a, 'b, 'x) runtime \<Rightarrow> ('a, 'b, 'x) runtime \<Rightarrow> bool" where
  "later_in_session c = (chain_step c)\<^sup>*\<^sup>*"

lemma later_in_session_keeps:
  assumes "later_in_session c s t" and S: "sessions c > 0" and "session_at c i s" "lpos_reachable c s"
  shows "session_at c i t \<and> lpos_reachable c t \<and> current_era (lpos t) = current_era (lpos s) \<and>
    (\<forall>e. current_era (lpos s) = Some e \<longrightarrow> era_stakes e (lpos t) = era_stakes e (lpos s))"
  using assms(1) unfolding later_in_session_def
proof induction
  case base
  then show ?case using assms(3,4) by simp
next
  case (step t u)
  have at: "session_at c i u" using step by (simp add: session_at_chain_step)
  have era: "current_era (lpos v) = Some (u32_of (Suc i div sessions c))" if "session_at c i v" for v
    using session_at_inv [OF that S] by (simp add: eras_planned_def)
  from step at show ?case
    using era [OF at] era [of t] era [OF assms(3)] chain_step_stakes [OF step(2)]
    by (simp add: lpos_reachable_chain_step)
qed

section \<open>From session to session\<close>

text \<open>\<open>chain_from c i s j t\<close>: from the state \<open>s\<close> in session \<open>i\<close> the chain comes to \<open>t\<close> in session \<open>j\<close>.\<close>

inductive chain_from :: "('a, 'b, 'x) config \<Rightarrow> nat \<Rightarrow> ('a, 'b, 'x) runtime \<Rightarrow> nat \<Rightarrow> ('a, 'b, 'x) runtime \<Rightarrow> bool"
  for c i s where
  from_here: "chain_from c i s i s"
| from_within: "chain_from c i s j t \<Longrightarrow> chain_step c t u \<Longrightarrow> chain_from c i s j u"
| from_rotate: "chain_from c i s j t \<Longrightarrow> Suc (Suc j) < 2 ^ 32 \<Longrightarrow> stakes_sum (planned_validators (app t)) < 2 ^ 128 \<Longrightarrow>
     rotate_session c j t = Ok r u \<Longrightarrow> chain_from c i s (Suc j) u"

lemma chain_from_keeps:
  assumes "chain_from c i s j t" and S: "sessions c > 0" and "session_at c i s" and "lpos_reachable c s"
  shows "session_at c j t \<and> lpos_reachable c t"
  using assms(1)
proof induction
  case from_here
  then show ?case using assms(3,4) by simp
next
  case (from_within j t u)
  then show ?case by (simp add: session_at_chain_step lpos_reachable_chain_step)
next
  case (from_rotate j t r u)
  then have "session_at c j t" "lpos_reachable c t" by simp_all
  from rotation_reachable [OF this(1) S from_rotate(2) this(2) from_rotate(3,4)] show ?case by simp
qed

text \<open>Without a payout the sessions rotate, whatever the message queue answers.\<close>

lemma trigger_new_era_payout: "era_payout (snd (trigger_new_era i vs l)) = era_payout l"
  by (simp add: trigger_new_era_def store_stakers_info_def Let_def clear_era_information_def split: option.split prod.split)

lemma unpaid_end_and_start:
  assumes "era_payout (lpos s) = 0"
  shows "\<exists>t. end_and_start c i s = Ok () t \<and> era_payout (lpos t) = 0 \<and> app t = app s"
proof -
  have finish: "finish_session c (u32_of i) s = Ok () s"
    using assms by (simp add: finish_session_def end_session_def end_era_def op_simps split: option.split)
  have "start_session c k s \<noteq> Err e t" for k e t
    by (auto simp: start_session_def start_era_def update_ext_def op_inv Let_def split: option.splits if_splits list.splits prod.splits)
  then obtain u t where t: "start_session c (u32_of (Suc i)) s = Ok u t"
    by (cases "start_session c (u32_of (Suc i)) s") (auto simp: hooks_return(3))
  then have "era_payout (lpos t) = 0"
    using assms by (auto simp: start_session_def start_era_def on_lpos_def update_ext_def op_inv modify_lpos_def Let_def
        split: option.splits if_splits list.splits prod.splits)
  then show ?thesis
    using finish t preserves_Ok [OF lpos_hooks_frame(5) t refl] by (simp add: end_and_start_def op_simps)
qed

lemma unpaid_rotation:
  assumes "era_payout (lpos s) = 0" and "\<And>p. try_to_vec c p \<noteq> None"
  shows "\<exists>r t. rotate_session c i s = Ok r t \<and> era_payout (lpos t) = 0 \<and> app t = app s"
proof -
  obtain t where t: "end_and_start c i s = Ok () t" "era_payout (lpos t) = 0" "app t = app s"
    using unpaid_end_and_start [OF assms(1)] by blast
  have "plan_session c k t \<noteq> Err e u" for k e u
    by (auto simp: plan_session_def new_session_def try_trigger_new_era_def op_inv Let_def split: option.splits if_splits)
  then obtain r u where u: "plan_session c (u32_of (Suc (Suc i))) t = Ok r u"
    by (cases "plan_session c (u32_of (Suc (Suc i))) t") (auto simp: plan_session_returns [OF assms(2)])
  then have "era_payout (lpos u) = 0"
    using plan_session_Ok [OF u] t(2) by (auto simp: trigger_new_era_payout split: if_splits)
  then show ?thesis
    using t u preserves_Ok [OF lpos_hooks_frame(4) u refl] by (simp add: rotate_session_def op_simps)
qed

section \<open>A vote for a validator set\<close>

definition stakes_of_set :: "'a validator_set \<Rightarrow> ('a \<times> u128) list" where
  "stakes_of_set vs = map (\<lambda>v. (validator_id_in_appchain v, validator_total_stake v)) (validators vs)"

lemma set_is_planned:
  assumes "quorum v (UpdateValidatorSet vs) s" and "submit_observation c v (UpdateValidatorSet vs) s = Ok u t"
  shows "planned_validators (app t) = stakes_of_set vs" and "lpos t = lpos s"
proof -
  from assms(2) have "planned_validators (app t) = stakes_of_set vs \<and> lpos t = lpos s"
  proof (rule submit_observation_Ok)
    fix obs assume "if quorum v (UpdateValidatorSet vs) s
      then execute_observation c (observation_index (UpdateValidatorSet vs)) (UpdateValidatorSet vs)
          (cast_vote v (UpdateValidatorSet vs) obs s) = Ok () t
      else t = cast_vote v (UpdateValidatorSet vs) obs s"
    then show ?thesis
      using assms(1) by (auto simp: stakes_of_set_def execute_validator_set simp del: execute_observation.simps split: if_splits)
  qed
  then show "planned_validators (app t) = stakes_of_set vs" "lpos t = lpos s" by simp_all
qed

section \<open>Planning and starting the era\<close>

lemma planned_stakes:
  assumes inv: "stakes_inv (lpos s)" and cur: "current_era (lpos s) \<noteq> Some (- 1)"
    and over: "era_is_over c j (lpos s)" and run: "plan_session c j s = Ok r t"
    and vs: "planned_validators (app s) = vs" "distinct (map fst vs)" "stakes_sum vs < 2 ^ 128"
  shows "\<exists>e. r = Some (map fst vs) \<and> current_era (lpos t) = Some e \<and>
    (\<forall>w. eras_stakers_get (lpos t) e w = (case map_of vs w of Some x \<Rightarrow> x | None \<Rightarrow> 0)) \<and>
    unat (eras_total_stake (lpos t) e) = stakes_sum vs"
proof -
  obtain l where l: "l = (lpos s)\<lparr>current_planned_session := j\<rparr>"
    and t: "r = Some (map fst vs)" "lpos t = snd (trigger_new_era j vs l)"
    using plan_session_Ok [OF run] over vs(1) by auto
  let ?e = "next_planned_era l"
  have later: "x < x + 1" if "current_era (lpos s) = Some x" for x
    using that cur unat_succ [of x] by (simp add: word_less_nat_alt)
  have "eras_stakers l ?e = []"
    using inv later by (auto simp add: l stakes_inv_def next_planned_era_def split: option.splits)
  then obtain k where k: "snd (trigger_new_era j vs l) = snd (store_stakers_info vs ?e k)" "eras_stakers k ?e = []"
    using trigger_new_era_stakes [of j vs l] by metis
  have "unat (eras_total_stake (lpos t) ?e) = stakes_sum vs"
    using store_stakers_total [of vs 0 "[]"] vs(3) by (simp add: t(2) k)
  moreover have "eras_stakers_get (lpos t) ?e w = (case map_of vs w of Some x \<Rightarrow> x | None \<Rightarrow> 0)" for w
    unfolding t(2) by (rule trigger_new_era_get [OF vs(2) \<open>eras_stakers l ?e = []\<close>])
  moreover have "current_era (lpos t) = Some ?e" by (simp add: t(2))
  ultimately show ?thesis using t(1) by (intro exI [of _ ?e]) simp
qed

lemma started_era:
  assumes S: "sessions c > 0" and i: "Suc i < 2 ^ 32" and at: "session_at c i s"
    and dvd: "sessions c dvd Suc i" and run: "end_and_start c i s = Ok u t"
    and e: "current_era (lpos s) = Some e"
  shows "map_option era_number (active_era (lpos t)) = Some e" and "era_stakes e (lpos t) = era_stakes e (lpos s)"
proof -
  obtain y s1 where run: "finish_session c (u32_of i) s = Ok y s1" "start_session c (u32_of (Suc i)) s1 = Ok u t"
    using run by (auto simp: end_and_start_def bind_Ok_iff)
  have e': "e = u32_of (Suc i div sessions c)"
    using session_at_inv [OF at S] e by (simp add: eras_planned_def)
  have "eras_planned (sessions c) (Suc i) (lpos s1) \<and> eras_active (sessions c) i (lpos s1)"
    using session_at_inv [OF at S] preserves_Ok [OF finish_session_frame run(1) refl] era_view_eqD by metis
  then have "eras_active (sessions c) (Suc i) (lpos t)"
    using start_next_session [OF S i _ _ run(2)] by simp
  then show "map_option era_number (active_era (lpos t)) = Some e" by (simp add: eras_active_def e')
  have "stakes_view (lpos t) = stakes_view (lpos s)"
    using preserves_Ok [OF stakes_frame(1) run(1) refl] preserves_Ok [OF stakes_frame(2) run(2) refl] by simp
  then show "era_stakes e (lpos t) = era_stakes e (lpos s)" by (rule era_stakes_view)
qed

lemma active_stakes:
  assumes "map_option era_number (active_era (lpos t)) = Some e" and "era_stakes e (lpos t) = era_stakes e (lpos s)"
  shows "active_stake_of t w = eras_stakers_get (lpos s) e w" and "active_total_stake t = Some (eras_total_stake (lpos s) e)"
  using assms by (auto simp: active_stake_of_def active_total_stake_def era_stakes_def eras_stakers_get_def)

section \<open>Properties\<close>

text \<open>
  C4. A validator set of distinct accounts whose stakes sum to less than 2^128, once an accepted vote has
  given it two thirds of the stake in any session of the chain, is returned to the session pallet at every
  later era boundary that is planned, any number of sessions and other calls later, while no other set
  replaces it; and once that era has started its validators have exactly the stakes of the set, every other
  account has none, and the active total is their sum.
\<close>

theorem voted_set_takes_over:
  assumes "storage_order (token_order (bridge_cfg c))" and S: "sessions c > 0" and "chain_at c i s"
    and vote: "quorum v (UpdateValidatorSet vs) s" "submit_observation c v (UpdateValidatorSet vs) s = Ok u s1"
    and set_ok: "distinct (map fst (stakes_of_set vs))" "stakes_sum (stakes_of_set vs) < 2 ^ 128"
    and latest: "chain_from c i s1 j s2" "planned_validators (app s2) = planned_validators (app s1)"
    and rotate: "sessions c dvd Suc (Suc j)" "Suc (Suc j) < 2 ^ 32" "rotate_session c j s2 = Ok r s3"
    and "later_in_session c s3 s4" and starts: "end_and_start c (Suc j) s4 = Ok u' s5"
  shows "r = Some (map fst (stakes_of_set vs)) \<and>
    (\<forall>w. active_stake_of s5 w = (case map_of (stakes_of_set vs) w of Some x \<Rightarrow> x | None \<Rightarrow> 0)) \<and>
    map_option unat (active_total_stake s5) = Some (stakes_sum (stakes_of_set vs))"
proof -
  have at: "session_at c i s" "lpos_reachable c s" using chain_at_refines [OF assms(1-3)] by simp_all
  note planned = set_is_planned [OF vote]
  have "session_at c i s1" "lpos_reachable c s1"
    using at planned(2) by (auto intro: other_calls others)
  from chain_from_keeps [OF latest(1) S this]
  have s2: "session_at c j s2" "lpos_reachable c s2" by simp_all
  have vs: "planned_validators (app s2) = stakes_of_set vs" using latest(2) planned(1) by simp
  have s3: "session_at c (Suc j) s3" "lpos_reachable c s3"
    using rotation_reachable [OF s2(1) S rotate(2) s2(2) _ rotate(3)] vs set_ok(2) by simp_all
  obtain y1 t1 y2 t2 where run: "finish_session c (u32_of j) s2 = Ok y1 t1"
    "start_session c (u32_of (Suc j)) t1 = Ok y2 t2" "plan_session c (u32_of (Suc (Suc j))) t2 = Ok r s3"
    using rotate(3) by (auto simp: rotate_session_Ok)
  note t2 = rotation_planned [OF s2(1) S rotate(2) run(1,2)]
  have "era_is_over c (u32_of (Suc (Suc j))) (lpos t2)"
    using era_is_over_planned [OF t2(1) rotate(2)] div_step(3) [OF S, of "Suc j"] rotate(1) by blast
  moreover have "planned_validators (app t2) = stakes_of_set vs"
    using vs preserves_Ok [OF lpos_hooks_frame(6) run(1) refl] preserves_Ok [OF lpos_hooks_frame(5) run(2) refl] by simp
  moreover have "stakes_inv (lpos t2)"
    by (rule lpos_reachable_inv [OF lpos_session_start [OF lpos_finish [OF s2(2) run(1)] run(2)]])
  ultimately obtain e where e: "r = Some (map fst (stakes_of_set vs))" "current_era (lpos s3) = Some e"
    "\<forall>w. eras_stakers_get (lpos s3) e w = (case map_of (stakes_of_set vs) w of Some x \<Rightarrow> x | None \<Rightarrow> 0)"
    "unat (eras_total_stake (lpos s3) e) = stakes_sum (stakes_of_set vs)"
    using planned_stakes [OF _ t2(2) _ run(3) _ set_ok] by blast
  have s4: "session_at c (Suc j) s4" "current_era (lpos s4) = Some e" "era_stakes e (lpos s4) = era_stakes e (lpos s3)"
    using later_in_session_keeps [OF assms(13) S s3] e(2) by simp_all
  note s5 = started_era [OF S rotate(2) s4(1) rotate(1) starts s4(2)]
  show ?thesis
    using active_stakes [OF s5(1), of s3] s5(2) s4(3) e by simp
qed

definition demo_next_set :: "nat validator_set" where
  "demo_next_set = \<lparr>set_id = 1, validators = [\<lparr>validator_id_in_appchain = 2, validator_total_stake = 500\<rparr>]\<rparr>"

lemma demo_handover:
  "\<exists>s s1 s2 r s3 u s5. chain_at demo_config 0 s \<and> quorum 1 (UpdateValidatorSet demo_next_set) s \<and>
     submit_observation demo_config 1 (UpdateValidatorSet demo_next_set) s = Ok () s1 \<and>
     chain_from demo_config 0 s1 2 s2 \<and> planned_validators (app s2) = planned_validators (app s1) \<and>
     rotate_session demo_config 2 s2 = Ok r s3 \<and> end_and_start demo_config 3 s3 = Ok u s5"
proof -
  let ?o = "UpdateValidatorSet demo_next_set"
  obtain s where s: "chain_at demo_config 0 s" "lpos s = demo_lpos0\<lparr>current_era := Some 0,
       current_planned_session := 1, active_era := Some \<lparr>era_number = 0, era_set_id = 0, era_start = None\<rparr>,
       eras_start_session_index := [0 \<mapsto> 0],
       eras_stakers := (\<lambda>e. []) (0 := [(1, 300), (2, 50), (3, 50)]),
       eras_total_stake := (\<lambda>e. 0) (0 := 400), bonded_eras := [(0, 0)]\<rparr>"
    "app s = demo_app0\<lparr>planned_validators := [(1, 300), (2, 50), (3, 50)]\<rparr>"
    using demo_chain by (elim exE conjE)
  have tot: "active_total_stake s = Some 400" "vote_stake 1 ?o s = 300"
    by (simp_all add: active_total_stake_def vote_stake_def votes_after_def active_stake_of_def eras_stakers_get_def s
        demo_app0_def)
  then have q: "quorum 1 ?o s" by (simp add: quorum_def)
  have "\<exists>obs. noted_observations ?o s = Some obs"
    by (simp add: noted_observations_def s demo_app0_def)
  then obtain obs where "noted_observations ?o s = Some obs" ..
  let ?t = "cast_vote 1 ?o obs s"
  have app: "app ?t = demo_app0\<lparr>planned_validators := [(1, 300), (2, 50), (3, 50)], observations := obs,
      observing := (\<lambda>o'. []) (?o := [1])\<rparr>"
    by (simp add: cast_vote_def votes_after_def s) (simp add: demo_app0_def)
  let ?s1 = "?t\<lparr>app := (app ?t)\<lparr>planned_validators := [(2, 500)], next_set_id := 2\<rparr>,
      events := events s @ [AppchainEvent (NewPlannedValidators 1 [(2, 500)])]\<rparr>"
  have exec: "execute_observation demo_config (observation_index ?o) ?o ?t = Ok () ?s1"
    unfolding execute_validator_set by (simp add: s) (simp add: demo_app0_def demo_next_set_def)
  have "index_accepted demo_config ?o s" "vote_fits demo_config 1 ?o s"
    by (simp_all add: index_accepted_def vote_fits_def s) (simp_all add: demo_app0_def demo_next_set_def demo_config_def demo_app_config_def)
  then have vote: "submit_observation demo_config 1 ?o s = Ok () ?s1"
    using exec tot \<open>noted_observations ?o s = Some obs\<close>
    by (simp add: submit_observation_eq del: execute_observation.simps)
  have s1: "lpos ?s1 = lpos s" "is_activated (app ?s1)" "planned_validators (app ?s1) = [(2, 500)]"
    by (simp_all add: app s) (simp add: demo_app0_def)
  have pay: "era_payout (lpos ?s1) = 0" "\<And>p. try_to_vec demo_config p \<noteq> None"
    by (simp_all add: s1(1) s(2) demo_lpos0_def) (simp add: demo_config_def)
  obtain r1 a where a: "rotate_session demo_config 0 ?s1 = Ok r1 a" "era_payout (lpos a) = 0" "app a = app ?s1"
    using unpaid_rotation [OF pay] by blast
  obtain r2 b where b: "rotate_session demo_config 1 a = Ok r2 b" "era_payout (lpos b) = 0" "app b = app a"
    using unpaid_rotation [OF a(2) pay(2)] by blast
  obtain r s3 where s3: "rotate_session demo_config 2 b = Ok r s3" "era_payout (lpos s3) = 0"
    using unpaid_rotation [OF b(2) pay(2)] by blast
  obtain u s5 where s5: "end_and_start demo_config 3 s3 = Ok u s5" using unpaid_end_and_start [OF s3(2)] by blast
  have vs: "stakes_sum (planned_validators (app a)) < 2 ^ 128" "stakes_sum (planned_validators (app ?s1)) < 2 ^ 128"
    unfolding a(3) s1(3) by (simp_all add: stakes_sum_def)
  have "chain_from demo_config 0 ?s1 (Suc 0) a" by (rule from_rotate [OF from_here _ vs(2) a(1)]) simp
  then have "chain_from demo_config 0 ?s1 (Suc (Suc 0)) b" by (rule from_rotate [OF _ _ vs(1)]) (use b(1) in simp_all)
  moreover have "planned_validators (app b) = planned_validators (app ?s1)" by (simp only: a(3) b(3))
  ultimately show ?thesis
    using s(1) q vote s3(1) s5 unfolding numeral_2_eq_2 by (intro exI conjI)
qed

text \<open>The set is voted for in session 0 and returned for the boundary that is planned at the end of session 2.\<close>

theorem voted_set_takes_over_witness:
  "\<exists>s s1 s2 s3 s5. chain_at demo_config 0 s \<and>
     submit_observation demo_config 1 (UpdateValidatorSet demo_next_set) s = Ok () s1 \<and>
     chain_from demo_config 0 s1 2 s2 \<and>
     rotate_session demo_config 2 s2 = Ok (Some [2]) s3 \<and> end_and_start demo_config 3 s3 = Ok () s5 \<and>
     active_stake_of s5 2 = 500 \<and> active_stake_of s5 1 = 0 \<and> map_option unat (active_total_stake s5) = Some 500"
proof -
  obtain s s1 s2 r s3 u s5 where s: "chain_at demo_config 0 s" "quorum 1 (UpdateValidatorSet demo_next_set) s"
    "submit_observation demo_config 1 (UpdateValidatorSet demo_next_set) s = Ok () s1"
    "chain_from demo_config 0 s1 2 s2" "planned_validators (app s2) = planned_validators (app s1)"
    "rotate_session demo_config 2 s2 = Ok r s3" "end_and_start demo_config 3 s3 = Ok u s5"
    using demo_handover by (elim exE conjE)
  have cfg: "storage_order (token_order (bridge_cfg demo_config))" "sessions demo_config = 2"
    by (simp_all add: demo_simps storage_order_def)
  have stakes: "stakes_of_set demo_next_set = [(2, 500)]" by (simp add: stakes_of_set_def demo_next_set_def)
  have stay: "later_in_session demo_config s3 s3" by (simp add: later_in_session_def)
  have starts: "end_and_start demo_config (Suc 2) s3 = Ok u s5" using s(7) by simp
  from voted_set_takes_over [OF cfg(1) _ s(1-3) _ _ s(4,5) _ _ s(6) stay starts]
  show ?thesis using s
    by (intro exI [of _ s] exI [of _ s1] exI [of _ s2] exI [of _ s3] exI [of _ s5]) (simp add: cfg stakes stakes_sum_def)
qed

end
