(* ===== verification/Weights.thy ===== *)
theory Weights
  imports Runtime_Runs
begin

text \<open>
  The weights of the calls and hooks (\<open>weights.rs\<close> of the four pallets). A weight is read as its \<open>ref_time\<close>;
  the arithmetic of \<open>frame_support\<close> on it saturates. \<open>impl WeightInfo for ()\<close> uses the database weights of
  RocksDB, which are a constant of \<open>frame_support\<close>, and the generic one those of the runtime: both are the
  argument \<open>db\<close>.
\<close>

section \<open>Arithmetic\<close>

definition saturating_mul :: "'w::len word \<Rightarrow> 'w word \<Rightarrow> 'w word" where
  "saturating_mul a b = (if unat a * unat b < 2 ^ LENGTH('w) then a * b else - 1)"

text \<open>\<open>RuntimeDbWeight\<close>.\<close>

record runtime_db_weight =
  db_read :: u64
  db_write :: u64

definition db_reads :: "runtime_db_weight \<Rightarrow> u64 \<Rightarrow> weight" where
  "db_reads db n = saturating_mul (db_read db) n"

definition db_writes :: "runtime_db_weight \<Rightarrow> u64 \<Rightarrow> weight" where
  "db_writes db n = saturating_mul (db_write db) n"

text \<open>A base weight and the chain of its \<open>.saturating_add\<close>s.\<close>

definition weight_sum :: "weight \<Rightarrow> weight list \<Rightarrow> weight" where
  "weight_sum base ws = foldl saturating_add base ws"

section \<open>\<open>upward-messages/src/weights.rs\<close>\<close>

record um_weight_info =
  um_weight_on_initialize :: "u32 \<Rightarrow> u32 \<Rightarrow> weight"
  um_weight_on_initialize_non_interval :: weight
  um_weight_on_initialize_no_messages :: weight

definition um_substrate_weight :: "runtime_db_weight \<Rightarrow> um_weight_info" where
  "um_substrate_weight db =
     \<lparr>um_weight_on_initialize = (\<lambda>m p.
         weight_sum 44276000 [saturating_mul 1355295 (ucast m), saturating_mul 43983 (ucast p),
           db_reads db 3, db_writes db 2]),
       um_weight_on_initialize_non_interval = weight_sum 8801000 [db_reads db 1],
       um_weight_on_initialize_no_messages = weight_sum 10705000 [db_reads db 2]\<rparr>"

definition um_unit_weight :: "runtime_db_weight \<Rightarrow> um_weight_info" where
  "um_unit_weight db =
     \<lparr>um_weight_on_initialize = (\<lambda>m p.
         weight_sum 44276000 [saturating_mul 1355295 (ucast m), saturating_mul 43983 (ucast p),
           db_reads db 3, db_writes db 2]),
       um_weight_on_initialize_non_interval = weight_sum 8801000 [db_reads db 1],
       um_weight_on_initialize_no_messages = weight_sum 10705000 [db_reads db 2]\<rparr>"

section \<open>\<open>bridge/src/weights.rs\<close>\<close>

record bridge_weight_info =
  bridge_weight_lock :: weight
  bridge_weight_burn_nep141 :: weight
  bridge_weight_lock_nonfungible :: weight
  bridge_weight_set_token_id :: weight
  bridge_weight_delete_token_id :: weight
  bridge_weight_force_unlock :: weight
  bridge_weight_force_mint_nep141 :: weight
  bridge_weight_force_unlock_nonfungible :: weight
  bridge_weight_set_oracle_account :: weight
  bridge_weight_set_token_price :: weight

definition bridge_substrate_weight :: "runtime_db_weight \<Rightarrow> bridge_weight_info" where
  "bridge_substrate_weight db =
     \<lparr>bridge_weight_lock = weight_sum 130449000 [db_reads db 5, db_writes db 3],
       bridge_weight_burn_nep141 = weight_sum 158225000 [db_reads db 8, db_writes db 4],
       bridge_weight_lock_nonfungible = weight_sum 156792000 [db_reads db 8, db_writes db 6],
       bridge_weight_set_token_id = weight_sum 55321000 [db_reads db 4, db_writes db 1],
       bridge_weight_delete_token_id = weight_sum 23566000 [db_reads db 1, db_writes db 1],
       bridge_weight_force_unlock = weight_sum 95486000 [db_reads db 1, db_writes db 1],
       bridge_weight_force_mint_nep141 = weight_sum 82034000 [db_reads db 2, db_writes db 2],
       bridge_weight_force_unlock_nonfungible = weight_sum 87126000 [db_reads db 2, db_writes db 4],
       bridge_weight_set_oracle_account = weight_sum 30963000 [db_writes db 1],
       bridge_weight_set_token_price = weight_sum 51843000 [db_reads db 2, db_writes db 4]\<rparr>"

definition bridge_unit_weight :: "runtime_db_weight \<Rightarrow> bridge_weight_info" where
  "bridge_unit_weight db =
     \<lparr>bridge_weight_lock = weight_sum 130449000 [db_reads db 5, db_writes db 3],
       bridge_weight_burn_nep141 = weight_sum 158225000 [db_reads db 8, db_writes db 4],
       bridge_weight_lock_nonfungible = weight_sum 156792000 [db_reads db 8, db_writes db 6],
       bridge_weight_set_token_id = weight_sum 55321000 [db_reads db 4, db_writes db 1],
       bridge_weight_delete_token_id = weight_sum 23566000 [db_reads db 1, db_writes db 1],
       bridge_weight_force_unlock = weight_sum 95486000 [db_reads db 1, db_writes db 1],
       bridge_weight_force_mint_nep141 = weight_sum 82034000 [db_reads db 2, db_writes db 2],
       bridge_weight_force_unlock_nonfungible = weight_sum 87126000 [db_reads db 2, db_writes db 4],
       bridge_weight_set_oracle_account = weight_sum 30963000 [db_writes db 1],
       bridge_weight_set_token_price = weight_sum 51843000 [db_reads db 2, db_writes db 4]\<rparr>"

section \<open>\<open>lpos/src/weights.rs\<close>\<close>

record lpos_weight_info =
  lpos_weight_set_history_depth :: "u32 \<Rightarrow> u32 \<Rightarrow> weight"
  lpos_weight_force_set_era_payout :: weight

definition lpos_substrate_weight :: "runtime_db_weight \<Rightarrow> lpos_weight_info" where
  "lpos_substrate_weight db =
     \<lparr>lpos_weight_set_history_depth = (\<lambda>b m.
         weight_sum 22213000 [db_reads db 2, db_writes db 1]),
       lpos_weight_force_set_era_payout = weight_sum 11196000 [db_writes db 1]\<rparr>"

definition lpos_unit_weight :: "runtime_db_weight \<Rightarrow> lpos_weight_info" where
  "lpos_unit_weight db =
     \<lparr>lpos_weight_set_history_depth = (\<lambda>b m.
         weight_sum 22213000 [db_reads db 2, db_writes db 1]),
       lpos_weight_force_set_era_payout = weight_sum 11196000 [db_writes db 1]\<rparr>"

section \<open>\<open>appchain/src/weights.rs\<close>\<close>

record appchain_weight_info =
  appchain_weight_force_set_is_activated :: weight
  appchain_weight_force_set_next_set_id :: weight
  appchain_weight_force_set_planned_validators :: "u32 \<Rightarrow> weight"
  appchain_weight_force_set_next_notification_id :: weight
  appchain_weight_submit_observations :: "u32 \<Rightarrow> weight"

definition appchain_substrate_weight :: "runtime_db_weight \<Rightarrow> appchain_weight_info" where
  "appchain_substrate_weight db =
     \<lparr>appchain_weight_force_set_is_activated = weight_sum 10856000 [db_writes db 1],
       appchain_weight_force_set_next_set_id = weight_sum 26202000 [db_writes db 1],
       appchain_weight_force_set_planned_validators = (\<lambda>b.
         weight_sum 11677000 [saturating_mul 42125 (ucast b), db_writes db 1]),
       appchain_weight_force_set_next_notification_id = weight_sum 26403000 [db_writes db 1],
       appchain_weight_submit_observations = (\<lambda>b.
         weight_sum 362301000 [saturating_mul 94376073 (ucast b), db_reads db 14,
           db_reads db (saturating_mul 2 (ucast b)), db_writes db 10, db_writes db (saturating_mul 2 (ucast b))])\<rparr>"

definition appchain_unit_weight :: "runtime_db_weight \<Rightarrow> appchain_weight_info" where
  "appchain_unit_weight db =
     \<lparr>appchain_weight_force_set_is_activated = weight_sum 10856000 [db_writes db 1],
       appchain_weight_force_set_next_set_id = weight_sum 26202000 [db_writes db 1],
       appchain_weight_force_set_planned_validators = (\<lambda>b.
         weight_sum 11677000 [saturating_mul 42125 (ucast b), db_writes db 1]),
       appchain_weight_force_set_next_notification_id = weight_sum 26403000 [db_writes db 1],
       appchain_weight_submit_observations = (\<lambda>b.
         weight_sum 362301000 [saturating_mul 94376073 (ucast b), db_reads db 14,
           db_reads db (saturating_mul 2 (ucast b)), db_writes db 10, db_writes db (saturating_mul 2 (ucast b))])\<rparr>"

section \<open>Declared weights\<close>

text \<open>The attributes \<open>pallet::weight\<close> of the calls whose weight depends on their arguments; \<open>len() as u32\<close> truncates.\<close>

definition set_history_depth_weight :: "lpos_weight_info \<Rightarrow> era_index \<Rightarrow> u32 \<Rightarrow> weight" where
  "set_history_depth_weight W new_history_depth era_items_deleted =
     lpos_weight_set_history_depth W new_history_depth era_items_deleted"

definition submit_observations_weight :: "appchain_weight_info \<Rightarrow> (bytes, 'a) observations_payload \<Rightarrow> weight" where
  "submit_observations_weight W payload =
     appchain_weight_submit_observations W (word_of_nat (length (payload_observations payload)))"

definition force_set_planned_validators_weight :: "appchain_weight_info \<Rightarrow> ('a \<times> u128) list \<Rightarrow> weight" where
  "force_set_planned_validators_weight W vs =
     appchain_weight_force_set_planned_validators W (word_of_nat (length vs))"

text \<open>A runtime that takes the weights of \<open>upward-messages\<close> from \<open>W\<close>.\<close>

definition um_weights_from :: "um_weight_info \<Rightarrow> um_config \<Rightarrow> bool" where
  "um_weights_from W cfg \<longleftrightarrow> weight_on_initialize cfg = um_weight_on_initialize W \<and>
     weight_on_initialize_non_interval cfg = um_weight_on_initialize_non_interval W \<and>
     weight_on_initialize_no_messages cfg = um_weight_on_initialize_no_messages W"

end
