(* ===== verification/Weights_Properties.thy ===== *)
theory Weights_Properties
  imports Weights
begin

text \<open>
  What the declared weights guarantee: a bound on the weight of the hook of \<open>upward-messages\<close>, and the call
  whose weight does not follow its work.
\<close>

section \<open>Saturating sums and products\<close>

lemma unat_saturating_mul: "unat (saturating_mul a b :: weight) = min (unat a * unat b) (2 ^ 64 - 1)"
  by (auto simp: saturating_mul_def unat_word_ariths min_def not_less unsigned_minus_1_eq_mask mask_eq_exp_minus_1)

lemma unat_weight_sum: "unat (weight_sum base ws) = min (unat base + sum_list (map unat ws)) (2 ^ 64 - 1)"
proof (induction ws arbitrary: base)
  case Nil
  have "unat base < 2 ^ 64" using unsigned_less [of base] by simp
  then show ?case by (simp add: weight_sum_def)
next
  case (Cons w ws)
  have "weight_sum base (w # ws) = weight_sum (saturating_add base w) ws" by (simp add: weight_sum_def)
  then show ?case by (simp only: Cons.IH unat_saturating_add) simp
qed

lemma saturating_mul_mono: "b \<le> d \<Longrightarrow> saturating_mul a b \<le> (saturating_mul a d :: weight)"
  by (simp add: word_le_nat_alt unat_saturating_mul min.coboundedI1 mult_le_mono2)

lemma weight_sum_mono: "list_all2 (\<le>) vs ws \<Longrightarrow> weight_sum base vs \<le> weight_sum base ws"
proof -
  assume "list_all2 (\<le>) vs ws"
  then have "sum_list (map unat vs) \<le> sum_list (map unat ws)"
    by (induction rule: list_all2_induct) (simp_all add: word_le_nat_alt add_mono)
  then show ?thesis unfolding word_le_nat_alt unat_weight_sum by (intro min.mono) simp_all
qed

text \<open>The two implementations of each \<open>WeightInfo\<close> declare the same weights, each for its own database.\<close>

lemma unit_weights_agree:
  "um_unit_weight = um_substrate_weight" "bridge_unit_weight = bridge_substrate_weight"
  "lpos_unit_weight = lpos_substrate_weight" "appchain_unit_weight = appchain_substrate_weight"
  by (simp_all add: fun_eq_iff um_unit_weight_def um_substrate_weight_def bridge_unit_weight_def
      bridge_substrate_weight_def lpos_unit_weight_def lpos_substrate_weight_def appchain_unit_weight_def
      appchain_substrate_weight_def)

text \<open>More observations never weigh less, as long as their number fits \<open>u32\<close>.\<close>

lemma submit_observations_weight_mono:
  assumes "length (payload_observations p) \<le> length (payload_observations q)"
    and "length (payload_observations q) < 2 ^ 32"
  shows "submit_observations_weight (appchain_substrate_weight db) p \<le> submit_observations_weight (appchain_substrate_weight db) q"
proof -
  let ?n = "word_of_nat (length (payload_observations p)) :: u32" and ?m = "word_of_nat (length (payload_observations q)) :: u32"
  have "(ucast ?n :: u64) \<le> ucast ?m"
    using assms by (simp add: word_le_nat_alt unat_of_nat unsigned_ucast_eq take_bit_nat_eq_self)
  then show ?thesis
    unfolding submit_observations_weight_def appchain_substrate_weight_def
    by (simp add: db_reads_def db_writes_def weight_sum_mono saturating_mul_mono)
qed

section \<open>Properties\<close>

lemma average_payload_bounded:
  assumes "average_payload_size ms = Some avg" and "\<And>m. m \<in> set ms \<Longrightarrow> length (msg_payload m) \<le> k"
  shows "unat avg \<le> Suc k"
proof -
  have "sum_list (map (length \<circ> msg_payload) ms) \<le> length ms * k"
    using assms(2) by (induction ms) (auto intro: add_mono)
  then have "sum_list (map (length \<circ> msg_payload) ms) div length ms \<le> length ms * k div length ms"
    by (rule div_le_mono)
  also have "\<dots> \<le> k" by (cases "length ms = 0") simp_all
  finally have "sum_list (map (length \<circ> msg_payload) ms) div length ms \<le> k" .
  moreover have "avg = word_of_nat (sum_list (map (length \<circ> msg_payload) ms) div length ms + 1)"
    using assms(1) by (simp add: average_payload_size_def Let_def fold_add_lengths split: if_splits)
  then have "unat avg \<le> sum_list (map (length \<circ> msg_payload) ms) div length ms + 1"
    by (simp only: unat_of_nat mod_less_eq_dividend)
  ultimately show ?thesis by linarith
qed

lemma unat_widen: "unat (ucast (x :: u32) :: u64) = unat x"
proof -
  have "unat x < 2 ^ 32" using unsigned_less [of x, where 'a = nat] by simp
  then have "unat x < 2 ^ 64" by simp
  then show ?thesis by (simp add: unsigned_ucast_eq take_bit_nat_eq_self)
qed

text \<open>
  C27. In every reachable state the weight that on_initialize of upward-messages returns with its generated
  weights is at most the one of a full queue of payloads of the largest size, with three reads and two
  writes.
\<close>

theorem block_start_weight_bounded:
  assumes "um_reachable c s" and "um_weights_from (um_substrate_weight db) (um_cfg c)"
    and "on_initialize c now s = Ok w s'"
  shows "unat w \<le> 44276000 + 1355295 * unat (max_messages_per_commit (um_cfg c)) +
    43983 * (unat (max_message_payload_size (um_cfg c)) + 1) + 3 * unat (db_read db) + 2 * unat (db_write db)"
proof -
  have ok: "um_ok c s" using um_reachable_inv [OF assms(1)] ..
  note W = assms(2) [unfolded um_weights_from_def um_substrate_weight_def um_weight_info.simps]
  let ?q = "message_queue (um s)"
  consider (idle) "w = weight_sum 8801000 [db_reads db 1]" | (empty) "w = weight_sum 10705000 [db_reads db 2]"
    | (commit) avg where "average_payload_size ?q = Some avg"
        "w = weight_sum 44276000 [saturating_mul 1355295 (ucast (word_of_nat (length ?q) :: u32)),
           saturating_mul 43983 (ucast avg), db_reads db 3, db_writes db 2]"
    using assms(3) W average_payload_size_Some [of ?q]
    by (fastforce simp: on_initialize_eq commit_eq split: if_splits)
  then show ?thesis
  proof cases
    case commit
    have "unat avg \<le> Suc (unat (max_message_payload_size (um_cfg c)))"
      using ok by (intro average_payload_bounded [OF commit(1)]) (simp add: um_ok_def)
    moreover have "unat (word_of_nat (length ?q) :: u32) \<le> unat (max_messages_per_commit (um_cfg c))"
      using ok by (simp add: um_ok_def unat_of_nat) (metis le_trans mod_less_eq_dividend)
    ultimately show ?thesis unfolding commit(2) unat_weight_sum
      by (simp add: db_reads_def db_writes_def unat_saturating_mul unat_widen)
  qed (simp_all add: unat_weight_sum db_reads_def unat_saturating_mul)
qed

text \<open>The concrete configuration with generated weights, at the database weights of RocksDB.\<close>

definition demo_db :: runtime_db_weight where
  "demo_db = \<lparr>db_read = 25000000, db_write = 100000000\<rparr>"

definition demo_weighed :: "(nat, u128, demo_ext) config" where
  "demo_weighed = demo_config\<lparr>um_cfg := demo_um_config\<lparr>
     weight_on_initialize := um_weight_on_initialize (um_substrate_weight demo_db),
     weight_on_initialize_non_interval := um_weight_on_initialize_non_interval (um_substrate_weight demo_db),
     weight_on_initialize_no_messages := um_weight_on_initialize_no_messages (um_substrate_weight demo_db)\<rparr>\<rparr>"

theorem block_start_weight_bounded_witness:
  "\<exists>s w s'. submit demo_weighed (Some 1) Lock [7, 8] demo_state = Ok 1 s \<and> on_initialize demo_weighed 5 s = Ok w s' \<and>
     unat w \<le> 44276000 + 1355295 * 2 + 43983 * 5 + 275000000"
proof -
  obtain s where s: "submit demo_weighed (Some 1) Lock [7, 8] demo_state = Ok 1 s" "interval (um s) = 5"
    by (simp add: submit_eq queue_full_def too_large_def accept_message_def Let_def demo_weighed_def demo_simps)
  then obtain w s' where run: "on_initialize demo_weighed 5 s = Ok w s'"
    using on_initialize_Ok [of s demo_weighed 5] by auto
  have "um_reachable demo_weighed demo_state"
    by (rule um_reachable.start [of _ 5]) (simp_all add: demo_simps um_empty_def um_events_def)
  then have "um_reachable demo_weighed s" by (rule um_reachable.step [OF _ um_step.accepted [OF s(1)]])
  moreover have "um_weights_from (um_substrate_weight demo_db) (um_cfg demo_weighed)"
    by (simp add: um_weights_from_def demo_weighed_def)
  ultimately have "unat w \<le> 44276000 + 1355295 * 2 + 43983 * 5 + 275000000"
    using block_start_weight_bounded [OF _ _ run, of demo_db] by (simp add: demo_weighed_def demo_um_config_def demo_db_def)
  with s(1) run show ?thesis by (intro exI conjI)
qed

text \<open>
  C28. For every number of eras up to the history depth there is a set_history_depth call that deletes the
  information of that many eras, and its declared weight is the one of a call that deletes nothing, whatever
  number of deleted items it reports.
\<close>

theorem history_depth_weight_ignores_its_work:
  assumes "current_era (lpos s) = Some cur" and "unat (history_depth (lpos s)) \<le> unat cur"
    and "k \<le> unat (history_depth (lpos s))"
  shows "\<exists>d s' E. set_history_depth Root d n s = Ok () s' \<and> card E = k \<and>
    (\<forall>e \<in> E. e < cur \<and> unat cur - unat (history_depth (lpos s)) \<le> unat e \<and>
       eras_stakers (lpos s') e = [] \<and> eras_validator_reward (lpos s') e = None \<and>
       eras_reward_points (lpos s') e = default_era_reward_points \<and> eras_total_stake (lpos s') e = 0 \<and>
       eras_start_session_index (lpos s') e = None) \<and>
    set_history_depth_weight (lpos_substrate_weight db) d n =
      set_history_depth_weight (lpos_substrate_weight db) (history_depth (lpos s)) 0"
proof -
  let ?h = "unat (history_depth (lpos s))"
  let ?a = "unat cur - ?h"
  obtain m where m: "?h - k = m" by simp
  let ?d = "word_of_nat m :: era_index" and ?E = "(word_of_nat :: nat \<Rightarrow> era_index) ` {?a ..< ?a + k}"
  have "unat cur < 2 ^ 32" "?h < 2 ^ 32"
    using unsigned_less [of cur, where 'a = nat] unsigned_less [of "history_depth (lpos s)", where 'a = nat] by simp_all
  then have small: "unat ?d = ?h - k" "\<And>j. j < ?a + k \<Longrightarrow> unat (word_of_nat j :: era_index) = j"
    using assms(2,3) m by (simp_all add: unat_of_nat)
  have d: "unat cur - unat ?d = ?a + k" unfolding small(1) using assms(2,3) by linarith
  obtain s' where s': "set_history_depth Root ?d n s = Ok () s'"
    "\<forall>e. ?a \<le> unat e \<and> unat e < ?a + k \<longrightarrow> eras_stakers (lpos s') e = [] \<and> eras_validator_reward (lpos s') e = None \<and>
       eras_reward_points (lpos s') e = default_era_reward_points \<and> eras_total_stake (lpos s') e = 0 \<and>
       eras_start_session_index (lpos s') e = None"
    using set_history_depth_deletes [OF assms(1) refl refl, of ?d n] unfolding d by (elim exE conjE) auto
  have "inj_on (word_of_nat :: nat \<Rightarrow> era_index) {?a ..< ?a + k}"
    by (rule inj_on_inverseI [where g = unat]) (simp add: small(2))
  then have "card ?E = k" by (simp add: card_image)
  moreover have "e < cur \<and> ?a \<le> unat e \<and> unat e < ?a + k" if "e \<in> ?E" for e
  proof -
    from that obtain j where j: "e = word_of_nat j" "?a \<le> j" "j < ?a + k" by auto
    then have "unat e = j" by (simp add: small(2))
    then show ?thesis using j assms(2,3) by (simp add: word_less_nat_alt)
  qed
  ultimately show ?thesis
    using s' by (intro exI [of _ ?d] exI [of _ s'] exI [of _ ?E])
      (simp add: set_history_depth_weight_def lpos_substrate_weight_def)
qed

theorem history_depth_weight_ignores_its_work_witness:
  "\<exists>d s' E. set_history_depth Root d 5 (demo_state\<lparr>lpos := demo_lpos0\<lparr>current_era := Some 1000\<rparr>\<rparr>) = Ok () s' \<and> card E = 84 \<and>
    (\<forall>e \<in> E. 916 \<le> unat e \<and> eras_start_session_index (lpos s') e = None) \<and>
    set_history_depth_weight (lpos_substrate_weight demo_db) d 5 = 172213000"
proof -
  have "set_history_depth_weight (lpos_substrate_weight demo_db) d n = 172213000" for d n
    by (simp add: set_history_depth_weight_def lpos_substrate_weight_def weight_sum_def db_reads_def db_writes_def
        saturating_mul_def saturating_add_def checked_add_def demo_db_def)
  moreover obtain d s' E where "set_history_depth Root d 5 (demo_state\<lparr>lpos := demo_lpos0\<lparr>current_era := Some 1000\<rparr>\<rparr>) = Ok () s'"
    "card (E :: era_index set) = 84" "\<forall>e \<in> E. 916 \<le> unat e \<and> eras_start_session_index (lpos s') e = None"
    using history_depth_weight_ignores_its_work [of "demo_state\<lparr>lpos := demo_lpos0\<lparr>current_era := Some 1000\<rparr>\<rparr>" 1000 84 5 demo_db]
    by (elim meta_impE) (auto simp: demo_lpos0_def)
  ultimately show ?thesis by (intro exI [of _ d] exI [of _ s'] exI [of _ E]) simp
qed

end
