(* ===== verification/Test_Scenarios.thy ===== *)
theory Test_Scenarios
  imports Appchain_Properties Mainchain_Text
begin

text \<open>
  The unit tests of the repository (\<open>tests.rs\<close> of the pallets) as runs of the model: an \<open>assert_ok\<close> is an
  \<open>Ok\<close>, an \<open>assert_noop\<close> an \<open>Err\<close> with the state unchanged. The outside pallets are those of \<open>Demo\<close>, with the
  decimals, the threshold and the coefficient of the mock runtime; accounts are numbers (Alice is 1, Bob 2).
\<close>

section \<open>The bridge\<close>

definition alice :: nat where "alice = 1"
definition bob :: nat where "bob = 2"

text \<open>\<open>new_tester\<close>: the chain is not activated.\<close>

definition new_tester :: "(nat, u128, demo_ext) runtime" where
  "new_tester = demo_state\<lparr>app := demo_app0\<lparr>is_activated := False\<rparr>\<rparr>"

lemmas tester_simps = new_tester_def alice_def bob_def op_simps demo_simps Let_def

lemma test_set_token_id:
  "set_token_id demo_config Root (str_bytes ''usdc.testnet'') 2 new_tester = Err (BridgeError NotActivated) new_tester \<and>
   (\<exists>s1. force_set_is_activated Root True new_tester = Ok () s1 \<and>
     set_token_id demo_config (Signed alice) (str_bytes ''usdc.testnet'') 2 s1 = Err BadOrigin s1 \<and>
     (\<exists>s2. set_token_id demo_config Root (str_bytes ''usdc.testnet'') 2 s1 = Ok () s2 \<and>
       set_token_id demo_config Root (str_bytes ''usdc.testnet'') 2 s2 = Err (BridgeError TokenIdInUse) s2 \<and>
       set_token_id demo_config Root (str_bytes ''test.testnet'') 2 s2 = Err (BridgeError AssetIdInUse) s2 \<and>
       (\<exists>s3. set_token_id demo_config Root (str_bytes ''test.testnet'') 1 s2 = Ok () s3)))"
  by (simp add: set_token_id_def ensure_activated_def force_set_is_activated_def insert_asset_id_def storage_iter_def
      str_bytes_def tester_simps)

lemma test_delete_token_id:
  "\<exists>s1 s2. force_set_is_activated Root True new_tester = Ok () s1 \<and>
     set_token_id demo_config Root (str_bytes ''test.testnet'') 1 s1 = Ok () s2 \<and>
     delete_token_id Root (str_bytes ''gg.testnet'') s2 = Err (BridgeError TokenIdNotExist) s2 \<and>
     delete_token_id (Signed alice) (str_bytes ''test.testnet'') s2 = Err BadOrigin s2 \<and>
     (\<exists>s3. delete_token_id Root (str_bytes ''test.testnet'') s2 = Ok () s3)"
  by (simp add: set_token_id_def delete_token_id_def ensure_activated_def force_set_is_activated_def insert_asset_id_def
      storage_iter_def str_bytes_def tester_simps)

lemma test_lock:
  "lock demo_config (Signed alice) (str_bytes ''test-account.testnet'') 1 new_tester =
     Err (BridgeError NotActivated) new_tester \<and>
   (\<exists>s1. force_set_is_activated Root True new_tester = Ok () s1 \<and>
     lock demo_config (Signed alice) [0, 159] 1 s1 = Err (BridgeError InvalidReceiverId) s1 \<and>
     (\<exists>s2. lock demo_config (Signed alice) (str_bytes ''test-account.testnet'') 1 s1 = Ok () s2))"
  by (simp add: lock_def do_lock_def do_lock_fungible_transfer_fee_def ensure_activated_def force_set_is_activated_def
      from_utf8_def stored_fee_def submit_eq queue_full_def too_large_def accept_message_def hex_format_def
      str_bytes_def transactional_def tester_simps)

lemma test_burn_nep141:
  "\<exists>s1. fungibles_mint_into demo_bridge_config 0 alice 10000000000000000000000 demo_ext0 = Ok () s1 \<and>
     burn_nep141 demo_config (Signed alice) 0 (str_bytes ''test-account.testnet'') 10000000000 (new_tester\<lparr>ext := s1\<rparr>) =
       Err (BridgeError NotActivated) (new_tester\<lparr>ext := s1\<rparr>) \<and>
     (\<exists>s2 s3 s4. force_set_is_activated Root True (new_tester\<lparr>ext := s1\<rparr>) = Ok () s2 \<and>
       set_token_id demo_config Root (str_bytes ''test.testnet'') 0 s2 = Ok () s3 \<and>
       burn_nep141 demo_config (Signed alice) 0 (str_bytes ''test-account.testnet'') 100000000 s3 = Ok () s4)"
  by (simp add: burn_nep141_def do_burn_nep141_def do_lock_fungible_transfer_fee_def ensure_activated_def
      force_set_is_activated_def set_token_id_def insert_asset_id_def storage_iter_def try_get_token_id_def
      from_utf8_def stored_fee_def submit_eq queue_full_def too_large_def accept_message_def hex_format_def
      str_bytes_def transactional_def tester_simps)

lemma test_force_unlock:
  "force_unlock demo_config (Signed bob) (Inr alice) 10 new_tester = Err BadOrigin new_tester \<and>
   (\<exists>s1. force_unlock demo_config Root (Inr alice) 999 new_tester = Ok () s1)"
  by (simp add: force_unlock_def lookup_def tester_simps)

lemma test_force_mint_nep141:
  "(\<exists>s1. force_mint_nep141 demo_config Root 0 (Inr 6) 1000000000 new_tester = Ok () s1 \<and>
     force_mint_nep141 demo_config (Signed 6) 1 (Inr 6) 1000000000 s1 = Err BadOrigin s1)"
  by (simp add: force_mint_nep141_def lookup_def tester_simps)

lemma test_set_oracle_account:
  "set_oracle_account (Signed bob) (Inr alice) new_tester = Err BadOrigin new_tester \<and>
   (\<exists>s1. set_oracle_account Root (Inr alice) new_tester = Ok () s1 \<and> oracle_account (bridge s1) = Some alice)"
  by (simp add: set_oracle_account_def lookup_def tester_simps)

text \<open>The fees that \<open>test_set_token_price\<close> expects, for one price of NEAR and six of the native token.\<close>

definition fee_after :: "u64 \<Rightarrow> u64 \<Rightarrow> (nat, u128, demo_ext) runtime \<Rightarrow> u128 option option" where
  "fee_after near native s = (case set_token_price demo_config (Signed alice) near native s of
     Ok _ t \<Rightarrow> crosschain_transfer_fee (bridge t) Fungible | _ \<Rightarrow> None)"

lemma test_set_token_price:
  "set_token_price demo_config (Signed alice) 1000 1000 new_tester = Err (BridgeError NoOracleAccount) new_tester \<and>
   (\<exists>s1. set_oracle_account Root (Inr alice) new_tester = Ok () s1 \<and>
     set_token_price demo_config (Signed bob) 1000 1000 s1 = Err (BridgeError UpdatePriceWithNoPermissionAccount) s1 \<and>
     set_token_price demo_config (Signed alice) 0 0 s1 = Err (BridgeError NearPriceSetedIsZero) s1 \<and>
     set_token_price demo_config (Signed alice) 1000 0 s1 = Err (BridgeError NativeTokenPriceSetedIsZero) s1)"
  by (simp add: set_token_price_def set_oracle_account_def lookup_def tester_simps)

lemma test_fees:
  assumes "set_oracle_account Root (Inr alice) new_tester = Ok () s"
  shows "fee_after 1000 1000 s = Some (Some 30000000000000000)"
    and "fee_after 3119000 6620000 s = Some (Some 14134441000000000)"
    and "fee_after 3119000 20535200000 s = Some (Some 4556000000000)"
    and "fee_after 3119000 41000 s = Some (Some 2282195121000000000)"
    and "fee_after 3119000 1 s = Some (Some 300000000000000000000)"
    and "fee_after 3119000 3119000 s = Some (Some 30000000000000000)"
  using assms
  by (auto simp: fee_after_def set_token_price_def calculate_and_update_fee_def calculate_quantity_of_native_tokens_def
      set_oracle_account_def lookup_def default_for_coef_def tester_simps)

lemma test_set_coef_for_calculate_fee:
  "set_coef_for_calculate_fee Root 0 new_tester = Err (BridgeError InvalidCoef) new_tester \<and>
   set_coef_for_calculate_fee (Signed alice) 3 new_tester = Err BadOrigin new_tester \<and> coef (bridge new_tester) = 3 \<and>
   (\<exists>s1. set_coef_for_calculate_fee Root 5 new_tester = Ok () s1 \<and> coef (bridge s1) = 5)"
  by (simp add: set_coef_for_calculate_fee_def default_for_coef_def tester_simps)

section \<open>The message queue\<close>

text \<open>The limits are those of \<open>Demo\<close>: two messages of four bytes.\<close>

lemma test_submit:
  "\<exists>s1 s2. submit demo_config (Some alice) Lock [0, 1, 2] new_tester = Ok 1 s1 \<and> nonce (um s1) = 1 \<and>
     submit demo_config (Some alice) BurnAsset [0, 1, 2] s1 = Ok 2 s2 \<and> nonce (um s2) = 2 \<and>
     submit demo_config (Some bob) BurnAsset [0, 1, 2] s2 = Err (UmError QueueSizeLimitReached) s2"
  by (simp add: submit_eq queue_full_def too_large_def accept_message_def tester_simps)

lemma test_submit_exceeds_payload_limit:
  "submit demo_config (Some bob) BurnAsset [0, 1, 2, 3, 4] new_tester = Err (UmError PayloadTooLarge) new_tester"
  by (simp add: submit_eq queue_full_def too_large_def tester_simps)

lemma test_submit_fails_on_nonce_overflow:
  "submit demo_config (Some bob) Lock [0, 1, 2] (new_tester\<lparr>um := demo_um0\<lparr>nonce := - 1\<rparr>\<rparr>) =
     Err (UmError NonceOverflow) (new_tester\<lparr>um := demo_um0\<lparr>nonce := - 1\<rparr>\<rparr>)"
  by (simp add: submit_eq queue_full_def too_large_def tester_simps)

section \<open>The root calls of lpos and appchain\<close>

lemma test_set_history_depth:
  "\<exists>s1. set_history_depth Root 0 (- 1) new_tester = Ok () s1 \<and>
     set_history_depth (Signed 6) 0 (- 1) s1 = Err BadOrigin s1 \<and>
     (\<exists>s2. set_history_depth Root 0 (- 1)
        (s1\<lparr>lpos := snd (trigger_new_era 1 [(alice, 100), (bob, 100)] (lpos s1))\<rparr>) = Ok () s2)"
  by (simp add: set_history_depth_def tester_simps split: option.split)

lemma test_force_set_era_payout:
  "\<exists>s1. force_set_era_payout Root (- 1) new_tester = Ok () s1 \<and> era_payout (lpos s1) = - 1 \<and>
     force_set_era_payout (Signed 6) (- 1) s1 = Err BadOrigin s1"
  by (simp add: force_set_era_payout_def tester_simps)

lemma test_force_set_params:
  "\<exists>s1. force_set_planned_validators Root [(alice, 100), (bob, 100), (3, 100)] new_tester = Ok () s1 \<and>
     planned_validators (app s1) = [(alice, 100), (bob, 100), (3, 100)] \<and>
     force_set_planned_validators (Signed 6) [(4, 100)] s1 = Err BadOrigin s1 \<and>
     (\<exists>s2. force_set_is_activated Root True s1 = Ok () s2 \<and> is_activated (app s2) \<and>
       force_set_is_activated (Signed 6) False s2 = Err BadOrigin s2 \<and>
       (\<exists>s3. force_set_next_set_id Root 1 s2 = Ok () s3 \<and> next_set_id (app s3) = 1 \<and>
         force_set_next_set_id (Signed 6) 2 s3 = Err BadOrigin s3 \<and>
         (\<exists>s4. force_set_next_notification_id Root 10 s3 = Ok () s4 \<and>
           force_set_next_notification_id (Signed 6) 12 s4 = Err BadOrigin s4)))"
  by (simp add: force_set_planned_validators_def force_set_is_activated_def force_set_next_set_id_def
      force_set_next_notification_id_def tester_simps)

section \<open>The arguments of the queries\<close>

text \<open>The standard alphabet of base64, with padding.\<close>

definition base64_digit :: "nat \<Rightarrow> u8" where
  "base64_digit n = str_bytes ''ABCDEFGHIJKLMNOPQRSTUVWXYZabcdefghijklmnopqrstuvwxyz0123456789+/'' ! n"

fun base64 :: "bytes \<Rightarrow> bytes" where
  "base64 (a # b # c # rest) =
     (let n = unat a * 65536 + unat b * 256 + unat c in
      [base64_digit (n div 262144), base64_digit (n div 4096 mod 64), base64_digit (n div 64 mod 64),
       base64_digit (n mod 64)] @ base64 rest)"
| "base64 [a, b] =
     (let n = unat a * 1024 + unat b * 4 in
      [base64_digit (n div 4096), base64_digit (n div 64 mod 64), base64_digit (n mod 64), 61])"
| "base64 [a] = (let n = unat a * 16 in [base64_digit (n div 64), base64_digit (n mod 64), 61, 61])"
| "base64 [] = []"

lemma test_encode_args_works:
  assumes "base64_encode h = base64"
  shows "encode_get_validator_args h 0 = str_bytes ''eyJlcmFfbnVtYmVyIjoiMCJ9''"
    and "encode_get_validator_args h 1 = str_bytes ''eyJlcmFfbnVtYmVyIjoiMSJ9''"
    and "encode_get_validator_args h 4294967295 = str_bytes ''eyJlcmFfbnVtYmVyIjoiNDI5NDk2NzI5NSJ9''"
    and "encode_get_notification_args h 0 0 = str_bytes ''eyJzdGFydF9pbmRleCI6IjAiLCJxdWFudGl0eSI6IjAifQ==''"
    and "encode_get_notification_args h 0 10 = str_bytes ''eyJzdGFydF9pbmRleCI6IjAiLCJxdWFudGl0eSI6IjEwIn0=''"
    and "encode_get_notification_args h 4294967295 4294967295 =
      str_bytes ''eyJzdGFydF9pbmRleCI6IjQyOTQ5NjcyOTUiLCJxdWFudGl0eSI6IjQyOTQ5NjcyOTUifQ==''"
  using assms
  by (simp_all add: encode_get_validator_args_def encode_get_notification_args_def Let_def to_decimal_def decimal_digits.simps
      digit_byte_def str_bytes_def base64_digit_def)

end
