(* ===== verification/Typed_Messages.thy ===== *)
theory Typed_Messages
  imports Delivery
begin

text \<open>
  The type of a message tells what its payload is: whatever the pallets queue and commit is the Borsh
  serialization of a payload of the announced type.
\<close>

section \<open>Messages and their types\<close>

definition serialized :: "('a, 'b, 'x) config \<Rightarrow> payload_type \<Rightarrow> bytes \<Rightarrow> bool" where
  "serialized c ty p \<longleftrightarrow> (\<exists>v. payload_type_of v = Some ty \<and> try_to_vec c v = Some p)"

definition outbox_typed :: "('a, 'b, 'x) config \<Rightarrow> ('a, 'b, 'x) runtime \<Rightarrow> bool" where
  "outbox_typed c s \<longleftrightarrow> (\<forall>m \<in> set (outbox s). serialized c (msg_payload_type m) (msg_payload m))"

lemma outbox_submit:
  assumes "submit c w ty p s = Ok n t"
  shows "\<exists>k. outbox t = outbox s @ [\<lparr>msg_nonce = k, msg_payload_type = ty, msg_payload = p\<rparr>]"
  using assms by (auto simp: submit_Ok_iff outbox_def accept_message_def Let_def)

lemma outbox_on_initialize: "on_initialize c now s = Ok w t \<Longrightarrow> set (outbox t) = set (outbox s)"
  by (auto simp: on_initialize_eq commit_eq outbox_def committed_state_def Let_def split: if_splits)

lemma event_committed_in: "UmEvent (Committed h q) \<in> set es \<Longrightarrow> m \<in> set q \<Longrightarrow> m \<in> set (committed_in es)"
  by (induction es rule: committed_in.induct) auto

lemma outbox_frame: "um t = um s \<Longrightarrow> um_events t = um_events s \<Longrightarrow> outbox t = outbox s"
  unfolding outbox_def by (metis committed_in_um_events)

interpretation typed: message_invariant c "outbox_typed c" "serialized c" for c
proof unfold_locales
  fix ty p w
  assume p: "serialized c ty p"
  show "preserves (outbox_typed c) (submit c w ty p)"
  proof (rule preservesI)
    fix s n t assume "outbox_typed c s" "submit c w ty p s = Ok n t"
    then show "outbox_typed c t" using outbox_submit [of c w ty p s n t] p by (auto simp: outbox_typed_def)
  qed (auto dest: submit_Err_unchanged)
next
  fix now
  show "preserves (outbox_typed c) (on_initialize c now)"
  proof (rule preservesI)
    fix s e t assume "outbox_typed c s" "on_initialize c now s = Err e t"
    then show "outbox_typed c t" by (auto simp: on_initialize_eq commit_eq split: if_splits)
  qed (auto simp: outbox_typed_def dest: outbox_on_initialize)
qed (auto simp: outbox_typed_def serialized_def dest: outbox_frame)

lemma chain_typed: "chain_at c i s \<Longrightarrow> outbox_typed c s"
proof (induction rule: chain_at.induct)
  case (chain_genesis s g u s0 r0 s1 r1 s2 y s3)
  have "outbox_typed c s0"
    using runtime_genesis_Ok(1,2) [OF chain_genesis(1-3)] by (simp add: outbox_typed_def outbox_def um_empty_def)
  then show ?case
    using chain_genesis(4-6) by (meson typed.P_hooks(4,5) preserves_Ok)
next
  case (chain_rotate i s r t)
  then show ?case unfolding rotate_session_Ok by (meson typed.P_hooks(4-6) preserves_Ok)
next
  case (chain_within i s t)
  then show ?case by (simp add: typed.P_chain_step)
qed

section \<open>Properties\<close>

text \<open>
  C17. On the chain every message that waits in the queue and every message of a commitment carries the
  serialization of a payload of exactly the type it announces, so that a decoder that inverts Borsh
  serialization at each type reads every message back.
\<close>

theorem messages_are_well_typed:
  assumes "chain_at c i s"
    and "m \<in> set (message_queue (um s)) \<or> (\<exists>h q. UmEvent (Committed h q) \<in> set (events s) \<and> m \<in> set q)"
    and "\<And>v p ty. try_to_vec c v = Some p \<Longrightarrow> payload_type_of v = Some ty \<Longrightarrow> decode ty p = Some v"
  shows "\<exists>v. decode (msg_payload_type m) (msg_payload m) = Some v \<and>
    payload_type_of v = Some (msg_payload_type m) \<and> try_to_vec c v = Some (msg_payload m)"
proof -
  have "m \<in> set (outbox s)" using assms(2) event_committed_in by (auto simp: outbox_def)
  then have "serialized c (msg_payload_type m) (msg_payload m)"
    using chain_typed [OF assms(1)] by (simp add: outbox_typed_def)
  then show ?thesis using assms(3) by (auto simp: serialized_def)
qed

text \<open>A serialization of small set ids alone, with its inverse.\<close>

fun demo_encode :: "payload \<Rightarrow> bytes option" where
  "demo_encode (PlanNewEraPayload p) = (if unat (new_era p) < 256 then Some [ucast (new_era p)] else None)"
| "demo_encode _ = None"

fun demo_decode :: "payload_type \<Rightarrow> bytes \<Rightarrow> payload option" where
  "demo_decode PlanNewEra [b] = Some (PlanNewEraPayload \<lparr>new_era = ucast b\<rparr>)"
| "demo_decode _ _ = None"

lemma demo_decode_encode:
  assumes "demo_encode v = Some p" and "payload_type_of v = Some ty"
  shows "demo_decode ty p = Some v"
proof (cases v)
  case (PlanNewEraPayload q)
  have "unat (ucast (ucast (new_era q) :: u8) :: u32) = unat (new_era q)" if "unat (new_era q) < 256"
    using that by (simp add: unsigned_ucast_eq unsigned_take_bit_eq take_bit_nat_eq_self)
  then show ?thesis using assms PlanNewEraPayload by (auto simp: word_unat_eq_iff split: if_splits)
qed (use assms in auto)

definition demo_encoding :: "(nat, u128, demo_ext) config" where
  "demo_encoding = demo_config\<lparr>try_to_vec := demo_encode\<rparr>"

lemma demo_encoding_run:
  "\<exists>s0 r0 s1 r1 s2 s3. runtime_genesis demo_encoding demo_chain_genesis demo_storage = Ok () s0 \<and>
     plan_session demo_encoding 0 s0 = Ok r0 s1 \<and> plan_session demo_encoding 1 s1 = Ok r1 s2 \<and>
     start_session demo_encoding 0 s2 = Ok () s3 \<and>
     message_queue (um s3) = [\<lparr>msg_nonce = 1, msg_payload_type = PlanNewEra, msg_payload = [1]\<rparr>]"
  by (simp add: runtime_genesis_def um_genesis_build_def bridge_genesis_build_def lpos_genesis_build_def
      appchain_genesis_build_def demo_chain_genesis_def demo_storage_def insert_asset_ids insert_asset_id_def
      plan_session_def new_session_def try_trigger_new_era_def start_session_def start_era_def demo_encoding_def
      trigger_new_era_def store_stakers_info_def store_staker_def op_simps demo_simps Let_def checked_sub_def
      saturating_sub_def saturating_add_def checked_add_def um_empty_def submit_eq accept_message_def too_large_def
      queue_full_def)

theorem messages_are_well_typed_witness:
  "\<exists>s. chain_at demo_encoding 0 s \<and>
     message_queue (um s) = [\<lparr>msg_nonce = 1, msg_payload_type = PlanNewEra, msg_payload = [1]\<rparr>] \<and>
     (\<exists>v. demo_decode PlanNewEra [1] = Some v \<and> payload_type_of v = Some PlanNewEra \<and> demo_encode v = Some [1])"
proof -
  obtain s where s: "chain_at demo_encoding 0 s"
    "message_queue (um s) = [\<lparr>msg_nonce = 1, msg_payload_type = PlanNewEra, msg_payload = [1]\<rparr>]"
    using demo_encoding_run chain_genesis [OF demo_fresh] by blast
  have "try_to_vec demo_encoding = demo_encode" by (simp add: demo_encoding_def)
  then show ?thesis
    using messages_are_well_typed [OF s(1), of "\<lparr>msg_nonce = 1, msg_payload_type = PlanNewEra, msg_payload = [1]\<rparr>" demo_decode]
      s demo_decode_encode by (intro exI [of _ s]) auto
qed

end
