(* ===== verification/Payout_Delivery.thy ===== *)
theory Payout_Delivery
  imports Delivery
begin

text \<open>
  The payout of an era on its way to the mainchain: no era is paid before it ends, and the message that
  announces a payout is committed exactly once.
\<close>

section \<open>Eras that were paid\<close>

definition paid_only :: "era_index set \<Rightarrow> 'a lpos_state \<Rightarrow> bool" where
  "paid_only E l \<longleftrightarrow> dom (eras_validator_reward l) \<subseteq> E"

lemma paid_only_clear_eras: "paid_only E l \<Longrightarrow> paid_only E (clear_eras a b l)"
  by (auto simp: paid_only_def dom_def clear_eras_fields split: if_splits)

lemma paid_only_offences: "paid_only E (fold (count_offence k) ids l) = paid_only E l"
  by (induction ids arbitrary: l) (auto simp: count_offence_def paid_only_def)

lemma paid_only_new_era: "paid_only E l \<Longrightarrow> paid_only E (snd (trigger_new_era i vs l))"
  by (auto simp: trigger_new_era_def store_stakers_info_def Let_def paid_only_def dom_def clear_era_information_def
      split: option.splits prod.splits if_splits)

lemma paid_only_hooks:
  "preserves (\<lambda>s. paid_only E (lpos s)) (force_set_era_payout org p)"
  "preserves (\<lambda>s. paid_only E (lpos s)) (on_finalize c)"
  "preserves (\<lambda>s. paid_only E (lpos s)) (note_author a)"
  "preserves (\<lambda>s. paid_only E (lpos s)) (start_session c i)"
  by (rule preservesI; auto simp: force_set_era_payout_def on_finalize_def note_author_def reward_by_ids_def
      start_session_def start_era_def on_lpos_def update_ext_def paid_only_def op_inv modify_lpos_def Let_def
      split: option.splits if_splits list.splits prod.splits)+

lemma paid_only_depth: "set_history_depth org d n s = Ok u t \<Longrightarrow> paid_only E (lpos s) \<Longrightarrow> paid_only E (lpos t)"
  by (auto simp: set_history_depth_def op_inv modify_lpos_def Let_def paid_only_clear_eras split: option.splits)
    (auto simp: paid_only_def dom_def clear_eras_fields split: if_splits)

lemma paid_only_plan: "plan_session c j s = Ok r t \<Longrightarrow> paid_only E (lpos s) \<Longrightarrow> paid_only E (lpos t)"
  using plan_session_Ok [of c j s r t] paid_only_new_era [of E "(lpos s)\<lparr>current_planned_session := j\<rparr>"]
  by (auto simp: paid_only_def split: if_splits)

lemma paid_only_chain_step:
  assumes "chain_step c s t" and "paid_only E (lpos s)"
  shows "paid_only E (lpos t)"
  using chain_step_lpos [OF assms(1)]
proof (elim disjE exE conjE)
  fix inner :: "('a, 'b, 'c, unit) call" and k j ids u
  assume "outside_handler inner" "report_offence inner k j ids s = Ok u t"
  then show ?thesis using offence_lpos paid_only_offences assms(2) by metis
qed (use assms(2) paid_only_depth in \<open>auto dest: preserves_Ok [OF paid_only_hooks(1)]
      preserves_Ok [OF paid_only_hooks(2)] preserves_Ok [OF paid_only_hooks(3)]\<close>)

lemma era_ends_iff:
  assumes at: "session_at c i s" and S: "sessions c > 0" and a: "active_era (lpos s) = Some a"
  shows "era_number a = u32_of (i div sessions c)"
    and "eras_start_session_index (lpos s) (era_number a + 1) =
      (if sessions c dvd Suc i then Some (u32_of i + 1) else None)"
proof -
  have inv: "Suc i < 2 ^ 32" "eras_planned (sessions c) (Suc i) (lpos s)" "eras_active (sessions c) i (lpos s)"
    using session_at_inv [OF at S] by simp_all
  show era: "era_number a = u32_of (i div sessions c)"
    using active_then_planned(1) [OF S inv] a by simp
  show "eras_start_session_index (lpos s) (era_number a + 1) =
      (if sessions c dvd Suc i then Some (u32_of i + 1) else None)"
    using active_then_planned(2) [OF S inv] div_step(2,3) [OF S, of i] by (simp only: era u32_of_Suc)
qed

lemma end_era_pays_its_era:
  "preserves (\<lambda>s. paid_only (insert (era_number a) E) (lpos s)) (end_era c a i)"
  unfolding end_era_def Let_def
  by (intro preserves_rules; auto simp: paid_only_def drain_offenders_def split: option.split)

lemma finish_session_pays:
  assumes at: "session_at c i s" and S: "sessions c > 0" and "paid_only E (lpos s)"
    and run: "finish_session c (u32_of i) s = Ok u t"
  shows "paid_only (if sessions c dvd Suc i then insert (u32_of (i div sessions c)) E else E) (lpos t)"
proof (cases "active_era (lpos s)")
  case None
  then have "t = s" using run by (simp add: finish_session_def end_session_def op_simps)
  then show ?thesis using assms(3) by (auto simp: paid_only_def)
next
  case (Some a)
  note e = era_ends_iff [OF at S Some]
  show ?thesis
  proof (cases "sessions c dvd Suc i")
    case True
    then have "(\<exists>u. end_era c a (u32_of i) s = Ok u t) \<or> (\<exists>d. end_era c a (u32_of i) s = Err d t)"
      using run Some e by (auto simp: finish_session_def end_session_def op_inv)
    moreover have "paid_only (insert (era_number a) E) (lpos s)" using assms(3) by (auto simp: paid_only_def)
    ultimately show ?thesis
      using preserves_Ok [OF end_era_pays_its_era] preserves_Err [OF end_era_pays_its_era] True e(1) by fastforce
  next
    case False
    then have "t = s" using run Some e by (simp add: finish_session_def end_session_def op_simps)
    then show ?thesis using assms(3) False by simp
  qed
qed

text \<open>In session \<open>i\<close> only the eras before the active one were paid.\<close>

definition eras_before :: "nat \<Rightarrow> era_index set" where
  "eras_before n = u32_of ` {..< n}"

lemma chain_paid:
  assumes "storage_order (token_order (bridge_cfg c))" and S: "sessions c > 0" and "chain_at c i s"
  shows "paid_only (eras_before (i div sessions c)) (lpos s)"
  using assms(3)
proof induction
  case (chain_genesis s g u s0 r0 s1 r1 s2 y s3)
  have "paid_only {} (lpos s0)" using runtime_genesis_Ok(9) [OF chain_genesis(1-3)] by (simp add: paid_only_def)
  then have "paid_only {} (lpos s3)"
    using paid_only_plan [OF chain_genesis(4)] paid_only_plan [OF chain_genesis(5)]
      preserves_Ok [OF paid_only_hooks(4) chain_genesis(6)] by simp
  then show ?case by (simp add: eras_before_def)
next
  case (chain_rotate i s r t)
  obtain y1 s1 y2 s2 where run: "finish_session c (u32_of i) s = Ok y1 s1"
    "start_session c (u32_of (Suc i)) s1 = Ok y2 s2" "plan_session c (u32_of (Suc (Suc i))) s2 = Ok r t"
    using chain_rotate(4) by (auto simp: rotate_session_Ok)
  have "session_at c i s" using chain_at_refines [OF assms(1) S chain_rotate(1)] by simp
  note finish_session_pays [OF this S chain_rotate.IH run(1)]
  moreover have "eras_before (Suc i div sessions c) =
    (if sessions c dvd Suc i then insert (u32_of (i div sessions c)) (eras_before (i div sessions c))
     else eras_before (i div sessions c))"
    using div_step(1,3) [OF S, of i] by (simp add: eras_before_def lessThan_Suc)
  ultimately have "paid_only (eras_before (Suc i div sessions c)) (lpos s1)" by simp
  then show ?case
    using paid_only_plan [OF run(3) preserves_Ok [OF paid_only_hooks(4) run(2)]] by simp
next
  case (chain_within i s t)
  then show ?case by (simp add: paid_only_chain_step)
qed

lemma active_era_unpaid:
  assumes "storage_order (token_order (bridge_cfg c))" and S: "sessions c > 0" and at: "chain_at c i s"
    and a: "active_era (lpos s) = Some a"
  shows "eras_validator_reward (lpos s) (era_number a) = None"
proof -
  have i: "session_at c i s" using chain_at_refines [OF assms(1-3)] by simp
  then have "Suc i < 2 ^ 32" using session_at_inv [OF _ S] by blast
  moreover have "k < 2 ^ 32" if "k \<le> i div sessions c" for k
    using that div_le_dividend [of i "sessions c"] \<open>Suc i < 2 ^ 32\<close> by linarith
  ultimately have "u32_of (i div sessions c) \<notin> eras_before (i div sessions c)"
    by (force simp: eras_before_def u32_of_eq_iff)
  then show ?thesis
    using chain_paid [OF assms(1-3)] era_ends_iff(1) [OF i S a] by (auto simp: paid_only_def)
qed

lemma payout_queued:
  assumes "active_era (lpos s) = Some a" and "eras_start_session_index (lpos s) (era_number a + 1) = Some (i + 1)"
    and "era_is_payable a s" and "get_exclude_validators c (era_number a) (lpos s) = Some excluded"
    and "balance_from_u128 (bridge_cfg c) (era_payout (lpos s)) = Some amount"
    and "try_to_vec c (payout_payload c a excluded (lpos s)) = Some payload"
    and "nonce (um s) \<noteq> - 1" "\<not> too_large c payload" "\<not> queue_full c s"
    and "finish_session c i s = Ok u t"
  shows "outbox t = outbox s @ [\<lparr>msg_nonce = nonce (um s) + 1, msg_payload_type = EraPayout, msg_payload = payload\<rparr>]"
    and "interval (um t) = interval (um s)"
  using assms(7-10)
  by (auto simp: finish_session_def end_session_def op_simps assms(1,2) end_era_payable [OF assms(3,4)] assms(5,6) Let_def
      submit_eq reward_noted_def queue_full_def accept_message_def submitted_by_user_def outbox_def
      split: if_splits)

section \<open>Properties\<close>

text \<open>
  C16. When the last session of an era that pays out ends and its EraPayout message can be sent (the payout
  is a balance, the excluded validators can be computed, Borsh serializes the payload, the payload is within
  MaxMessagePayloadSize, the queue has room and a nonce is left), that message, with the set id, the
  excluded validators and the offenders of the era, is committed exactly once within as many consecutive
  blocks as the non-zero commit interval has, whatever else the chain does, in an event whose hash is the
  one of its messages. That the era was not paid before is a consequence of the order of sessions.
\<close>

theorem era_payout_is_committed_once:
  assumes "storage_order (token_order (bridge_cfg c))" and "sessions c > 0" and "chain_at c i s"
    and "sessions c dvd Suc i" and "active_era (lpos s) = Some a" and "era_start a \<noteq> None"
    and "is_activated (app s)" and "era_payout (lpos s) \<noteq> 0"
    and "get_exclude_validators c (era_number a) (lpos s) = Some excluded"
    and "balance_from_u128 (bridge_cfg c) (era_payout (lpos s)) = Some amount"
    and "try_to_vec c (payout_payload c a excluded (lpos s)) = Some payload"
    and "nonce (um s) \<noteq> - 1" "\<not> too_large c payload" "\<not> queue_full c s"
    and "rotate_session c i s = Ok r s1"
    and "interval (um s) \<noteq> 0" and "unat (interval (um s)) \<le> k"
    and "chain_blocks c (map word_of_nat [n ..< n + k]) s1 t" and "n + k \<le> 2 ^ 32"
  shows "let m = \<lparr>msg_nonce = nonce (um s) + 1, msg_payload_type = EraPayout, msg_payload = payload\<rparr> in
    filter (\<lambda>x. msg_nonce x = nonce (um s) + 1) (outbox t) = [m] \<and>
    (\<exists>h q. UmEvent (Committed h q) \<in> set (events t) \<and> m \<in> set q \<and>
       h = hash_bytes (um_cfg c) (encode_messages (um_cfg c) q))"
proof -
  let ?m = "\<lparr>msg_nonce = nonce (um s) + 1, msg_payload_type = EraPayout, msg_payload = payload\<rparr>"
  have at: "um_reachable c s" "session_at c i s" using chain_at_refines [OF assms(1-3)] by simp_all
  have pays: "era_is_payable a s"
    using assms(5-8) active_era_unpaid [OF assms(1-3)] by (simp add: era_is_payable_def)
  have starts: "eras_start_session_index (lpos s) (era_number a + 1) = Some (u32_of i + 1)"
    using era_ends_iff(2) [OF at(2) assms(2,5)] assms(4) by simp
  obtain y t1 y2 t2 where run: "finish_session c (u32_of i) s = Ok y t1"
    "start_session c (u32_of (Suc i)) t1 = Ok y2 t2" "plan_session c (u32_of (Suc (Suc i))) t2 = Ok r s1"
    using assms(15) by (auto simp: rotate_session_Ok)
  note queued = payout_queued [OF assms(5) starts pays assms(9-14) run(1)]
  have "(um_step c)\<^sup>*\<^sup>* t1 s1"
    using preserves_Ok [OF ums.P_hooks(4) run(3) preserves_Ok [OF ums.P_hooks(5) run(2)]] by simp
  then have "outbox_extends t1 s1" by (rule um_steps_extend)
  then have m: "?m \<in> set (outbox s1)" "interval (um s1) = interval (um s)"
    using queued by (auto simp: outbox_extends_def)
  have "um_reachable c s1" by (rule um_steps_reachable [OF um_steps_rotate [OF assms(15)] at(1)])
  from accepted_is_committed_once [OF this m(1) _ _ assms(18,19)] show ?thesis
    using assms(16,17) m(2) by simp
qed

definition demo_payout_lpos :: "nat lpos_state" where
  "demo_payout_lpos = demo_lpos0\<lparr>current_era := Some 1, current_planned_session := 2, era_payout := 50,
     active_era := Some \<lparr>era_number = 0, era_set_id = 0, era_start = Some 5000\<rparr>,
     eras_start_session_index := [0 \<mapsto> 0, 1 \<mapsto> 2],
     eras_stakers := (\<lambda>e. []) (0 := [(1, 300), (2, 50), (3, 50)], 1 := [(1, 300), (2, 50), (3, 50)]),
     eras_total_stake := (\<lambda>e. 0) (0 := 400, 1 := 400), bonded_eras := [(0, 0)]\<rparr>"

lemma demo_last_session:
  "\<exists>s. chain_at demo_config 1 s \<and> lpos s = demo_payout_lpos \<and> is_activated (app s) \<and> nonce (um s) = 1 \<and>
     interval (um s) = 5 \<and> length (message_queue (um s)) = 1"
proof -
  obtain s0 where s0: "chain_at demo_config 0 s0" "lpos s0 = demo_lpos0\<lparr>current_era := Some 0,
       current_planned_session := 1, active_era := Some \<lparr>era_number = 0, era_set_id = 0, era_start = None\<rparr>,
       eras_start_session_index := [0 \<mapsto> 0],
       eras_stakers := (\<lambda>e. []) (0 := [(1, 300), (2, 50), (3, 50)]),
       eras_total_stake := (\<lambda>e. 0) (0 := 400), bonded_eras := [(0, 0)]\<rparr>"
    "app s0 = demo_app0\<lparr>planned_validators := [(1, 300), (2, 50), (3, 50)]\<rparr>" "nonce (um s0) = 1"
    "interval (um s0) = 5" "length (message_queue (um s0)) = 1"
    using demo_chain by (elim exE conjE) simp
  let ?s1 = "s0\<lparr>ext := demo_ext0\<rparr>"
  let ?s2 = "?s1\<lparr>lpos := (lpos s0)\<lparr>era_payout := 50\<rparr>\<rparr>"
  let ?s3 = "?s2\<lparr>lpos := (lpos ?s2)\<lparr>active_era := Some \<lparr>era_number = 0, era_set_id = 0, era_start = Some 5000\<rparr>\<rparr>\<rparr>"
  have "chain_step demo_config ?s1 ?s2"
    by (rule call_succeeds [where org = Root and m = "LposCall (ForceSetEraPayout 50)"])
      (simp_all add: force_set_era_payout_def op_simps)
  moreover have "chain_step demo_config ?s2 ?s3"
    by (rule block_ends) (simp add: on_finalize_def op_simps s0(2) demo_simps)
  ultimately have s3: "chain_at demo_config 0 ?s3"
    using chain_within [OF chain_within [OF chain_within [OF s0(1) outside_step]]] by blast
  have "\<not> (85 :: u32) \<le> 1" by (simp add: word_le_nat_alt)
  then have "\<exists>r s. rotate_session demo_config 0 ?s3 = Ok r s \<and> lpos s = demo_payout_lpos \<and> app s = app s0 \<and>
      um s = um s0"
    by (simp add: rotate_session_def end_and_start_def plan_session_def new_session_def try_trigger_new_era_def
        start_session_def start_era_def finish_session_def end_session_def trigger_new_era_def
        store_stakers_info_def store_staker_def op_simps Let_def checked_sub_def saturating_sub_def
        saturating_add_def checked_add_def u32_of_def s0(2,3) demo_payout_lpos_def demo_lpos0_def demo_config_def
        demo_lpos_config_def)
  then obtain r s where s: "rotate_session demo_config 0 ?s3 = Ok r s" "lpos s = demo_payout_lpos" "app s = app s0"
    "um s = um s0" by (elim exE conjE)
  have "stakes_sum (planned_validators (app ?s3)) < 2 ^ 128" by (simp add: s0(3) stakes_sum_def)
  with chain_rotate [OF s3 _ _ s(1)] have "chain_at demo_config 1 s" by simp
  then show ?thesis using s(2-4) s0(3-6) by (intro exI [of _ s]) (simp add: demo_app0_def)
qed

theorem era_payout_is_committed_once_witness:
  "\<exists>s r s1 t. chain_at demo_config 1 s \<and> rotate_session demo_config 1 s = Ok r s1 \<and>
     chain_blocks demo_config [3, 4, 5, 6, 7] s1 t \<and>
     filter (\<lambda>x. msg_nonce x = 2) (outbox t) = [\<lparr>msg_nonce = 2, msg_payload_type = EraPayout, msg_payload = [1, 2, 3]\<rparr>]"
proof -
  obtain s where s: "chain_at demo_config 1 s" "lpos s = demo_payout_lpos" "is_activated (app s)" "nonce (um s) = 1"
    "interval (um s) = 5" "length (message_queue (um s)) = 1"
    using demo_last_session by (elim exE conjE)
  have cfg: "storage_order (token_order (bridge_cfg demo_config))" "sessions demo_config = 2"
    by (simp_all add: demo_simps storage_order_def)
  have ex: "get_exclude_validators demo_config 0 (lpos s) = Some [1, 2, 3]"
    by (simp add: s(2) get_exclude_validators_def demo_payout_lpos_def demo_simps storage_iter_def Let_def
        default_era_reward_points_def)
  have "\<exists>r s1. rotate_session demo_config 1 s = Ok r s1"
    using s(3-6)
    by (simp add: get_exclude_validators_def default_era_reward_points_def storage_iter_def rotate_session_def end_and_start_def plan_session_def new_session_def
        start_session_def start_era_def finish_session_def end_session_def end_era_def drain_offenders_def
        op_simps Let_def saturating_sub_def u32_of_def s(2) demo_payout_lpos_def demo_simps submit_eq)
  then obtain r s1 where s1: "rotate_session demo_config 1 s = Ok r s1" by (elim exE)
  have "interval (um s1) = 5"
    using um_steps_extend [OF um_steps_rotate [OF s1]] s(5) by (simp add: outbox_extends_def)
  then obtain t where t: "chain_blocks demo_config (map word_of_nat [3 ..< 3 + 5]) s1 t"
    using blocks_exist [of s1] by auto
  have "filter (\<lambda>x. msg_nonce x = 2) (outbox t) = [\<lparr>msg_nonce = 2, msg_payload_type = EraPayout, msg_payload = [1, 2, 3]\<rparr>]"
    using era_payout_is_committed_once [OF cfg(1) _ s(1) _ _ _ s(3) _ _ _ _ _ _ _ s1 _ _ t, of _ "[1, 2, 3]" 50 "[1, 2, 3]"]
      s(4-6) ex
    by (auto simp: Let_def cfg(2) s(2) demo_payout_lpos_def demo_simps too_large_def queue_full_def)
  moreover have "map word_of_nat [3 ..< 3 + 5] = [3, 4, 5, 6, 7 :: u32]" by (simp add: upt_rec)
  ultimately show ?thesis using s(1) s1 t by (intro exI [of _ s] exI [of _ r] exI [of _ s1] exI [of _ t]) simp
qed

end
