(* ===== verification/Benchmarks.thy ===== *)
theory Benchmarks
  imports Appchain
begin

text \<open>
  The benchmarks of the repository (\<open>benchmarking.rs\<close> of \<open>upward-messages\<close> and \<open>lpos\<close>, the crates
  \<open>appchain/benchmarking\<close> and \<open>bridge/benchmarking\<close>): each is one operation that sets the storage up, runs
  the call that is measured and checks the result. An \<open>assert!\<close> that fails and an \<open>unwrap\<close> of an error are
  panics.
\<close>

section \<open>Assertions\<close>

definition assert_that :: "bool \<Rightarrow> ('a, 'b, 'x, unit) call" where
  "assert_that b = (if b then ret () else panic)"

text \<open>\<open>m.unwrap()\<close> or \<open>assert!(m.is_ok())\<close>, and \<open>let _ = m\<close>.\<close>

definition must :: "('a, 'b, 'x, 'r) call \<Rightarrow> ('a, 'b, 'x, 'r) call" where
  "must m = catch m ret (\<lambda>_. panic)"

definition ignore :: "('a, 'b, 'x, 'r) call \<Rightarrow> ('a, 'b, 'x, unit) call" where
  "ignore m = catch m (\<lambda>_. ret ()) (\<lambda>_. ret ())"

definition assert_last_event :: "('a, 'b) runtime_event \<Rightarrow> ('a, 'b, 'x, unit) call" where
  "assert_last_event e =
     bind (gets events) (\<lambda>es. assert_that (es \<noteq> [] \<and> last es = e))"

text \<open>
  The outside code that only the benchmarks use: \<open>frame_benchmarking\<close>, the root calls of \<open>pallet_assets\<close> and
  \<open>pallet_uniques\<close>, SCALE decoding of an asset id, and the keys. A key is read as its encoding.
\<close>

record ('a, 'x) bench_host =
  whitelisted_caller :: 'a
  decode_asset_id :: "bytes \<Rightarrow> asset_id option"
  assets_force_create :: "asset_id \<Rightarrow> 'a \<Rightarrow> bool \<Rightarrow> ('x, dispatch_error, unit) op"
  uniques_force_create :: "u16 \<Rightarrow> 'a \<Rightarrow> bool \<Rightarrow> ('x, dispatch_error, unit) op"
  uniques_mint :: "'a \<Rightarrow> u16 \<Rightarrow> u16 \<Rightarrow> 'a \<Rightarrow> ('x, dispatch_error, unit) op"
  generate_pair :: "bytes \<Rightarrow> bytes"
  to_raw_vec :: "bytes \<Rightarrow> bytes"
  sign_message :: "bytes \<Rightarrow> bytes \<Rightarrow> bytes option"

section \<open>\<open>upward-messages/src/benchmarking.rs\<close>\<close>

text \<open>\<open>(0..).take(p as usize)\<close> on \<open>u8\<close>.\<close>

definition bench_payload :: "nat \<Rightarrow> bytes" where
  "bench_payload p = map word_of_nat [0 ..< p]"

definition bench_payload_type :: "nat \<Rightarrow> payload_type" where
  "bench_payload_type i =
     (if i mod 4 = 0 then Lock else if i mod 4 = 1 then BurnAsset else if i mod 4 = 2 then PlanNewEra else EraPayout)"

definition bench_append :: "('a, 'b, 'x) config \<Rightarrow> payload_type \<Rightarrow> bytes \<Rightarrow> ('a, 'b, 'x, unit) call" where
  "bench_append c ty payload =
     bind (unwrap (bounded_payload c payload)) (\<lambda>bounded.
     must (message_queue_try_append c \<lparr>msg_nonce = 0, msg_payload_type = ty, msg_payload = bounded\<rparr>))"

definition bench_on_initialize :: "('a, 'b, 'x) config \<Rightarrow> u32 \<Rightarrow> u32 \<Rightarrow> ('a, 'b, 'x, weight) call" where
  "bench_on_initialize c m p =
     bind (for_each (\<lambda>i. bench_append c (bench_payload_type i) (bench_payload (unat p))) [0 ..< unat m]) (\<lambda>_.
     bind (gets (\<lambda>s. interval (um s))) (\<lambda>now.
     bind (on_initialize c now) (\<lambda>w.
     bind (gets (\<lambda>s. length (message_queue (um s)))) (\<lambda>n.
     bind (assert_that (n = 0)) (\<lambda>_.
     ret w)))))"

definition bench_on_initialize_non_interval :: "('a, 'b, 'x) config \<Rightarrow> ('a, 'b, 'x, weight) call" where
  "bench_on_initialize_non_interval c =
     bind (bench_append c EraPayout (replicate (unat (max_message_payload_size (um_cfg c))) 1)) (\<lambda>_.
     bind (modify (\<lambda>s. s\<lparr>um := (um s)\<lparr>interval := 10\<rparr>\<rparr>)) (\<lambda>_.
     bind (on_initialize c 11) (\<lambda>w.
     bind (gets (\<lambda>s. length (message_queue (um s)))) (\<lambda>n.
     bind (assert_that (n = 1)) (\<lambda>_.
     ret w)))))"

definition bench_on_initialize_no_messages :: "('a, 'b, 'x) config \<Rightarrow> ('a, 'b, 'x, weight) call" where
  "bench_on_initialize_no_messages c =
     bind (modify (\<lambda>s. s\<lparr>um := (um s)\<lparr>message_queue := []\<rparr>\<rparr>)) (\<lambda>_.
     bind (gets (\<lambda>s. interval (um s))) (\<lambda>now.
     on_initialize c now))"

section \<open>\<open>lpos/src/benchmarking.rs\<close>\<close>

definition bench_set_history_depth :: "u32 \<Rightarrow> u32 \<Rightarrow> ('a, 'b, 'x, unit) call" where
  "bench_set_history_depth b m =
     bind (modify_lpos (\<lambda>l. l\<lparr>current_era := Some 1\<rparr>)) (\<lambda>_.
     must (set_history_depth Root b m))"

definition bench_force_set_era_payout :: "('a, 'b, 'x, unit) call" where
  "bench_force_set_era_payout = must (force_set_era_payout Root (ucast (- 1 :: u32)))"

section \<open>\<open>bridge/benchmarking/src/lib.rs\<close>\<close>

definition create_default_asset :: "('a, 'x) bench_host \<Rightarrow> bool \<Rightarrow> ('a, 'b, 'x, 'a) call" where
  "create_default_asset h is_sufficient =
     bind (unwrap (decode_asset_id h [1, 0, 0, 0])) (\<lambda>asset_id.
     bind (must (on_ext (assets_force_create h asset_id (whitelisted_caller h) is_sufficient))) (\<lambda>_.
     ret (whitelisted_caller h)))"

definition create_default_nft_collection :: "('a, 'x) bench_host \<Rightarrow> u16 \<Rightarrow> bool \<Rightarrow> ('a, 'b, 'x, 'a) call" where
  "create_default_nft_collection h collection is_free =
     bind (must (on_ext (uniques_force_create h collection (whitelisted_caller h) is_free))) (\<lambda>_.
     ret (whitelisted_caller h))"

definition mint_nft :: "('a, 'x) bench_host \<Rightarrow> 'a \<Rightarrow> u16 \<Rightarrow> u16 \<Rightarrow> ('a, 'b, 'x, unit) call" where
  "mint_nft h owner collection item = must (on_ext (uniques_mint h owner collection item owner))"

definition get_asset_id :: "('a, 'x) bench_host \<Rightarrow> bytes \<Rightarrow> ('a, 'b, 'x, asset_id) call" where
  "get_asset_id h asset_id = unwrap (decode_asset_id h asset_id)"

definition set_oracle_account_and_update_token_price :: "('a, 'b, 'x) config \<Rightarrow> ('a, 'x) bench_host
    \<Rightarrow> ('a, 'b, 'x, unit) call" where
  "set_oracle_account_and_update_token_price c h =
     bind (must (set_oracle_account Root (Inr (whitelisted_caller h)))) (\<lambda>_.
     must (set_token_price c (Signed (whitelisted_caller h)) 11 1000000000000))"

text \<open>\<open>v.checked_into().unwrap()\<close> to the native balance, and \<open>make_free_balance_be\<close>.\<close>

definition balance_of_u128 :: "('a, 'b, 'x) config \<Rightarrow> u128 \<Rightarrow> ('a, 'b, 'x, 'b) call" where
  "balance_of_u128 c v = unwrap (balance_from_u128 (bridge_cfg c) v)"

definition make_free_balance :: "('a, 'b, 'x) config \<Rightarrow> 'a \<Rightarrow> 'b \<Rightarrow> ('a, 'b, 'x, unit) call" where
  "make_free_balance c who b = update_ext (currency_make_free_balance_be (bridge_cfg c) who b)"

abbreviation test_account :: bytes where
  "test_account \<equiv> str_bytes ''test-account.testnet''"

definition bench_lock :: "('a, 'b, 'x) config \<Rightarrow> ('a, 'x) bench_host \<Rightarrow> ('a, 'b, 'x, unit) call" where
  "bench_lock c h =
     bind (set_oracle_account_and_update_token_price c h) (\<lambda>_.
     (let min = currency_minimum_balance (bridge_cfg c); caller = whitelisted_caller h in
     bind (balance_of_u128 c 1000000000000000000000000) (\<lambda>balance.
     bind (make_free_balance c caller balance) (\<lambda>_.
     bind (ignore (force_set_is_activated Root True)) (\<lambda>_.
     bind (must (lock c (Signed caller) test_account min)) (\<lambda>_.
     bind (balance_of_u128 c 0) (\<lambda>fee.
     assert_last_event (BridgeEvent (Locked caller test_account min fee 1)))))))))"

definition bench_burn_nep141 :: "('a, 'b, 'x) config \<Rightarrow> ('a, 'x) bench_host \<Rightarrow> ('a, 'b, 'x, unit) call" where
  "bench_burn_nep141 c h =
     bind (set_oracle_account_and_update_token_price c h) (\<lambda>_.
     bind (must (force_set_is_activated Root True)) (\<lambda>_.
     bind (get_asset_id h [1, 0, 0, 0]) (\<lambda>asset_id.
     bind (ignore (set_token_id c Root test_account asset_id)) (\<lambda>_.
     bind (create_default_asset h True) (\<lambda>caller.
     bind (make_free_balance c caller (currency_minimum_balance (bridge_cfg c))) (\<lambda>_.
     bind (ignore (force_mint_nep141 c Root asset_id (Inr caller) 100000)) (\<lambda>_.
     bind (ignore (burn_nep141 c (Signed caller) asset_id test_account 10000)) (\<lambda>_.
     bind (balance_of_u128 c 0) (\<lambda>fee.
     assert_last_event (BridgeEvent (Nep141Burned asset_id caller test_account 10000 fee 1)))))))))))"

definition bench_lock_nonfungible :: "('a, 'b, 'x) config \<Rightarrow> ('a, 'x) bench_host \<Rightarrow> ('a, 'b, 'x, unit) call" where
  "bench_lock_nonfungible c h =
     bind (set_oracle_account_and_update_token_price c h) (\<lambda>_.
     bind (must (force_set_is_activated Root True)) (\<lambda>_.
     bind (create_default_nft_collection h 0 True) (\<lambda>caller.
     bind (mint_nft h caller 0 0) (\<lambda>_.
     bind (make_free_balance c caller (currency_minimum_balance (bridge_cfg c))) (\<lambda>_.
     bind (must (lock_nonfungible c (Signed caller) 0 0 test_account)) (\<lambda>_.
     bind (balance_of_u128 c 0) (\<lambda>fee.
     assert_last_event (BridgeEvent (NonfungibleLocked 0 0 caller test_account fee 1)))))))))"

definition bench_set_token_id :: "('a, 'b, 'x) config \<Rightarrow> ('a, 'x) bench_host \<Rightarrow> ('a, 'b, 'x, unit) call" where
  "bench_set_token_id c h =
     bind (must (force_set_is_activated Root True)) (\<lambda>_.
     bind (get_asset_id h [1, 0, 0, 0]) (\<lambda>asset_id.
     bind (ignore (set_token_id c Root test_account asset_id)) (\<lambda>_.
     bind (gets (\<lambda>s. try_get_asset_id s test_account)) (\<lambda>found.
     bind (case found of Inr v \<Rightarrow> ret v | Inl _ \<Rightarrow> get_asset_id h [100, 0, 0, 0]) (\<lambda>id'.
     bind (assert_that (id' = asset_id)) (\<lambda>_.
     bind (gets (\<lambda>s. try_get_token_id c s asset_id)) (\<lambda>name.
     assert_that ((case name of Inr v \<Rightarrow> v | Inl _ \<Rightarrow> str_bytes ''error.account'') = test_account))))))))"

definition bench_delete_token_id :: "('a, 'b, 'x) config \<Rightarrow> ('a, 'x) bench_host \<Rightarrow> ('a, 'b, 'x, unit) call" where
  "bench_delete_token_id c h =
     bind (must (force_set_is_activated Root True)) (\<lambda>_.
     bind (get_asset_id h [1, 0, 0, 0]) (\<lambda>asset_id.
     bind (ignore (set_token_id c Root test_account asset_id)) (\<lambda>_.
     bind (ignore (delete_token_id Root test_account)) (\<lambda>_.
     bind (gets (\<lambda>s. try_get_token_id c s asset_id)) (\<lambda>name.
     assert_that ((case name of Inr v \<Rightarrow> v | Inl _ \<Rightarrow> str_bytes ''empty'') = str_bytes ''empty''))))))"

definition bench_force_unlock :: "('a, 'b, 'x) config \<Rightarrow> ('a, 'x) bench_host \<Rightarrow> ('a, 'b, 'x, unit) call" where
  "bench_force_unlock c h =
     bind (balance_of_u128 c 10000000000000000) (\<lambda>ass.
     bind (balance_of_u128 c 1000000000000000000) (\<lambda>amount.
     bind (update_ext (currency_deposit_creating (lpos_cfg c) (bridge_account (bridge_cfg c)) ass)) (\<lambda>_.
     (let caller = whitelisted_caller h in
     bind (must (force_unlock c Root (Inr caller) amount)) (\<lambda>_.
     assert_last_event (BridgeEvent (ForceUnlocked caller amount)))))))"

definition bench_force_mint_nep141 :: "('a, 'b, 'x) config \<Rightarrow> ('a, 'x) bench_host \<Rightarrow> ('a, 'b, 'x, unit) call" where
  "bench_force_mint_nep141 c h =
     bind (create_default_asset h True) (\<lambda>caller.
     bind (make_free_balance c caller (currency_minimum_balance (bridge_cfg c))) (\<lambda>_.
     bind (get_asset_id h [1, 0, 0, 0]) (\<lambda>asset_id.
     bind (must (force_mint_nep141 c Root asset_id (Inr caller) 100000)) (\<lambda>_.
     assert_last_event (BridgeEvent (ForceNep141Minted asset_id caller 100000))))))"

definition bench_force_unlock_nonfungible :: "('a, 'b, 'x) config \<Rightarrow> ('a, 'x) bench_host \<Rightarrow> ('a, 'b, 'x, unit) call" where
  "bench_force_unlock_nonfungible c h =
     bind (set_oracle_account_and_update_token_price c h) (\<lambda>_.
     bind (must (force_set_is_activated Root True)) (\<lambda>_.
     bind (create_default_nft_collection h 0 True) (\<lambda>caller.
     bind (mint_nft h caller 0 0) (\<lambda>_.
     bind (ignore (lock_nonfungible c (Signed caller) 0 0 test_account)) (\<lambda>_.
     bind (must (force_unlock_nonfungible c Root (Inr caller) 0 0)) (\<lambda>_.
     assert_last_event (BridgeEvent (ForceNonfungibleUnlocked 0 0 caller))))))))"

definition bench_set_oracle_account :: "('a, 'x) bench_host \<Rightarrow> ('a, 'b, 'x, unit) call" where
  "bench_set_oracle_account h =
     bind (must (set_oracle_account Root (Inr (whitelisted_caller h)))) (\<lambda>_.
     assert_last_event (BridgeEvent (OracleAccountHasBeenSet (whitelisted_caller h))))"

definition bench_set_token_price :: "('a, 'b, 'x) config \<Rightarrow> ('a, 'x) bench_host \<Rightarrow> ('a, 'b, 'x, unit) call" where
  "bench_set_token_price c h =
     (let caller = whitelisted_caller h in
     bind (ignore (set_oracle_account Root (Inr caller))) (\<lambda>_.
     bind (ignore (set_token_price c (Signed caller) 1000000 2000000)) (\<lambda>_.
     assert_last_event (BridgeEvent (PriceUpdated caller 1000000 2000000)))))"

section \<open>\<open>appchain/benchmarking/src/lib.rs\<close>\<close>

definition produce_validator_set :: "('a, 'x) bench_host \<Rightarrow> u32 \<Rightarrow> 'a observation" where
  "produce_validator_set h index =
     (let validator = \<lparr>validator_id_in_appchain = whitelisted_caller h, validator_total_stake = 100\<rparr> in
      UpdateValidatorSet \<lparr>set_id = index, validators = [validator]\<rparr>)"

definition produce_burn_notification :: "('a, 'x) bench_host \<Rightarrow> u32 \<Rightarrow> 'a observation" where
  "produce_burn_notification h index = Burn
     \<lparr>be_index = index, be_sender_id = str_bytes ''pallet-test.testnet'', be_receiver = whitelisted_caller h,
      be_amount = 10000000000000000000\<rparr>"

definition produce_lock_asset_notification :: "('a, 'x) bench_host \<Rightarrow> u32 \<Rightarrow> bytes \<Rightarrow> 'a observation" where
  "produce_lock_asset_notification h index token_id = LockAsset
     \<lparr>la_index = index, la_token_id = token_id, la_sender_id = str_bytes ''pallet-test.testnet'',
      la_receiver = whitelisted_caller h, la_amount = 100000\<rparr>"

definition get_submitter_information :: "('a, 'x) bench_host \<Rightarrow> ('a, 'b, 'x, bytes \<times> bytes \<times> bytes) call" where
  "get_submitter_information h =
     (let key = generate_pair h (str_bytes
            ''bottom drive obey lake curtain smoke basket hold race lonely fit walk//Alice'');
          key_data = to_raw_vec h key in
      bind (unwrap (sign_message h [1, 2, 3] key)) (\<lambda>sig.
      ret (key, sig, key_data)))"

definition bench_observation :: "('a, 'x) bench_host \<Rightarrow> nat \<Rightarrow> 'a observation" where
  "bench_observation h i =
     (if i mod 2 = 1 then produce_lock_asset_notification h (word_of_nat i) (str_bytes ''usdn.testnet'')
      else produce_burn_notification h (word_of_nat i))"

definition bench_submit_observations :: "('a, 'b, 'x) config \<Rightarrow> ('a, 'x) bench_host \<Rightarrow> u32 \<Rightarrow> ('a, 'b, 'x, unit) call" where
  "bench_submit_observations c h b =
     bind (create_default_asset h True) (\<lambda>_.
     (let obs = produce_validator_set h 1 # map (bench_observation h) [1 ..< unat b] in
     bind (get_submitter_information h) (\<lambda>(public, signature, key_data).
     (let payload = \<lparr>payload_public = public, payload_key_data = key_data, payload_block_number = 1,
            payload_observations = obs\<rparr> in
     must (submit_observations c NoOrigin payload signature)))))"

definition bench_force_set_is_activated :: "('a, 'b, 'x, unit) call" where
  "bench_force_set_is_activated =
     (let activated = fold (\<lambda>i b. if i mod 2 = 0 then True else False) [0 ..< (100 :: nat)] True in
     bind (ignore (force_set_is_activated Root activated)) (\<lambda>_.
     bind (gets (\<lambda>s. is_activated (app s))) (\<lambda>b.
     assert_that (b = activated))))"

definition bench_force_set_next_set_id :: "('a, 'b, 'x, unit) call" where
  "bench_force_set_next_set_id =
     bind (ignore (force_set_next_set_id Root 1)) (\<lambda>_.
     bind (gets (\<lambda>s. next_set_id (app s))) (\<lambda>i.
     assert_that (i = 1)))"

definition bench_force_set_planned_validators :: "('a, 'x) bench_host \<Rightarrow> u32 \<Rightarrow> ('a, 'b, 'x, unit) call" where
  "bench_force_set_planned_validators h b =
     (let vs = map (\<lambda>i. (whitelisted_caller h, 100)) [1 ..< unat b] in
     bind (ignore (force_set_planned_validators Root vs)) (\<lambda>_.
     bind (gets (\<lambda>s. length (planned_validators (app s)))) (\<lambda>n.
     assert_that (n = unat (b - 1)))))"

definition bench_force_set_next_notification_id :: "('a, 'b, 'x, unit) call" where
  "bench_force_set_next_notification_id = must (force_set_next_notification_id Root 1)"

end
