(* ===== verification/Benchmarks_Properties.thy ===== *)
theory Benchmarks_Properties
  imports Benchmarks Appchain_Safety
begin

text \<open>
  What the benchmarks measure: the weight of the hook of \<open>upward-messages\<close> is charged for what was measured,
  while the benchmarks of \<open>set_history_depth\<close> and \<open>submit_observations\<close> do not reach the expensive work.
\<close>

section \<open>The votes of \<open>submit_observations\<close>\<close>

lemma bench_observation_simps [simp]:
  "observation_index (bench_observation h i) = word_of_nat i" "is_notification (bench_observation h i)"
  by (simp_all add: bench_observation_def produce_lock_asset_notification_def produce_burn_notification_def
      is_notification_def)

text \<open>The bridge cannot carry out what the benchmark votes for.\<close>

definition bridge_refuses :: "('a, 'b, 'x) config \<Rightarrow> ('a, 'x) bench_host \<Rightarrow> ('a, 'b) bridge_state \<Rightarrow> 'x \<Rightarrow> bool" where
  "bridge_refuses c h b x \<longleftrightarrow> map_of (asset_id_by_token_id b) (str_bytes ''usdn.testnet'') = None \<and>
     (\<forall>a. balance_from_u128 (bridge_cfg c) 10000000000000000000 = Some a \<longrightarrow>
        (\<exists>e. currency_transfer (bridge_cfg c) (bridge_account (bridge_cfg c)) (whitelisted_caller h) a KeepAlive x = Err e x))"

lemma bench_request_fails:
  assumes "bridge_refuses c h (bridge s) (ext s)"
  shows "\<exists>e. bridge_request c (bench_observation h i) s = Err e s"
  using assms
  by (auto simp: bridge_refuses_def bench_observation_def produce_lock_asset_notification_def
      produce_burn_notification_def unlock_def do_unlock_def mint_nep141_def do_mint_nep141_def try_get_asset_id_def
      op_simps split: option.splits)

text \<open>After the notifications below \<open>k\<close>: all of them failed, and nobody voted for the later ones.\<close>

definition bench_votes_inv :: "('a, 'x) bench_host \<Rightarrow> ('a, 'b, 'x) runtime \<Rightarrow> nat \<Rightarrow> ('a, 'b, 'x) runtime \<Rightarrow> bool" where
  "bench_votes_inv h s0 k s \<longleftrightarrow> lpos s = lpos s0 \<and> bridge s = bridge s0 \<and> ext s = ext s0 \<and>
     next_notification_id (app s) = word_of_nat (k - 1) \<and>
     (\<forall>j \<in> {k ..< 10}. observing (app s) (bench_observation h j) = [] \<and>
        observations (app s) (get_observation_type (bench_observation h j)) (word_of_nat j) = []) \<and>
     (\<forall>j \<in> {1 ..< k}. notification_history (app s) (word_of_nat j) = Some (failure_result (bench_observation h j)))"

lemma small_unat: "i < 11 \<Longrightarrow> unat (word_of_nat i :: u32) = i"
  by (rule unat_word_of_nat) simp

lemma small_words: "i < 11 \<Longrightarrow> j < 11 \<Longrightarrow> (word_of_nat i :: u32) = word_of_nat j \<longleftrightarrow> i = j"
  using small_unat by metis

lemma bench_observation_inj:
  "i < 11 \<Longrightarrow> j < 11 \<Longrightarrow> bench_observation h i = bench_observation h j \<longleftrightarrow> i = j"
  using small_words bench_observation_simps(1) by metis

lemma bench_vote:
  assumes inv: "bench_votes_inv h s0 k s" and k: "1 \<le> k" "k < 10"
    and stake: "active_total_stake s0 = Some tot" "3 * active_stake_of s0 v > 2 * tot"
    and limit: "1 < request_event_limit (app_cfg c)" "unat (request_event_limit (app_cfg c)) < 2 ^ 31"
    and room: "0 < max_validators (app_cfg c)" and out: "bridge_refuses c h (bridge s0) (ext s0)"
  shows "\<exists>t. submit_observation c v (bench_observation h k) s = Ok () t \<and> bench_votes_inv h s0 (Suc k) t"
proof -
  let ?o = "bench_observation h k" and ?l = "request_event_limit (app_cfg c)"
  define i where "i = (word_of_nat k :: u32)"
  define p where "p = (word_of_nat (k - 1) :: u32)"
  have n: "unat i = k" "unat p = k - 1"
    unfolding i_def p_def by (rule small_unat, use k in simp)+
  have eqs: "lpos s = lpos s0" "bridge s = bridge s0" "ext s = ext s0" "next_notification_id (app s) = p"
    "observing (app s) ?o = []" "observations (app s) (get_observation_type ?o) i = []" "observation_index ?o = i"
    using inv k by (simp_all add: bench_votes_inv_def i_def p_def)
  have "unat (p + ?l) = k - 1 + unat ?l"
    using n(2) limit(2) k by (simp add: unat_word_ariths)
  then have idx: "index_accepted c ?o s"
    using limit(1) n k by (simp add: index_accepted_def eqs word_le_nat_alt word_less_nat_alt
        bench_observation_simps(2) [unfolded is_notification_def] del: bench_observation_simps(1))
  obtain obs where obs: "noted_observations ?o s = Some obs"
    "obs = (observations (app s)) (get_observation_type ?o :=
       (observations (app s) (get_observation_type ?o)) (i := [?o]))"
    by (simp add: noted_observations_def eqs Let_def del: bench_observation_simps(1))
  have fits: "vote_fits c v ?o s" using room by (simp add: vote_fits_def eqs word_less_nat_alt)
  have q: "active_total_stake s = Some tot" "vote_stake v ?o s = active_stake_of s0 v"
    using active_total_cong [OF eqs(1)] active_stake_cong [OF eqs(1)] stake(1)
    by (simp_all add: vote_stake_def votes_after_def eqs)
  have "next_notification_id (app s) \<noteq> - 1"
    using n(2) k unat_minus_1 [where 'w = 32] by (auto simp: eqs)
  moreover obtain e where "bridge_request c ?o (advance (cast_vote v ?o obs s)) = Err e (advance (cast_vote v ?o obs s))"
    using bench_request_fails [of c h "advance (cast_vote v ?o obs s)" k] out by (auto simp: advance_def eqs)
  ultimately have run: "submit_observation c v ?o s = Ok () (put_history i (failure_result ?o)
      ((advance (cast_vote v ?o obs s))\<lparr>events := events s @ [AppchainEvent (failure_event ?o)]\<rparr>))"
    (is "_ = Ok () ?t")
    using idx obs fits q stake(2) by (simp add: submit_observation_eq execute_notification eqs advance_def
        del: bench_observation_simps(1))
  have "p + 1 = i" using n k by (intro word_unat_eq_iff [THEN iffD2]) (simp add: unat_word_ariths)
  moreover have other: "word_of_nat j \<noteq> i \<and> bench_observation h j \<noteq> ?o" if "j < 10" "j \<noteq> k" for j
    using that small_words [of j k] bench_observation_inj [of j k h] k by (simp add: i_def)
  moreover have "observing (app ?t) (bench_observation h j) = [] \<and>
      observations (app ?t) (get_observation_type (bench_observation h j)) (word_of_nat j) = []"
    if "Suc k \<le> j" "j < 10" for j
  proof -
    have "observing (app s) (bench_observation h j) = []"
      "observations (app s) (get_observation_type (bench_observation h j)) (word_of_nat j) = []"
      using inv that by (simp_all add: bench_votes_inv_def)
    then show ?thesis using other [of j] that
      by (cases "get_observation_type (bench_observation h j) = get_observation_type ?o")
        (simp_all add: put_history_def advance_def cast_vote_def obs(2))
  qed
  moreover have "notification_history (app ?t) (word_of_nat j) = Some (failure_result (bench_observation h j))"
    if "1 \<le> j" "j < Suc k" for j
  proof (cases "j = k")
    case True
    then show ?thesis by (simp add: put_history_def i_def)
  next
    case False
    then have "notification_history (app s) (word_of_nat j) = Some (failure_result (bench_observation h j))"
      using inv that by (simp add: bench_votes_inv_def)
    then show ?thesis using other [of j] False that k by (simp add: put_history_def advance_def)
  qed
  moreover have "lpos ?t = lpos s" "bridge ?t = bridge s" "ext ?t = ext s" "next_notification_id (app ?t) = p + 1"
    by (simp_all add: put_history_def advance_def eqs)
  ultimately have "bench_votes_inv h s0 (Suc k) ?t"
    by (simp add: bench_votes_inv_def eqs(1-3) i_def)
  with run show ?thesis by blast
qed

lemma bench_vote_run:
  assumes inv: "bench_votes_inv h s0 k s" and k: "1 \<le> k" "k \<le> n" "n \<le> 10"
    and stake: "active_total_stake s0 = Some tot" "3 * active_stake_of s0 v > 2 * tot"
    and limit: "1 < request_event_limit (app_cfg c)" "unat (request_event_limit (app_cfg c)) < 2 ^ 31"
    and room: "0 < max_validators (app_cfg c)" and out: "bridge_refuses c h (bridge s0) (ext s0)"
  shows "\<exists>t. vote_run c (map (Pair v) (map (bench_observation h) [k ..< n])) s = Some t \<and> bench_votes_inv h s0 n t"
  using inv k
proof (induction "n - k" arbitrary: k s)
  case 0
  then show ?case by simp
next
  case (Suc m)
  then have "k < n" by simp
  then obtain u where u: "submit_observation c v (bench_observation h k) s = Ok () u" "bench_votes_inv h s0 (Suc k) u"
    using bench_vote [OF Suc.prems(1,2) _ stake limit room out] Suc.prems by auto
  obtain t where "vote_run c (map (Pair v) (map (bench_observation h) [Suc k ..< n])) u = Some t" "bench_votes_inv h s0 n t"
  proof -
    have "m = n - Suc k" using Suc.hyps(2) by linarith
    with Suc.hyps(1) [OF _ u(2)] Suc.prems \<open>k < n\<close> that show ?thesis by auto
  qed
  then show ?case using u(1) \<open>k < n\<close> by (simp add: upt_conv_Cons)
qed

text \<open>A state in which nobody has voted yet and the first set and the first notification are expected.\<close>

definition nothing_observed :: "('a, 'b, 'x) runtime \<Rightarrow> bool" where
  "nothing_observed s \<longleftrightarrow> observing (app s) = (\<lambda>o'. []) \<and> observations (app s) = (\<lambda>t i. []) \<and>
     next_set_id (app s) = 1 \<and> next_notification_id (app s) = 0"

lemma bench_set_vote:
  assumes "nothing_observed s" and "active_total_stake s = Some tot" "3 * active_stake_of s v > 2 * tot"
    and "0 < max_validators (app_cfg c)"
  shows "\<exists>t. submit_observation c v (produce_validator_set h 1) s = Ok () t \<and> bench_votes_inv h s 1 t"
proof -
  let ?o = "produce_validator_set h 1"
  have o': "?o = UpdateValidatorSet \<lparr>set_id = 1, validators =
      [\<lparr>validator_id_in_appchain = whitelisted_caller h, validator_total_stake = 100\<rparr>]\<rparr>"
    by (simp add: produce_validator_set_def Let_def)
  define obs where "obs = (observations (app s)) (UpdateValidatorSetType := (\<lambda>i. []) (1 := [?o]))"
  have votes: "index_accepted c ?o s" "noted_observations ?o s = Some obs" "vote_fits c v ?o s" "vote_stake v ?o s = active_stake_of s v"
    using assms by (simp_all add: nothing_observed_def index_accepted_def noted_observations_def vote_fits_def
        vote_stake_def votes_after_def o' obs_def Let_def word_less_nat_alt)
  have "next_set_id (app s) \<noteq> - 1" using assms(1) by (simp add: nothing_observed_def)
  then obtain t where t: "execute_observation c 1 ?o (cast_vote v ?o obs s) = Ok () t"
    unfolding o' by (simp add: execute_validator_set del: execute_observation.simps)
  have "bench_observation h j \<noteq> ?o" "get_observation_type (bench_observation h j) \<noteq> UpdateValidatorSetType" for j
    by (simp_all add: o' bench_observation_def produce_lock_asset_notification_def produce_burn_notification_def)
  moreover have "observing (app t) = (observing (app s))(?o := [v])" "observations (app t) = obs" "lpos t = lpos s"
    "bridge t = bridge s" "ext t = ext s" "next_notification_id (app t) = 0"
    using execute_Ok [OF t] assms(1)
    by (simp_all add: is_notification_def o' cast_vote_def nothing_observed_def votes_after_def)
  ultimately have "bench_votes_inv h s 1 t"
    using assms(1) by (simp add: bench_votes_inv_def nothing_observed_def obs_def)
  moreover have "submit_observation c v ?o s = Ok () t"
    using votes t assms(2,3) by (simp add: submit_observation_eq o')
  ultimately show ?thesis by blast
qed

lemma for_each_discard:
  "for_each (\<lambda>o'. catch (m o') (\<lambda>_. ret ()) (\<lambda>_. ret ())) os = for_each (\<lambda>o'. catch (m o') ret (\<lambda>_. ret ())) os"
  for m :: "'o \<Rightarrow> ('s, 'e, unit) op"
proof -
  have "(\<lambda>_. ret ()) = (ret :: unit \<Rightarrow> ('s, 'f, unit) op)" by (rule ext) simp
  then show ?thesis by simp
qed

section \<open>Properties\<close>

text \<open>
  The benchmark of submit_observations passes when its key belongs to a validator with more than two thirds of
  the stake and nothing has been observed yet. Where its token id is not registered and the bridge's account
  cannot pay the amount, as after the genesis of the crate's own mock runtime, every notification in it fails in
  the bridge. The storage listed in \<open>appchain/src/weights.rs\<close> tells that the weights were generated on another
  runtime, where the mint succeeded.
\<close>

theorem benchmarked_notifications_fail:
  assumes "decode_asset_id h [1, 0, 0, 0] = Some a"
    and "assets_force_create h a (whitelisted_caller h) True (ext s) = Ok u x"
    and "generate_pair h (str_bytes ''bottom drive obey lake curtain smoke basket hold race lonely fit walk//Alice'') = key"
    and "sign_message h [1, 2, 3] key = Some sig"
    and "is_active_validator c key_type (to_raw_vec h key) (s\<lparr>ext := x\<rparr>) = Some v"
    and "active_total_stake s = Some tot" and "3 * active_stake_of s v > 2 * tot"
    and "nothing_observed s" and "bridge_refuses c h (bridge s) x"
    and "1 < request_event_limit (app_cfg c)" and "unat (request_event_limit (app_cfg c)) < 2 ^ 31"
    and "0 < max_validators (app_cfg c)" and "2 \<le> unat b" and "unat b \<le> 10"
  shows "\<exists>t. bench_submit_observations c h b s = Ok () t \<and> ext t = x \<and>
    (\<forall>i \<in> {1 ..< unat b}. notification_history (app t) (word_of_nat i) = Some (failure_result (bench_observation h i)) \<and>
       failure_result (bench_observation h i) \<noteq> Success)"
proof -
  let ?s = "s\<lparr>ext := x\<rparr>"
  have s: "active_total_stake ?s = Some tot" "3 * active_stake_of ?s v > 2 * tot" "nothing_observed ?s"
    "bridge_refuses c h (bridge ?s) (ext ?s)"
    using assms(6-9) active_total_cong [of ?s s] active_stake_cong [of ?s s] by (simp_all add: nothing_observed_def)
  obtain t1 where t1: "submit_observation c v (produce_validator_set h 1) ?s = Ok () t1" "bench_votes_inv h ?s 1 t1"
    using bench_set_vote [OF s(3,1,2) assms(12)] by blast
  obtain t where t: "vote_run c (map (Pair v) (map (bench_observation h) [1 ..< unat b])) t1 = Some t"
    "bench_votes_inv h ?s (unat b) t"
    using bench_vote_run [OF t1(2) _ _ _ s(1,2) assms(10-12) s(4), of "unat b"] assms(13,14) by auto
  have "bench_submit_observations c h b s = Ok () t"
    using assms(1-5) t(1) t1(1)
    by (simp add: bench_submit_observations_def create_default_asset_def must_def on_ext_def get_submitter_information_def
        submit_observations_def ensure_none_def op_defs unwrap_def ok_or_def Let_def for_each_discard for_each_votes)
  moreover have "failure_result (bench_observation h i) \<noteq> Success" for i
    by (simp add: bench_observation_def produce_lock_asset_notification_def produce_burn_notification_def)
  ultimately show ?thesis using t(2) by (auto simp: bench_votes_inv_def)
qed

text \<open>An outside for the benchmarks: one key, assets and items that can always be created.\<close>

definition demo_host :: "(nat, demo_ext) bench_host" where
  "demo_host = \<lparr>whitelisted_caller = 3,
     decode_asset_id = (\<lambda>b. case b of a # _ \<Rightarrow> Some (ucast a) | [] \<Rightarrow> None),
     assets_force_create = (\<lambda>i who sufficient x. Ok () x), uniques_force_create = (\<lambda>col who free x. Ok () x),
     uniques_mint = (\<lambda>org col item who x. Ok () (x\<lparr>item_owner := (item_owner x)(ucast col := (item_owner x (ucast col))(ucast item := Some who))\<rparr>)),
     generate_pair = (\<lambda>seed. [1]), to_raw_vec = (\<lambda>k. k), sign_message = (\<lambda>m k. Some (k @ m))\<rparr>"

definition demo_bench_state :: "(nat, u128, demo_ext) runtime" where
  "demo_bench_state = demo_state\<lparr>lpos := demo_lpos0\<lparr>
     active_era := Some \<lparr>era_number = 0, era_set_id = 0, era_start = None\<rparr>,
     eras_stakers := (\<lambda>e. [(1, 100)]), eras_total_stake := (\<lambda>e. 100)\<rparr>\<rparr>"

lemma demo_bench_simps:
  "active_total_stake demo_bench_state = Some 100" "active_stake_of demo_bench_state 1 = 100"
  "nothing_observed demo_bench_state"
  "bridge_refuses demo_config demo_host (bridge demo_bench_state) (ext demo_bench_state)"
  "is_active_validator demo_config key_type [1] (demo_bench_state\<lparr>ext := demo_ext0\<rparr>) = Some 1"
  by (simp_all add: active_total_stake_def active_stake_of_def eras_stakers_get_def nothing_observed_def
      bridge_refuses_def is_active_validator_def session_is_active_validator_def demo_bench_state_def demo_host_def
      demo_simps)

theorem benchmarked_notifications_fail_witness:
  "\<exists>t. bench_submit_observations demo_config demo_host 10 demo_bench_state = Ok () t \<and>
     notification_history (app t) 1 = Some AssetMintFailed \<and> notification_history (app t) 8 = Some UnlockFailed"
proof -
  obtain t where t: "bench_submit_observations demo_config demo_host 10 demo_bench_state = Ok () t"
    "\<forall>i \<in> {1 ..< unat (10 :: u32)}. notification_history (app t) (word_of_nat i) =
       Some (failure_result (bench_observation demo_host i))"
    using benchmarked_notifications_fail [of demo_host 1 demo_bench_state "()" demo_ext0 "[1]" "[1, 1, 2, 3]" demo_config 1 100 10]
      demo_bench_simps by (auto simp: demo_host_def demo_config_def demo_app_config_def demo_bench_state_def demo_state_def)
  have "notification_history (app t) (word_of_nat 1) = Some (failure_result (bench_observation demo_host 1))"
    "notification_history (app t) (word_of_nat 8) = Some (failure_result (bench_observation demo_host 8))"
    by (rule bspec [OF t(2)], simp)+
  then show ?thesis
    using t(1) by (simp add: bench_observation_def produce_lock_asset_notification_def produce_burn_notification_def)
qed

section \<open>The depth of the history\<close>

text \<open>
  C40. However the parameters are chosen, the benchmark of set_history_depth deletes nothing but the
  information of era 0: the weight it yields is that of at most one deleted era.
\<close>

theorem history_depth_benchmark_deletes_one_era:
  "\<exists>t. bench_set_history_depth b m s = Ok () t \<and> history_depth (lpos t) = b \<and>
    (\<forall>e. e \<noteq> 0 \<longrightarrow> eras_stakers (lpos t) e = eras_stakers (lpos s) e \<and>
       eras_validator_reward (lpos t) e = eras_validator_reward (lpos s) e \<and>
       eras_reward_points (lpos t) e = eras_reward_points (lpos s) e \<and>
       eras_total_stake (lpos t) e = eras_total_stake (lpos s) e \<and>
       eras_start_session_index (lpos t) e = eras_start_session_index (lpos s) e)"
proof -
  define n where "n = (case checked_sub 1 b of Some e \<Rightarrow> e | None \<Rightarrow> 0)"
  have "unat n \<le> 1" by (auto simp: n_def dest!: unat_checked_sub split: option.split)
  then have only: "a \<le> e \<and> e < n \<longleftrightarrow> e = 0 \<and> a = 0 \<and> n = 1" for a e :: u32
    by (auto simp: word_le_nat_alt word_less_nat_alt word_unat_eq_iff)
  obtain a where "bench_set_history_depth b m s = Ok ()
      (s\<lparr>lpos := (clear_eras a n ((lpos s)\<lparr>current_era := Some 1\<rparr>))\<lparr>history_depth := b\<rparr>\<rparr>)" (is "_ = Ok () ?t")
    by (simp add: bench_set_history_depth_def must_def set_history_depth_def op_simps modify_lpos_def Let_def n_def)
  then show ?thesis by (intro exI [of _ ?t]) (simp add: clear_eras_fields only)
qed

theorem history_depth_benchmark_deletes_one_era_witness:
  "\<exists>t. bench_set_history_depth 0 7 demo_bench_state = Ok () t \<and> history_depth (lpos t) = 0 \<and>
    eras_stakers (lpos t) 1 = [(1, 100)] \<and> eras_total_stake (lpos t) 1 = 100"
  using history_depth_benchmark_deletes_one_era [of 0 7 demo_bench_state]
  by (auto simp: demo_bench_state_def demo_state_def)

section \<open>The hook of \<open>upward-messages\<close>\<close>

definition bench_queue :: "u32 \<Rightarrow> nat \<Rightarrow> message list" where
  "bench_queue p n = map (\<lambda>i. \<lparr>msg_nonce = 0, msg_payload_type = bench_payload_type i,
     msg_payload = bench_payload (unat p)\<rparr>) [0 ..< n]"

lemma bench_queue_filled:
  assumes "message_queue (um s) = []" and "n \<le> unat (max_messages_per_commit (um_cfg c))"
    and "p \<le> max_message_payload_size (um_cfg c)"
  shows "for_each (\<lambda>i. bench_append c (bench_payload_type i) (bench_payload (unat p))) [0 ..< n] s =
    Ok () (s\<lparr>um := (um s)\<lparr>message_queue := bench_queue p n\<rparr>\<rparr>)"
  using assms(2)
proof (induction n)
  case 0
  then show ?case using assms(1) by (cases s, cases "um s") (simp add: ret_def bench_queue_def)
next
  case (Suc n)
  then show ?case
    using assms(3)
    by (simp add: for_each_append bench_append_def bounded_payload_def must_def message_queue_try_append_def op_simps
        bench_payload_def bench_queue_def word_le_nat_alt)
qed

lemma bench_queue_average:
  assumes "0 < n"
  shows "average_payload_size (bench_queue p n) = Some (p + 1)"
proof -
  have "sum_list (map (length \<circ> msg_payload) (bench_queue p n)) = n * unat p"
    by (simp add: bench_queue_def comp_def bench_payload_def sum_list_triv)
  then show ?thesis
    using assms by (simp add: average_payload_size_def fold_add_lengths Let_def) (simp add: bench_queue_def)
qed

text \<open>
  The benchmark of on_initialize, run with a number of messages and a payload size that fit the queue,
  passes, and the hook charges for it the weight of exactly these messages with payloads one byte larger; with
  an interval of zero it panics.
\<close>

theorem on_initialize_is_charged_as_benchmarked:
  assumes "message_queue (um s) = []" and "m \<noteq> 0" and "m \<le> max_messages_per_commit (um_cfg c)"
    and "p \<le> max_message_payload_size (um_cfg c)"
  shows "if interval (um s) = 0 then bench_on_initialize c m p s = Panic
    else \<exists>t. bench_on_initialize c m p s = Ok (weight_on_initialize (um_cfg c) m (p + 1)) t \<and>
      message_queue (um t) = []"
proof -
  let ?q = "bench_queue p (unat m)" and ?s = "s\<lparr>um := (um s)\<lparr>message_queue := bench_queue p (unat m)\<rparr>\<rparr>"
  have fill: "for_each (\<lambda>i. bench_append c (bench_payload_type i) (bench_payload (unat p))) [0 ..< unat m] s = Ok () ?s"
    using assms by (intro bench_queue_filled) (simp_all add: word_le_nat_alt)
  have q: "?q \<noteq> []" "length ?q = unat m" "average_payload_size ?q = Some (p + 1)"
    using assms(2) bench_queue_average [of "unat m" p] by (auto simp: bench_queue_def unat_gt_0)
  show ?thesis
    by (simp add: bench_on_initialize_def bind_def fill gets_def on_initialize_eq commit_eq q committed_state_def Let_def
        assert_that_def ret_def)
qed

theorem on_initialize_is_charged_as_benchmarked_witness:
  "\<exists>t. bench_on_initialize demo_config 2 3 demo_state = Ok (weight_on_initialize demo_um_config 2 4) t"
proof -
  have "2 \<le> max_messages_per_commit demo_um_config" "3 \<le> max_message_payload_size demo_um_config"
    by (simp_all add: demo_um_config_def)
  moreover have "um_cfg demo_config = demo_um_config" "um demo_state = demo_um0"
    by (simp_all add: demo_config_def demo_state_def)
  ultimately show ?thesis
    using on_initialize_is_charged_as_benchmarked [of demo_state 2 demo_config 3] by (auto simp: demo_um0_def)
qed

section \<open>The benchmarks of the bridge\<close>

lemmas bench_simps = op_simps demo_simps Let_def must_def ignore_def assert_that_def assert_last_event_def
  balance_of_u128_def make_free_balance_def update_ext_def demo_host_def get_asset_id_def create_default_asset_def
  create_default_nft_collection_def mint_nft_def set_oracle_account_and_update_token_price_def set_oracle_account_def
  set_token_price_def calculate_and_update_fee_def calculate_quantity_of_native_tokens_def lookup_def
  force_set_is_activated_def ensure_activated_def transactional_def default_for_coef_def

lemma bench_lock_passes: "\<exists>t. bench_lock demo_config demo_host demo_state = Ok () t"
  by (simp add: bench_lock_def lock_def do_lock_def do_lock_fungible_transfer_fee_def from_utf8_def stored_fee_def
      submit_eq queue_full_def too_large_def accept_message_def hex_format_def str_bytes_def bench_simps)

lemma bench_burn_nep141_passes:
  "\<exists>t. bench_burn_nep141 demo_config demo_host demo_state = Ok () t"
  by (simp add: bench_burn_nep141_def burn_nep141_def do_burn_nep141_def do_lock_fungible_transfer_fee_def from_utf8_def
      stored_fee_def set_token_id_def insert_asset_id_def storage_iter_def try_get_token_id_def force_mint_nep141_def
      submit_eq queue_full_def too_large_def accept_message_def hex_format_def str_bytes_def bench_simps)

lemma bench_token_ids_pass:
  "\<exists>t. bench_set_token_id demo_config demo_host demo_state = Ok () t"
  "\<exists>t. bench_delete_token_id demo_config demo_host demo_state = Ok () t"
  by (simp_all add: bench_set_token_id_def bench_delete_token_id_def set_token_id_def delete_token_id_def insert_asset_id_def
      storage_iter_def try_get_token_id_def try_get_asset_id_def str_bytes_def bench_simps)

lemma bench_root_calls_pass:
  "\<exists>t. bench_force_mint_nep141 demo_config demo_host demo_state = Ok () t"
  "\<exists>t. bench_set_oracle_account demo_host demo_state = Ok () t"
  "\<exists>t. bench_set_token_price demo_config demo_host demo_state = Ok () t"
  by (simp_all add: bench_force_mint_nep141_def force_mint_nep141_def bench_set_oracle_account_def bench_set_token_price_def
      bench_simps)

lemma bench_items_pass:
  "\<exists>t. bench_lock_nonfungible demo_config demo_host demo_state = Ok () t"
  "\<exists>t. bench_force_unlock_nonfungible demo_config demo_host demo_state = Ok () t"
  by (simp_all add: bench_lock_nonfungible_def bench_force_unlock_nonfungible_def lock_nonfungible_def do_lock_nonfungible_def
      do_lock_nonfungible_transfer_fee_def force_unlock_nonfungible_def from_utf8_def stored_fee_def
      submit_eq queue_full_def too_large_def accept_message_def hex_format_def str_bytes_def bench_simps)

text \<open>
  Where the token id of the benchmark is registered for another asset, as in the genesis of the mock runtimes
  of both crates, the registration is refused, the refusal ignored, and the assertion fails.
\<close>

lemma bench_set_token_id_panics:
  assumes "map_of (asset_id_by_token_id (bridge s)) test_account = Some i" and "decode_asset_id h [1, 0, 0, 0] = Some a"
    and "i \<noteq> a"
  shows "bench_set_token_id c h s = Panic"
  using assms
  by (simp add: bench_set_token_id_def must_def ignore_def get_asset_id_def force_set_is_activated_def set_token_id_def
      ensure_activated_def try_get_asset_id_def assert_that_def op_simps modify_app_def)

text \<open>The amount unlocked by the benchmark is a hundred times what it deposits before.\<close>

lemma bench_force_unlock_iff:
  assumes "balance_from_u128 (bridge_cfg c) 10000000000000000 = Some d"
    and "balance_from_u128 (bridge_cfg c) 1000000000000000000 = Some v"
    and "currency_transfer (bridge_cfg c) (bridge_account (bridge_cfg c)) (whitelisted_caller h) v KeepAlive
      (currency_deposit_creating (lpos_cfg c) (bridge_account (bridge_cfg c)) d (ext s)) = r"
  shows "bench_force_unlock c h s = Panic \<longleftrightarrow> (\<forall>u x. r \<noteq> Ok u x)"
  using assms
  by (cases r) (simp_all add: bench_force_unlock_def balance_of_u128_def update_ext_def must_def force_unlock_def
      lookup_def assert_last_event_def assert_that_def Let_def op_simps)

end
