(* ===== verification/Mock_Runtime.thy ===== *)
theory Mock_Runtime
  imports Chain Bridge_Impls Benchmarks_Properties
begin

text \<open>
  The runtimes of the tests (\<open>mock.rs\<close>): that of \<open>lpos\<close> with its constants, types and genesis, where those of
  \<open>appchain\<close> and \<open>bridge\<close> differ from it, and the stakes and the token ids of the benchmarking crates. The
  functions of the outside pallets are those of the given configuration.
\<close>

section \<open>Constants\<close>

definition millicents :: u128 where "millicents = 10000000000"
definition cents :: u128 where "cents = 1000 * millicents"
definition dollars :: u128 where "dollars = 100 * cents"

definition milliseconds_per_block :: u64 where "milliseconds_per_block = 3000"
definition secs_per_block :: u64 where "secs_per_block = milliseconds_per_block div 1000"
definition minutes :: u32 where "minutes = 60 div ucast secs_per_block"
definition epoch_duration_in_blocks :: u32 where "epoch_duration_in_blocks = 1 * minutes"
definition blocks_per_era :: u32 where "blocks_per_era = epoch_duration_in_blocks * 6 div ucast secs_per_block"

section \<open>Configuration\<close>

text \<open>\<open>PalletId(*b"py/octps")\<close>, the account of both \<open>lpos\<close> and the bridge.\<close>

definition octopus_appchain_pallet_id :: bytes where
  "octopus_appchain_pallet_id = str_bytes ''py/octps''"

definition mock_um_config :: "um_config \<Rightarrow> um_config" where
  "mock_um_config c = c\<lparr>max_message_payload_size := 256, max_messages_per_commit := 20\<rparr>"

definition mock_appchain_config :: "'a appchain_config \<Rightarrow> 'a appchain_config" where
  "mock_appchain_config c = c\<lparr>grace_period := 10, unsigned_priority := push_bit 21 1, request_event_limit := 10,
     max_validators := 100\<rparr>"

definition mock_bridge_config :: "(bytes \<Rightarrow> 'a) \<Rightarrow> ('a, u128, 'x) bridge_config \<Rightarrow> ('a, u128, 'x) bridge_config" where
  "mock_bridge_config into_account c = c\<lparr>bridge_account := into_account octopus_appchain_pallet_id,
     balance_into_u128 := Some, balance_from_u128 := Some, balance_le := (\<le>),
     nonfungibles_transfer := no_uniques_transfer,
     convert_into_nep171_metadata := (\<lambda>collection item x. unit_convert_into_nep171_metadata collection item),
     native_token_decimals := 1000000000000000000, threshold := 300\<rparr>"

definition mock_lpos_config :: "(bytes \<Rightarrow> 'a) \<Rightarrow> ('a, u128, 'x) lpos_config \<Rightarrow> ('a, u128, 'x) lpos_config" where
  "mock_lpos_config into_account c = c\<lparr>sessions_per_era := 6, bonding_duration := 24 * 28,
     lpos_account := into_account octopus_appchain_pallet_id\<rparr>"

definition mock_config :: "(bytes \<Rightarrow> 'a) \<Rightarrow> ('a, u128, 'x) config \<Rightarrow> ('a, u128, 'x) config" where
  "mock_config into_account c = c\<lparr>um_cfg := mock_um_config (um_cfg c),
     bridge_cfg := mock_bridge_config into_account (bridge_cfg c),
     lpos_cfg := mock_lpos_config into_account (lpos_cfg c), app_cfg := mock_appchain_config (app_cfg c)\<rparr>"

section \<open>Genesis\<close>

definition mock_stash :: u128 where
  "mock_stash = 100 * 1000000000000000000"

definition mock_genesis :: "'a \<Rightarrow> 'a \<Rightarrow> 'a genesis_config" where
  "mock_genesis alice bob = (let vs = map (\<lambda>x. (x, mock_stash)) [alice, bob] in
     \<lparr>genesis_interval = 1, genesis_premined_amount = 1024 * dollars,
      genesis_asset_ids = [(str_bytes ''usdc.testnet'', 2)], genesis_history_depth = 84,
      genesis_era_payout = 2 * dollars, genesis_anchor_contract = str_bytes ''oct-test.testnet'',
      genesis_validators = vs\<rparr>)"

lemmas mock_config_defs = mock_config_def mock_um_config_def mock_bridge_config_def mock_lpos_config_def
  mock_appchain_config_def

lemma mock_genesis_ok: "genesis_ok (mock_genesis alice bob)"
  by (simp add: genesis_ok_def mock_genesis_def mock_stash_def stakes_sum_def)

lemma mock_sessions [simp]: "sessions (mock_config into_account c) = 6"
  by (simp add: mock_config_defs)

lemma mock_chain:
  fixes s :: "('a, u128, 'x) runtime" and c :: "('a, u128, 'x) config" and alice bob :: 'a
  assumes "fresh_storage s" and "alice \<noteq> bob"
  shows "\<exists>t. chain_at (mock_config into_account c) 0 t \<and> interval (um t) = 1 \<and> message_queue (um t) = [] \<and>
    map_option era_number (active_era (lpos t)) = Some 0 \<and> eras_stakers (lpos t) 0 = [(alice, mock_stash), (bob, mock_stash)] \<and>
    eras_total_stake (lpos t) 0 = 2 * mock_stash \<and> era_payout (lpos t) = 2 * dollars"
proof -
  let ?c = "mock_config into_account c"
  have "\<exists>s0 r0 s1 r1 s2 s3. runtime_genesis ?c (mock_genesis alice bob) s = Ok () s0 \<and>
     plan_session ?c 0 s0 = Ok r0 s1 \<and> plan_session ?c 1 s1 = Ok r1 s2 \<and> start_session ?c 0 s2 = Ok () s3 \<and>
     interval (um s3) = 1 \<and> message_queue (um s3) = [] \<and>
    map_option era_number (active_era (lpos s3)) = Some 0 \<and> eras_stakers (lpos s3) 0 = [(alice, mock_stash), (bob, mock_stash)] \<and>
    eras_total_stake (lpos s3) 0 = 2 * mock_stash \<and> era_payout (lpos s3) = 2 * dollars"
    using assms
    by (simp add: fresh_storage_def era_view_def runtime_genesis_def um_genesis_build_def bridge_genesis_build_def lpos_genesis_build_def
      appchain_genesis_build_def mock_genesis_def insert_asset_id_def
      plan_session_def new_session_def try_trigger_new_era_def start_session_def start_era_def
      trigger_new_era_def store_stakers_info_def store_staker_def op_simps Let_def checked_sub_def
      saturating_sub_def saturating_add_def checked_add_def um_empty_def mock_config_defs mock_stash_def)
  then show ?thesis using chain_genesis [OF assms(1) mock_genesis_ok] by blast
qed

section \<open>The runtimes of \<open>appchain\<close> and \<open>bridge\<close>\<close>

text \<open>Both keep the constants above and convert items with \<open>ExampleConvertor\<close>; \<open>bridge\<close> has real items.\<close>

definition appchain_mock_bridge_config :: "'x attributes \<Rightarrow> (bytes \<Rightarrow> 'a) \<Rightarrow> ('a, u128, 'x) bridge_config
    \<Rightarrow> ('a, u128, 'x) bridge_config" where
  "appchain_mock_bridge_config n into_account c = c\<lparr>bridge_account := into_account octopus_appchain_pallet_id,
     balance_into_u128 := Some, balance_from_u128 := Some, balance_le := (\<le>),
     nonfungibles_transfer := no_uniques_transfer, convert_into_nep171_metadata := example_convertor n,
     native_token_decimals := 1000000000000000000, threshold := 300\<rparr>"

definition appchain_mock_appchain_config :: "'a appchain_config \<Rightarrow> 'a appchain_config" where
  "appchain_mock_appchain_config c = c\<lparr>grace_period := 10, unsigned_priority := push_bit 21 1,
     request_event_limit := 10, max_validators := 5\<rparr>"

definition appchain_mock_config :: "'x attributes \<Rightarrow> (bytes \<Rightarrow> 'a) \<Rightarrow> ('a, u128, 'x) config \<Rightarrow> ('a, u128, 'x) config" where
  "appchain_mock_config n into_account c = c\<lparr>
     um_cfg := (um_cfg c)\<lparr>max_message_payload_size := 256, max_messages_per_commit := 20\<rparr>,
     bridge_cfg := appchain_mock_bridge_config n into_account (bridge_cfg c),
     lpos_cfg := (lpos_cfg c)\<lparr>sessions_per_era := 6, bonding_duration := 24 * 28,
       lpos_account := into_account octopus_appchain_pallet_id\<rparr>,
     app_cfg := appchain_mock_appchain_config (app_cfg c)\<rparr>"

definition bridge_mock_bridge_config :: "'x attributes \<Rightarrow> (bytes \<Rightarrow> 'a) \<Rightarrow> ('a, u128, 'x) bridge_config
    \<Rightarrow> ('a, u128, 'x) bridge_config" where
  "bridge_mock_bridge_config n into_account c = c\<lparr>bridge_account := into_account octopus_appchain_pallet_id,
     balance_into_u128 := Some, balance_from_u128 := Some, balance_le := (\<le>),
     convert_into_nep171_metadata := example_convertor n,
     native_token_decimals := 1000000000000000000, threshold := 300\<rparr>"

definition bridge_mock_appchain_config :: "'a appchain_config \<Rightarrow> 'a appchain_config" where
  "bridge_mock_appchain_config c = c\<lparr>grace_period := 10, unsigned_priority := push_bit 21 1,
     request_event_limit := 10, max_validators := 10\<rparr>"

definition bridge_mock_config :: "'x attributes \<Rightarrow> (bytes \<Rightarrow> 'a) \<Rightarrow> ('a, u128, 'x) config \<Rightarrow> ('a, u128, 'x) config" where
  "bridge_mock_config n into_account c = c\<lparr>
     um_cfg := (um_cfg c)\<lparr>max_message_payload_size := 256, max_messages_per_commit := 20\<rparr>,
     bridge_cfg := bridge_mock_bridge_config n into_account (bridge_cfg c),
     lpos_cfg := (lpos_cfg c)\<lparr>sessions_per_era := 6, bonding_duration := 24 * 28,
       lpos_account := into_account octopus_appchain_pallet_id\<rparr>,
     app_cfg := bridge_mock_appchain_config (app_cfg c)\<rparr>"

text \<open>Their testers build the genesis of \<open>appchain\<close> and of the session pallet only.\<close>

definition appchain_tester :: "'a \<Rightarrow> 'a \<Rightarrow> ('a, 'b, 'x, unit) call" where
  "appchain_tester alice bob = (let vs = map (\<lambda>x. (x, mock_stash)) [alice, bob] in
     appchain_genesis_build (str_bytes ''oct-test.testnet'') vs)"

text \<open>So the interval of \<open>upward-messages\<close> is still its default, zero, and no block can start.\<close>

lemma appchain_tester_starts_no_block:
  assumes "fresh_storage s"
  shows "\<exists>t. appchain_tester alice bob s = Ok () t \<and> on_initialize c now t = Panic"
  using assms
  by (simp add: appchain_tester_def appchain_genesis_build_def on_initialize_eq fresh_storage_def um_empty_def Let_def op_simps)

section \<open>The runtimes of the benchmarks\<close>

text \<open>\<open>MockLpos\<close>: every account holds the whole stake, so the promise of \<open>LposInterface\<close> on stakes is broken.\<close>

definition mock_lpos_active_stake_of :: "'s \<Rightarrow> 'a \<Rightarrow> u128" where
  "mock_lpos_active_stake_of s who = 100"

definition mock_lpos_active_total_stake :: "'s \<Rightarrow> u128 option" where
  "mock_lpos_active_total_stake s = Some 100"

lemma mock_lpos_exceeds_its_total:
  fixes alice bob :: 'a
  assumes "alice \<noteq> bob"
  shows "\<not> lpos_interface (mock_lpos_active_stake_of :: 's \<Rightarrow> 'a \<Rightarrow> u128) mock_lpos_active_total_stake (\<lambda>s. True)"
proof
  assume "lpos_interface (mock_lpos_active_stake_of :: 's \<Rightarrow> 'a \<Rightarrow> u128) mock_lpos_active_total_stake (\<lambda>s. True)"
  from lpos_interface.stakes_bounded [OF this, of undefined 100 "[alice, bob]"] assms show False
    by (simp add: mock_lpos_active_stake_of_def mock_lpos_active_total_stake_def stake_sum_def)
qed

definition benchmark_bridge_genesis :: "('a, 'b, 'x) config \<Rightarrow> ('a, 'b, 'x, unit) call" where
  "benchmark_bridge_genesis c = bridge_genesis_build c (1024 * dollars)
     [(str_bytes ''test-account.testnet'', 0), (str_bytes ''usdc.testnet'', 2)]"

text \<open>The benchmarks of the bridge register the first of these token ids for asset 1.\<close>

lemma bench_set_token_id_panics_after_genesis:
  assumes "fresh_storage s" and "benchmark_bridge_genesis c s = Ok u t" and "decode_asset_id h [1, 0, 0, 0] = Some 1"
  shows "bench_set_token_id c h t = Panic"
proof (rule bench_set_token_id_panics [OF _ assms(3), of _ 0])
  show "map_of (asset_id_by_token_id (bridge t)) (str_bytes ''test-account.testnet'') = Some 0"
    using assms(1,2)
    by (auto simp: benchmark_bridge_genesis_def bridge_genesis_build_def fresh_storage_def insert_asset_id_def str_bytes_def
        op_simps split: option.splits if_splits)
qed simp

lemma benchmark_genesis_misses_token:
  assumes "fresh_storage s" and "benchmark_bridge_genesis c s = Ok u t"
  shows "map_of (asset_id_by_token_id (bridge t)) (str_bytes ''usdn.testnet'') = None"
  using assms
  by (auto simp: benchmark_bridge_genesis_def bridge_genesis_build_def fresh_storage_def insert_asset_id_def str_bytes_def
      op_simps split: option.splits if_splits)

text \<open>The amount that \<open>submit_observations\<close> is benchmarked with is more than the premined one.\<close>

lemma benchmark_burn_exceeds_premined: "1024 * dollars < (10000000000000000000 :: u128)"
  by (simp add: dollars_def cents_def millicents_def)

end
